(* ===== verification/Prelude.thy ===== *)
theory Prelude
  imports Main "HOL-Library.Word"
begin

unbundle bit_operations_syntax

text \<open>
  Shared material of the development: the C integer types as words, little-endian byte
  encodings (both targets of the build, x86-64 and arm64, are little-endian), byte-addressed
  memory, and the length-clipping idiom the probes use to keep the BPF verifier happy.
  Nothing here models a function of the program except \<open>roundup\<close> (kern/common.h) and the
  byte swap (kern/bpf/bpf_endian.h).
\<close>

type_synonym u8 = "8 word"
type_synonym u16 = "16 word"
type_synonym u32 = "32 word"
type_synonym u64 = "64 word"
type_synonym u128 = "128 word"
type_synonym s8 = "8 word"
type_synonym s32 = "32 word"
type_synonym s64 = "64 word"
type_synonym bytes = "u8 list"
type_synonym memory = "u64 \<Rightarrow> u8 option"

named_theorems bpf_defs \<open>definitions of the BPF runtime that proofs unfold together\<close>
named_theorems layout_simps \<open>offset tables and layout predicates\<close>
named_theorems handler_defs \<open>the small helper functions the handlers of a probe call\<close>

subsection \<open>Little-endian encodings\<close>

fun le_nat :: "bytes \<Rightarrow> nat" where
  "le_nat [] = 0"
| "le_nat (b # bs) = unat b + 256 * le_nat bs"

definition le_word :: "bytes \<Rightarrow> 'a::len word" where
  "le_word bs = of_nat (le_nat bs)"

fun le_enc_nat :: "nat \<Rightarrow> nat \<Rightarrow> bytes" where
  "le_enc_nat 0 n = []"
| "le_enc_nat (Suc k) n = of_nat n # le_enc_nat k (n div 256)"

definition le_enc :: "nat \<Rightarrow> 'a::len word \<Rightarrow> bytes" where
  "le_enc k w = le_enc_nat k (unat w)"

lemma length_le_enc_nat [simp]: "length (le_enc_nat k n) = k"
  by (induction k arbitrary: n) auto

lemma le_enc_nat_numeral:
  "le_enc_nat (numeral v) n = of_nat n # le_enc_nat (pred_numeral v) (n div 256)"
  by (subst numeral_eq_Suc) (rule le_enc_nat.simps(2))

lemma length_le_enc [simp]: "length (le_enc k w) = k"
  by (simp add: le_enc_def)

lemma unat_of_nat_u8 [simp]: "unat (of_nat n :: u8) = n mod 256"
  by (simp add: unat_of_nat)

lemma le_nat_enc: "le_nat (le_enc_nat k n) = n mod 256 ^ k"
proof (induction k arbitrary: n)
  case 0
  then show ?case by simp
next
  case (Suc k)
  have "le_nat (le_enc_nat (Suc k) n) = n mod 256 + 256 * (n div 256 mod 256 ^ k)"
    by (simp add: Suc.IH)
  also have "\<dots> = n mod (256 * 256 ^ k)"
    by (simp add: mod_mult2_eq)
  finally show ?case by simp
qed

lemma le_word_enc:
  assumes "LENGTH('a::len) \<le> 8 * k"
  shows "le_word (le_enc k (w :: 'a word)) = w"
proof -
  have "unat w < 2 ^ LENGTH('a)" by (rule unsigned_less)
  also have "(2::nat) ^ LENGTH('a) \<le> 2 ^ (8 * k)" by (rule power_increasing [OF assms]) simp
  also have "(2::nat) ^ (8 * k) = 256 ^ k" by (simp add: power_mult)
  finally have "unat w mod 256 ^ k = unat w" by simp
  then show ?thesis by (simp add: le_word_def le_enc_def le_nat_enc)
qed

lemma le_enc_0 [simp]: "le_enc n 0 = replicate n 0"
proof -
  have "le_enc_nat n 0 = replicate n 0" by (induction n) auto
  then show ?thesis by (simp add: le_enc_def)
qed

lemma le_word_zeros [simp]: "le_word (replicate n 0) = 0"
proof -
  have "le_nat (replicate n 0) = 0" by (induction n) auto
  then show ?thesis by (simp add: le_word_def)
qed

lemma le_word_enc_u64 [simp]: "le_word (le_enc 8 (w :: u64)) = w"
  by (rule le_word_enc) simp

lemma le_word_enc_u32 [simp]: "le_word (le_enc 4 (w :: u32)) = w"
  by (rule le_word_enc) simp

lemma le_word_enc_u16 [simp]: "le_word (le_enc 2 (w :: u16)) = w"
  by (rule le_word_enc) simp

lemma le_word_enc_u8 [simp]: "le_word (le_enc 1 (w :: u8)) = w"
  by (rule le_word_enc) simp

lemma le_word_single [simp]: "(le_word [b] :: u8) = b"
  by (simp add: le_word_def)

lemma le_word_enc_u128 [simp]: "le_word (le_enc 16 (w :: u128)) = w"
  by (rule le_word_enc) simp

lemma unat_of_nat_u64: "n < 2 ^ 64 \<Longrightarrow> unat (of_nat n :: u64) = n"
  by (simp add: unat_of_nat)

lemma le_nat_bound: "le_nat bs < 256 ^ length bs"
proof (induction bs)
  case (Cons b bs)
  have "unat b < 256" using unsigned_less [of b] by simp
  then show ?case using Cons.IH by simp
qed simp

lemma unat_le_word: "le_nat bs < 2 ^ LENGTH('a) \<Longrightarrow> unat (le_word bs :: 'a::len word) = le_nat bs"
  by (simp only: le_word_def unsigned_of_nat take_bit_nat_eq_self of_nat_id)

lemma le_nat_append: "le_nat (xs @ ys) = le_nat xs + 256 ^ length xs * le_nat ys"
  by (induction xs) (auto simp: algebra_simps)

lemma le_nat_le_enc: "LENGTH('a) \<le> 8 * k \<Longrightarrow> le_nat (le_enc k (w :: 'a::len word)) = unat w"
proof -
  assume k: "LENGTH('a) \<le> 8 * k"
  have "unat w < 2 ^ LENGTH('a)" by (rule unsigned_less)
  also have "\<dots> \<le> 2 ^ (8 * k)" using k by (rule power_increasing) simp
  also have "\<dots> = (256 :: nat) ^ k" by (simp add: power_mult)
  finally show ?thesis by (simp add: le_enc_def le_nat_enc)
qed

text \<open>Two adjacent fields read as one word: the first field is the low half.\<close>

lemma le_word_pair:
  fixes x y :: "'a::len word"
  assumes "LENGTH('a) = 8 * k" and "LENGTH('b::len) = 16 * k"
  shows "ucast (le_word (le_enc k x @ le_enc k y) :: 'b word) = x"
    and "ucast (drop_bit (8 * k) (le_word (le_enc k x @ le_enc k y) :: 'b word)) = y"
proof -
  let ?w = "le_word (le_enc k x @ le_enc k y) :: 'b word"
  define p :: nat where "p = 2 ^ (8 * k)"
  have p256: "256 ^ k = p" by (simp add: p_def power_mult)
  have b: "unat x < p" "unat y < p" using unsigned_less [of x] unsigned_less [of y] assms(1) by (simp_all add: p_def)
  have "unat x + p * unat y < p * p"
  proof -
    have "unat x + p * unat y < p + p * unat y" using b by simp
    also have "\<dots> = p * Suc (unat y)" by simp
    also have "\<dots> \<le> p * p" using b by (intro mult_le_mono2) simp
    finally show ?thesis .
  qed
  also have "p * p = 2 ^ LENGTH('b)" using assms(2) by (simp add: p_def flip: power_add)
  finally have lt: "unat x + p * unat y < 2 ^ LENGTH('b)" .
  have "le_nat (le_enc k x @ le_enc k y) = unat x + p * unat y"
    using assms(1) by (simp add: le_nat_append le_nat_le_enc p256)
  then have w: "unat ?w = unat x + p * unat y"
    using lt by (simp only: le_word_def unsigned_of_nat take_bit_nat_eq_self of_nat_id)
  have tb: "take_bit LENGTH('a) n = n mod p" for n :: nat by (simp add: take_bit_eq_mod assms(1) p_def)
  show "ucast ?w = x"
    by (simp only: word_unat_eq_iff unsigned_ucast_eq tb w) (use b in simp)
  have "unat (drop_bit (8 * k) ?w) = unat y"
    using b by (simp only: unsigned_drop_bit_eq w take_bit_nat_eq_self [OF lt]) (simp add: drop_bit_eq_div flip: p_def)
  then show "ucast (drop_bit (8 * k) ?w) = y"
    using b by (simp only: word_unat_eq_iff unsigned_ucast_eq tb) simp
qed

lemmas le_word_pair_u32 = le_word_pair [where 'a = 32 and 'b = 64 and k = 4, simplified]
lemmas le_word_pair_u16 = le_word_pair [where 'a = 16 and 'b = 32 and k = 2, simplified]

subsection \<open>Memory reads\<close>

text \<open>
  \<open>read_mem m n a\<close> is the \<open>n\<close> bytes from address \<open>a\<close>, or nothing when one of them is not
  mapped: a probe read is all or nothing.
\<close>

fun read_mem :: "memory \<Rightarrow> nat \<Rightarrow> u64 \<Rightarrow> bytes option" where
  "read_mem m 0 a = Some []"
| "read_mem m (Suc n) a =
     (case m a of None \<Rightarrow> None
      | Some b \<Rightarrow> (case read_mem m n (a + 1) of None \<Rightarrow> None | Some bs \<Rightarrow> Some (b # bs)))"

lemma length_read_mem: "read_mem m n a = Some bs \<Longrightarrow> length bs = n"
  by (induction n arbitrary: a bs) (auto split: option.splits)

lemma read_mem_append:
  "read_mem m (n + k) a =
     (case read_mem m n a of None \<Rightarrow> None
      | Some xs \<Rightarrow> (case read_mem m k (a + of_nat n) of None \<Rightarrow> None | Some ys \<Rightarrow> Some (xs @ ys)))"
proof (induction n arbitrary: a)
  case 0
  show ?case by (simp split: option.splits)
next
  case (Suc n)
  show ?case by (simp add: Suc.IH add.assoc split: option.splits)
qed

lemma read_mem_split:
  assumes "read_mem m (n + k) a = Some (xs @ ys)" and "length xs = n"
  shows "read_mem m n a = Some xs" and "read_mem m k (a + of_nat n) = Some ys"
  using assms by (auto simp: read_mem_append dest: length_read_mem split: option.splits)

text \<open>A memory image: the bytes \<open>bs\<close> stored from address \<open>a\<close> on, over an older memory.\<close>

fun poke :: "u64 \<Rightarrow> bytes \<Rightarrow> memory \<Rightarrow> memory" where
  "poke a [] m = m"
| "poke a (b # bs) m = (poke (a + 1) bs m)(a := Some b)"

lemma read_mem_const [simp]: "read_mem (\<lambda>_. Some v) n a = Some (replicate n v)"
  by (induction n arbitrary: a) auto

lemma read_mem_none [simp]: "read_mem (\<lambda>_. None) n a = (if n = 0 then Some [] else None)"
  by (cases n) auto

lemma read_mem_cong:
  "(\<And>i. i < n \<Longrightarrow> m (a + of_nat i) = m' (a + of_nat i)) \<Longrightarrow> read_mem m n a = read_mem m' n a"
proof (induction n arbitrary: a)
  case 0
  then show ?case by simp
next
  case (Suc n)
  have "m a = m' a" using Suc.prems [of 0] by simp
  moreover have "read_mem m n (a + 1) = read_mem m' n (a + 1)"
  proof (rule Suc.IH)
    fix i assume "i < n"
    then show "m (a + 1 + of_nat i) = m' (a + 1 + of_nat i)"
      using Suc.prems [of "Suc i"] by (simp add: add.assoc)
  qed
  ultimately show ?case by (simp only: read_mem.simps)
qed

lemma of_nat_u64_neq: "i < 2 ^ 64 \<Longrightarrow> j < 2 ^ 64 \<Longrightarrow> i \<noteq> j \<Longrightarrow> (of_nat i :: u64) \<noteq> of_nat j"
  by (simp add: word_unat_eq_iff unsigned_of_nat take_bit_nat_eq_self)

lemma read_mem_poke: "length bs < 2 ^ 64 \<Longrightarrow> read_mem (poke a bs m) (length bs) a = Some bs"
proof (induction bs arbitrary: a)
  case Nil
  then show ?case by simp
next
  case (Cons b bs)
  have "read_mem ((poke (a + 1) bs m)(a := Some b)) (length bs) (a + 1) =
      read_mem (poke (a + 1) bs m) (length bs) (a + 1)"
  proof (rule read_mem_cong)
    fix i assume "i < length bs"
    then have "(of_nat (Suc i) :: u64) \<noteq> of_nat 0"
      using Cons.prems by (intro of_nat_u64_neq) auto
    then have "a + 1 + of_nat i \<noteq> a" by (simp add: add.assoc)
    then show "((poke (a + 1) bs m)(a := Some b)) (a + 1 + of_nat i) =
        poke (a + 1) bs m (a + 1 + of_nat i)" by simp
  qed
  with Cons show ?case by (simp del: fun_upd_apply) simp
qed

lemma poke_other: "length bs \<le> unat (x - a) \<Longrightarrow> poke a bs m x = m x"
proof (induction bs arbitrary: a)
  case Nil
  then show ?case by simp
next
  case (Cons b bs)
  then have "x \<noteq> a" by auto
  then have "unat (x - (a + 1)) = unat (x - a) - 1"
    by (simp add: unat_minus_one diff_diff_eq [symmetric])
  with Cons.prems have "length bs \<le> unat (x - (a + 1))" by simp
  with Cons.IH [of "a + 1"] \<open>x \<noteq> a\<close> show ?case by simp
qed

lemma read_mem_poke_other:
  assumes "length bs \<le> unat (b - a)" and "n \<le> unat (a - b)"
  shows "read_mem (poke a bs m) n b = read_mem m n b"
proof (cases "b = a")
  case True
  with assms show ?thesis by simp
next
  case False
  show ?thesis
  proof (rule read_mem_cong, rule poke_other)
    fix i
    assume i: "i < n"
    have d: "unat (b - a) \<noteq> 0" "unat (b - a) < 2 ^ 64"
      using False unsigned_less [of "b - a"] by (simp_all add: unat_eq_0)
    have "a - b = of_nat (2 ^ 64 - unat (b - a))" using d(2) by (simp add: of_nat_diff)
    then have "unat (a - b) = 2 ^ 64 - unat (b - a)"
      using d by (simp only: unsigned_of_nat) (simp add: take_bit_nat_eq_self)
    with i assms(2) have lt: "unat (b - a) + i < 2 ^ 64" by linarith
    have "b + of_nat i - a = of_nat (unat (b - a) + i)" by simp
    then have "unat (b + of_nat i - a) = unat (b - a) + i"
      using lt by (simp only: unsigned_of_nat) (simp add: take_bit_nat_eq_self)
    with assms(1) show "length bs \<le> unat (b + of_nat i - a)" by simp
  qed
qed

lemma read_mem_poke_same: "n = length bs \<Longrightarrow> n < 2 ^ 64 \<Longrightarrow> read_mem (poke a bs m) n a = Some bs"
  by (simp add: read_mem_poke)

lemmas read_mem_pokes = read_mem_poke_same read_mem_poke_other

lemma read_mem_slice:
  assumes "read_mem m n a = Some bs" and "i + j \<le> n"
  shows "read_mem m j (a + of_nat i) = Some (take j (drop i bs))"
proof -
  have len: "length bs = n" using assms(1) by (rule length_read_mem)
  have "read_mem m (i + (n - i)) a = Some (take i bs @ drop i bs)" using assms by simp
  from read_mem_split(2) [OF this] have "read_mem m (n - i) (a + of_nat i) = Some (drop i bs)" using assms(2) len by simp
  then have "read_mem m (j + (n - i - j)) (a + of_nat i) = Some (take j (drop i bs) @ drop j (drop i bs))"
    using assms(2) by (simp del: drop_drop)
  from read_mem_split(1) [OF this] show ?thesis using assms(2) len by simp
qed

subsection \<open>Cutting a list into pieces\<close>

function chunks :: "nat \<Rightarrow> 'a list \<Rightarrow> 'a list list" where
  "chunks n xs = (if n = 0 \<or> xs = [] then [] else take n xs # chunks n (drop n xs))"
  by auto
termination
  by (relation "measure (\<lambda>(n, xs). length xs)") auto

declare chunks.simps [simp del]

lemma chunks_Nil [simp]: "chunks n [] = []"
  by (simp add: chunks.simps)

lemma concat_chunks: "0 < n \<Longrightarrow> concat (chunks n xs) = xs"
proof (induction n xs rule: chunks.induct)
  case (1 n xs)
  then show ?case by (cases "xs = []") (simp_all add: chunks.simps [of n xs])
qed

lemma chunks_take_Suc:
  "0 < n \<Longrightarrow> chunks n (take (Suc j * n) xs) =
     chunks n (take (j * n) xs) @ (if j * n < length xs then [take n (drop (j * n) xs)] else [])"
proof (induction j arbitrary: xs)
  case 0
  then show ?case by (simp add: chunks.simps [of n "take n xs"])
next
  case (Suc j)
  show ?case
  proof (cases "xs = []")
    case False
    have d: "drop n (take (n + i * n) xs) = take (i * n) (drop n xs)" for i by (simp add: drop_take)
    have step: "chunks n (take (Suc i * n) xs) = take n xs # chunks n (take (i * n) (drop n xs))" for i
      using False Suc.prems by (subst chunks.simps) (simp add: d)
    show ?thesis unfolding step Suc.IH [OF Suc.prems] by (auto simp: add.commute)
  qed simp
qed

lemma chunks_length: "d \<in> set (chunks n xs) \<Longrightarrow> 0 < length d \<and> length d \<le> n"
proof (induction n xs rule: chunks.induct)
  case (1 n xs)
  then show ?case by (cases "n = 0 \<or> xs = []") (auto simp: chunks.simps [of n xs])
qed

subsection \<open>Clipping a length\<close>

text \<open>
  \<open>x < MAX ? (x & (MAX - 1)) : MAX\<close> with \<open>MAX\<close> a power of two: the mask is the identity
  under the guard, so the expression is a minimum.
\<close>

lemma unat_and_mask: "unat ((x :: 'a::len word) AND mask n) = unat x mod 2 ^ n"
proof -
  have "unat (x AND mask n) = take_bit n (unat x)"
    by (simp only: take_bit_eq_mask [symmetric] unsigned_take_bit_eq)
  then show ?thesis by (simp only: take_bit_eq_mod)
qed

lemma and_mask_id: "unat (x :: 'a::len word) < 2 ^ n \<Longrightarrow> x AND mask n = x"
  by (simp add: word_unat_eq_iff unat_and_mask)

text \<open>A non-negative C \<open>int\<close> is its unsigned reading.\<close>

lemma sint_nonneg: "0 \<le> sint (x :: s32) \<Longrightarrow> sint x = int (unat x)"
proof -
  assume "0 \<le> sint x"
  then have top: "\<not> bit x 31" by (simp add: sint_uint bit_unsigned_iff)
  have "n < 31" if "bit x n" for n
  proof -
    have "n < 32" using bit_imp_le_length [OF that] by simp
    moreover have "n \<noteq> 31" using that top by auto
    ultimately show ?thesis by simp
  qed
  then have "take_bit 31 (uint x) = uint x"
    by (auto simp: bit_eq_iff bit_take_bit_iff bit_unsigned_iff)
  with top show ?thesis
    by (simp add: sint_uint signed_take_bit_eq_if_positive bit_unsigned_iff)
qed

lemma sint_small: "unat (x :: s32) < 2 ^ 31 \<Longrightarrow> sint x = int (unat x)"
proof -
  assume "unat x < 2 ^ 31"
  then have "x AND mask 31 = x" by (rule and_mask_id)
  then have "\<not> bit x 31" by (metis bit_and_iff bit_mask_iff less_irrefl)
  then have "0 \<le> sint x" by (simp add: sint_uint bit_unsigned_iff)
  then show ?thesis by (rule sint_nonneg)
qed

subsection \<open>kern/common.h: roundup\<close>

definition roundup :: "nat \<Rightarrow> nat \<Rightarrow> nat" where
  "roundup x y = ((x + (y - 1)) div y) * y"

lemma roundup_ge: "0 < y \<Longrightarrow> x \<le> roundup x y"
proof -
  assume y: "0 < y"
  obtain z where z: "z = x + (y - 1)" by simp
  have "z mod y < y" using y by simp
  moreover have "z = z div y * y + z mod y" by simp
  ultimately have "x \<le> z div y * y" using y z by linarith
  then show ?thesis by (simp add: roundup_def z)
qed

lemma roundup_dvd: "y dvd roundup x y"
  by (simp add: roundup_def)

lemma roundup_less: "0 < y \<Longrightarrow> roundup x y < x + y"
proof -
  assume y: "0 < y"
  have "roundup x y \<le> x + (y - 1)" by (simp add: roundup_def)
  with y show ?thesis by simp
qed

subsection \<open>kern/bpf/bpf_endian.h: byte swapping\<close>

text \<open>
  The macro computes in \<open>int\<close> (a \<open>__u16\<close> operand is promoted) and the outer cast drops the
  bits above 16. A constant argument goes through the macro, any other through the compiler's
  \<open>__builtin_bswap16\<close>; \<open>bpf_swab16_builtin\<close> says the two agree.
\<close>

definition bpf_mvb16 :: "u16 \<Rightarrow> nat \<Rightarrow> nat \<Rightarrow> s32" where
  "bpf_mvb16 x n m =
     push_bit (m * 8) (signed_drop_bit (16 - 8) (push_bit (16 - (n + 1) * 8) (ucast x)))"

definition bpf_swab16 :: "u16 \<Rightarrow> u16" where
  "bpf_swab16 x = ucast (bpf_mvb16 x 0 1 OR bpf_mvb16 x 1 0)"

definition builtin_bswap16 :: "u16 \<Rightarrow> u16" where
  "builtin_bswap16 x = push_bit 8 x OR drop_bit 8 x"

definition bpf_ntohs :: "u16 \<Rightarrow> u16" where
  "bpf_ntohs x = builtin_bswap16 x"

lemma bpf_swab16_builtin: "bpf_swab16 x = builtin_bswap16 x"
  by (rule bit_word_eqI)
    (auto simp: bpf_swab16_def builtin_bswap16_def bpf_mvb16_def bit_simps)

lemma builtin_bswap16_invol: "builtin_bswap16 (builtin_bswap16 x) = x"
  by (rule bit_word_eqI) (auto simp: builtin_bswap16_def bit_simps)

lemma bit_u8_less: "bit (a :: u8) n \<Longrightarrow> n < 8"
  using bit_imp_le_length [of a n] by simp

lemma u8_halves_disjoint:
  fixes a b :: u8
  shows "(ucast a :: u16) AND push_bit 8 (ucast b) = 0" and "push_bit 8 (ucast a) AND (ucast b :: u32) = 0"
  by (rule bit_word_eqI, simp add: bit_simps, meson bit_u8_less leD)+

lemma le_word_bytes2: "(le_word [a, b] :: u16) = ucast a OR push_bit 8 (ucast b)"
proof -
  have "(le_word [a, b] :: u16) = ucast a + push_bit 8 (ucast b)"
    by (simp add: le_word_def push_bit_eq_mult)
  also have "\<dots> = ucast a OR push_bit 8 (ucast b)"
    by (rule disjunctive_add_eq_or [OF u8_halves_disjoint(1)])
  finally show ?thesis .
qed

text \<open>A field in network order, as the number its two bytes write.\<close>

definition be16 :: "bytes \<Rightarrow> nat" where
  "be16 bs = 256 * unat (bs ! 0) + unat (bs ! 1)"

lemma bpf_ntohs_be16: "ucast (bpf_ntohs (le_word [a, b])) = (of_nat (be16 [a, b]) :: u32)"
proof -
  have "bpf_ntohs (le_word [a, b]) = push_bit 8 (ucast a) OR ucast b"
    unfolding bpf_ntohs_def builtin_bswap16_def le_word_bytes2
    by (rule bit_word_eqI, simp add: bit_simps) (use bit_u8_less in fastforce)
  moreover have "ucast (push_bit 8 (ucast a) OR ucast b :: u16) = (push_bit 8 (ucast a) OR ucast b :: u32)"
    by (rule bit_word_eqI, simp add: bit_simps) (use bit_u8_less in fastforce)
  moreover have "(push_bit 8 (ucast a) OR ucast b :: u32) = push_bit 8 (ucast a) + ucast b"
    by (rule disjunctive_add_eq_or [OF u8_halves_disjoint(2), symmetric])
  ultimately show ?thesis by (simp add: be16_def push_bit_eq_mult)
qed

lemma list2: "length xs = 2 \<Longrightarrow> \<exists>a b. xs = [a, b]"
  by (cases xs; cases "tl xs") auto

lemma byte_pair_inj:
  assumes "(a :: nat) + 256 * b = c + 256 * d" and "a < 256" and "c < 256"
  shows "a = c \<and> b = d"
proof -
  have "a = (a + 256 * b) mod 256" using assms(2) by simp
  also have "\<dots> = c" using assms(1,3) by simp
  finally show ?thesis using assms(1) by simp
qed

lemma le_word_u16_inj: "length xs = 2 \<Longrightarrow> length ys = 2 \<Longrightarrow> (le_word xs :: u16) = le_word ys \<longleftrightarrow> xs = ys"
proof
  assume l: "length xs = 2" "length ys = 2" and e: "(le_word xs :: u16) = le_word ys"
  obtain a b where xs: "xs = [a, b]" using list2 [OF l(1)] by auto
  obtain c d where ys: "ys = [c, d]" using list2 [OF l(2)] by auto
  have u: "unat (le_word [p, q] :: u16) = unat p + 256 * unat q" for p q :: u8
  proof -
    have "unat p < 256" "unat q < 256" using unsigned_less [of p] unsigned_less [of q] by simp_all
    then show ?thesis by (simp add: unat_le_word)
  qed
  have "unat a + 256 * unat b = unat c + 256 * unat d" using e xs ys u by metis
  moreover have "unat a < 256" "unat c < 256" using unsigned_less [of a] unsigned_less [of c] by simp_all
  ultimately have "unat a = unat c" "unat b = unat d" by (auto dest: byte_pair_inj)
  then show "xs = ys" by (simp add: xs ys word_unat_eq_iff)
qed simp

lemma builtin_bswap16_eq_iff: "builtin_bswap16 x = builtin_bswap16 y \<longleftrightarrow> x = y"
  by (metis builtin_bswap16_invol)

end
