(* ===== verification/Bpf_Runtime.thy ===== *)
theory Bpf_Runtime
  imports Prelude "HOL-Library.AList"
begin

text \<open>
  The part of the BPF run-time system the programs under src/kern call, as
  src/kern/bpf/bpf_helper_defs.h documents it.

  \<^item> \<open>kernel\<close> is what the helpers answer during one run of a program: who runs it
    (\<open>bpf_get_current_pid_tgid\<close> and its kin), the clock, the CPU, the user and kernel memory
    that \<open>bpf_probe_read_user\<close> and \<open>bpf_probe_read_kernel\<close> read (and, as \<open>k_any\<close>, the memory the
    older \<open>bpf_probe_read\<close> reaches). It is an argument of every
    handler, so a theorem quantifies over every answer the kernel may give. Four fields stand
    for what the documentation leaves open: \<open>k_on_fault\<close>, what a failed read leaves in each
    byte of its destination (untouched, zeroed, anything); \<open>k_garbage\<close>, the contents of
    uninitialised stack variables; \<open>k_stack_addr\<close>, where the program's stack
    variables lie in kernel memory; \<open>k_victim\<close>, which entry a full LRU map evicts.
  \<^item> A map is an association list with distinct keys. An update of a full \<open>HASH\<close> map fails
    (\<open>-E2BIG\<close>) unless the key is present, an update of a full \<open>LRU_HASH\<close> map evicts an entry.
    The pointer that \<open>bpf_map_lookup_elem\<close> returns is the key it was looked up with, and a
    store through it is \<open>map_modify\<close>.
  \<^item> \<open>keyed_map\<close> and \<open>hash_like\<close> are the laws clients rely on, interpreted on both map types.
\<close>

record kernel =
  k_pid_tgid :: u64
  k_uid_gid :: u64
  k_cgroup_id :: u64
  k_ktime_ns :: u64
  k_comm :: bytes
  k_cpu :: nat
  k_user :: memory
  k_kern :: memory
  k_any :: memory
  k_on_fault :: "u8 \<Rightarrow> u8"
  k_garbage :: "string \<Rightarrow> nat \<Rightarrow> u8"
  k_stack_addr :: "string \<Rightarrow> u64"
  k_victim :: nat

definition EFAULT :: int where
  "EFAULT = 14"

definition E2BIG :: int where
  "E2BIG = 7"

subsection \<open>Probe reads\<close>

definition probe_read :: "memory \<Rightarrow> kernel \<Rightarrow> bytes \<Rightarrow> u64 \<Rightarrow> int \<times> bytes" where
  "probe_read m k dst a =
     (case read_mem m (length dst) a of
        Some bs \<Rightarrow> (0, bs)
      | None \<Rightarrow> (- EFAULT, map (k_on_fault k) dst))"

definition probe_read_user :: "kernel \<Rightarrow> bytes \<Rightarrow> u64 \<Rightarrow> int \<times> bytes" where
  "probe_read_user k = probe_read (k_user k) k"

definition probe_read_kernel :: "kernel \<Rightarrow> bytes \<Rightarrow> u64 \<Rightarrow> int \<times> bytes" where
  "probe_read_kernel k = probe_read (k_kern k) k"

definition probe_read_any :: "kernel \<Rightarrow> bytes \<Rightarrow> u64 \<Rightarrow> int \<times> bytes" where
  "probe_read_any k = probe_read (k_any k) k"

text \<open>A read of \<open>n\<close> bytes into the front of a larger buffer.\<close>

definition probe_read_user_n :: "kernel \<Rightarrow> nat \<Rightarrow> bytes \<Rightarrow> u64 \<Rightarrow> int \<times> bytes" where
  "probe_read_user_n k n dst a =
     (let (r, bs) = probe_read_user k (take n dst) a in (r, bs @ drop n dst))"

text \<open>A read into an integer variable, whose old value is \<open>old\<close>.\<close>

definition probe_user_word :: "kernel \<Rightarrow> 'a::len word \<Rightarrow> u64 \<Rightarrow> int \<times> 'a word" where
  "probe_user_word k old a =
     (let (r, bs) = probe_read_user k (le_enc (LENGTH('a) div 8) old) a in (r, le_word bs))"

definition probe_kernel_word :: "kernel \<Rightarrow> 'a::len word \<Rightarrow> u64 \<Rightarrow> int \<times> 'a word" where
  "probe_kernel_word k old a =
     (let (r, bs) = probe_read_kernel k (le_enc (LENGTH('a) div 8) old) a in (r, le_word bs))"

definition probe_any_word :: "kernel \<Rightarrow> 'a::len word \<Rightarrow> u64 \<Rightarrow> int \<times> 'a word" where
  "probe_any_word k old a =
     (let (r, bs) = probe_read_any k (le_enc (LENGTH('a) div 8) old) a in (r, le_word bs))"

definition uninit_bytes :: "kernel \<Rightarrow> string \<Rightarrow> nat \<Rightarrow> bytes" where
  "uninit_bytes k x n = map (k_garbage k x) [0..<n]"

definition uninit_word :: "kernel \<Rightarrow> string \<Rightarrow> 'a::len word" where
  "uninit_word k x = le_word (uninit_bytes k x (LENGTH('a) div 8))"

lemma probe_read_length: "probe_read m k dst a = (r, bs) \<Longrightarrow> length bs = length dst"
  by (auto simp: probe_read_def dest: length_read_mem split: option.splits)

lemma probe_read_user_length [simp]: "length (snd (probe_read_user k dst a)) = length dst"
  by (metis prod.collapse probe_read_length probe_read_user_def)

lemma probe_read_user_n_length [simp]: "length (snd (probe_read_user_n k n dst a)) = length dst"
  by (simp add: probe_read_user_n_def case_prod_beta)

lemma probe_read_user_ok:
  "read_mem (k_user k) (length dst) a = Some bs \<Longrightarrow> probe_read_user k dst a = (0, bs)"
  by (simp add: probe_read_user_def probe_read_def)

lemma probe_read_user_fail:
  "read_mem (k_user k) (length dst) a = None \<Longrightarrow>
   probe_read_user k dst a = (- EFAULT, map (k_on_fault k) dst)"
  by (simp add: probe_read_user_def probe_read_def)

lemma probe_read_user_ret:
  "fst (probe_read_user k dst a) = 0 \<longleftrightarrow> read_mem (k_user k) (length dst) a \<noteq> None"
  by (simp add: probe_read_user_def probe_read_def EFAULT_def split: option.splits)

lemma probe_user_word_ok:
  "read_mem (k_user k) (LENGTH('a::len) div 8) a = Some bs \<Longrightarrow>
   probe_user_word k (old :: 'a word) a = (0, le_word bs)"
  by (simp add: probe_user_word_def probe_read_user_ok)

lemma probe_user_word_fail:
  "read_mem (k_user k) (LENGTH('a::len) div 8) a = None \<Longrightarrow>
   \<exists>v. probe_user_word k (old :: 'a word) a = (- EFAULT, v)"
  by (simp add: probe_user_word_def probe_read_user_fail)

lemma probe_user_word_ret:
  "fst (probe_user_word k (old :: 'a::len word) a) = 0 \<longleftrightarrow>
   read_mem (k_user k) (LENGTH('a) div 8) a \<noteq> None"
  by (simp add: probe_user_word_def case_prod_beta probe_read_user_ret)

lemma probe_read_user_n_ok:
  assumes "read_mem (k_user k) n a = Some bs" and "n \<le> length dst"
  shows "probe_read_user_n k n dst a = (0, bs @ drop n dst)"
  using assms by (simp add: probe_read_user_n_def probe_read_user_ok)

lemma probe_kernel_word_ok:
  "read_mem (k_kern k) (LENGTH('a::len) div 8) a = Some bs \<Longrightarrow>
   probe_kernel_word k (old :: 'a word) a = (0, le_word bs)"
  by (simp add: probe_kernel_word_def probe_read_kernel_def probe_read_def)

lemma probe_any_word_ok:
  "read_mem (k_any k) (LENGTH('a::len) div 8) a = Some bs \<Longrightarrow>
   probe_any_word k (old :: 'a word) a = (0, le_word bs)"
  by (simp add: probe_any_word_def probe_read_any_def probe_read_def)

subsection \<open>The running task\<close>

definition cur_pid :: "kernel \<Rightarrow> u32" where
  "cur_pid k = ucast (drop_bit 32 (k_pid_tgid k))"

definition cur_tid :: "kernel \<Rightarrow> u32" where
  "cur_tid k = ucast (k_pid_tgid k)"

definition cur_uid :: "kernel \<Rightarrow> u32" where
  "cur_uid k = ucast (k_uid_gid k)"

lemma pid_tgid_split: "k_pid_tgid k = push_bit 32 (ucast (cur_pid k)) OR ucast (cur_tid k)"
  by (rule bit_word_eqI) (auto simp: cur_pid_def cur_tid_def bit_simps)

subsection \<open>Maps\<close>

type_synonym ('k, 'v) bmap = "('k \<times> 'v) list"

definition map_lookup :: "('k, 'v) bmap \<Rightarrow> 'k \<Rightarrow> 'v option" where
  "map_lookup m x = map_of m x"

definition map_delete :: "'k \<Rightarrow> ('k, 'v) bmap \<Rightarrow> ('k, 'v) bmap" where
  "map_delete x m = filter (\<lambda>p. fst p \<noteq> x) m"

definition map_modify :: "'k \<Rightarrow> ('v \<Rightarrow> 'v) \<Rightarrow> ('k, 'v) bmap \<Rightarrow> ('k, 'v) bmap" where
  "map_modify x f m = map (\<lambda>(y, v). (y, if y = x then f v else v)) m"

definition map_room :: "nat \<Rightarrow> 'k \<Rightarrow> ('k, 'v) bmap \<Rightarrow> bool" where
  "map_room n x m \<longleftrightarrow> x \<in> fst ` set m \<or> length m < n"

definition hash_update :: "nat \<Rightarrow> 'k \<Rightarrow> 'v \<Rightarrow> ('k, 'v) bmap \<Rightarrow> int \<times> ('k, 'v) bmap" where
  "hash_update n x v m =
     (if map_room n x m then (0, AList.update x v m) else (- E2BIG, m))"

definition lru_evict :: "nat \<Rightarrow> ('k, 'v) bmap \<Rightarrow> ('k, 'v) bmap" where
  "lru_evict i m = (let j = i mod length m in take j m @ drop (Suc j) m)"

definition lru_update :: "nat \<Rightarrow> nat \<Rightarrow> 'k \<Rightarrow> 'v \<Rightarrow> ('k, 'v) bmap \<Rightarrow> ('k, 'v) bmap" where
  "lru_update n i x v m =
     (if map_room n x m then AList.update x v m else AList.update x v (lru_evict i m))"

definition map_wf :: "nat \<Rightarrow> ('k, 'v) bmap \<Rightarrow> bool" where
  "map_wf n m \<longleftrightarrow> distinct (map fst m) \<and> length m \<le> n"

text \<open>An \<open>ARRAY\<close> map of one entry, and its per-CPU form: the lookup of index 0 never fails.\<close>

definition array1_lookup :: "u32 \<Rightarrow> 'v \<Rightarrow> 'v option" where
  "array1_lookup i v = (if i < 1 then Some v else None)"

lemma array1_lookup_0 [simp]: "array1_lookup 0 v = Some v"
  by (simp add: array1_lookup_def)

lemma map_wf_Nil [simp]: "map_wf n []"
  by (simp add: map_wf_def)

lemma map_wf_distinct: "map_wf n m \<Longrightarrow> distinct (map fst m)"
  by (simp add: map_wf_def)

lemma map_lookup_Nil [simp]: "map_lookup [] x = None"
  by (simp add: map_lookup_def)

lemma map_lookup_room: "map_lookup m x \<noteq> None \<Longrightarrow> map_room n x m"
  by (auto simp: map_lookup_def map_room_def dest: map_of_SomeD intro: rev_image_eqI)

lemma map_lookup_alist_update [simp]:
  "map_lookup (AList.update x v m) y = (if y = x then Some v else map_lookup m y)"
  by (simp add: map_lookup_def update_conv')

lemma map_lookup_hash_update:
  "map_lookup (snd (hash_update n x v m)) y =
     (if map_room n x m \<and> y = x then Some v else map_lookup m y)"
  by (simp add: hash_update_def)

lemma map_lookup_delete [simp]:
  "map_lookup (map_delete x m) y = (if y = x then None else map_lookup m y)"
  by (induction m) (auto simp: map_lookup_def map_delete_def)

lemma map_lookup_modify [simp]:
  "map_lookup (map_modify x f m) y =
     (if y = x then map_option f (map_lookup m y) else map_lookup m y)"
  by (induction m) (auto simp: map_lookup_def map_modify_def)

lemma keys_map_modify [simp]: "map fst (map_modify x f m) = map fst m"
  by (induction m) (auto simp: map_modify_def)

lemma length_map_modify [simp]: "length (map_modify x f m) = length m"
  by (simp add: map_modify_def)

lemma map_wf_modify [simp]: "map_wf n (map_modify x f m) = map_wf n m"
  by (simp add: map_wf_def)

lemma length_alist_update:
  "length (AList.update x v m) = (if x \<in> fst ` set m then length m else Suc (length m))"
  by (induction m) auto

lemma map_wf_hash_update [simp]: "map_wf n m \<Longrightarrow> map_wf n (snd (hash_update n x v m))"
  by (auto simp: map_wf_def hash_update_def map_room_def length_alist_update distinct_update)

lemma map_wf_delete [simp]: "map_wf n m \<Longrightarrow> map_wf n (map_delete x m)"
  by (auto simp: map_wf_def map_delete_def distinct_map_filter intro: le_trans [OF length_filter_le])

lemma lru_evict_subset: "set (lru_evict i m) \<subseteq> set m"
  by (auto simp: lru_evict_def Let_def dest: in_set_takeD in_set_dropD)

lemma distinct_lru_evict: "distinct (map fst m) \<Longrightarrow> distinct (map fst (lru_evict i m))"
proof -
  assume d: "distinct (map fst m)"
  define j where "j = i mod length m"
  have "distinct (map fst (take j m @ drop (Suc j) m))"
    using d set_take_disj_set_drop_if_distinct [OF d, of j "Suc j"]
    by (simp add: take_map [symmetric] drop_map [symmetric])
  then show ?thesis by (simp add: lru_evict_def j_def Let_def)
qed

lemma length_lru_evict: "m \<noteq> [] \<Longrightarrow> Suc (length (lru_evict i m)) = length m"
proof -
  assume "m \<noteq> []"
  then have "i mod length m < length m" by simp
  then show ?thesis by (auto simp: lru_evict_def Let_def)
qed

lemma map_lookup_lru_evict:
  assumes "distinct (map fst m)"
  shows "map_lookup (lru_evict i m) y = None \<or> map_lookup (lru_evict i m) y = map_lookup m y"
proof (cases "map_lookup (lru_evict i m) y")
  case (Some v)
  then have "(y, v) \<in> set m"
    using lru_evict_subset [of i m] by (auto simp: map_lookup_def dest: map_of_SomeD)
  with assms Some show ?thesis by (simp add: map_lookup_def)
qed simp

lemma map_lookup_lru_update_same [simp]: "map_lookup (lru_update n i x v m) x = Some v"
  by (simp add: lru_update_def)

lemma map_lookup_lru_update_other:
  assumes "distinct (map fst m)" and "y \<noteq> x"
  shows "map_lookup (lru_update n i x v m) y = None \<or>
         map_lookup (lru_update n i x v m) y = map_lookup m y"
  using assms map_lookup_lru_evict [OF assms(1), of i y] by (simp add: lru_update_def)

lemma map_wf_lru_update [simp]:
  assumes "map_wf n m" and "0 < n"
  shows "map_wf n (lru_update n i x v m)"
proof (cases "map_room n x m")
  case True
  with assms show ?thesis
    by (auto simp: map_wf_def lru_update_def map_room_def length_alist_update distinct_update)
next
  case False
  then have "x \<notin> fst ` set m" and "\<not> length m < n" by (auto simp: map_room_def)
  then have "m \<noteq> []" using assms(2) by auto
  then show ?thesis
    using assms False length_lru_evict [of m i] distinct_lru_evict [of m i]
    by (auto simp: map_wf_def lru_update_def length_alist_update distinct_update)
qed

subsection \<open>The map contract\<close>

text \<open>
  \<open>keyed_map\<close> is what holds of both map types: an update that finds room is visible, it never
  gives another key a new value, a deletion removes exactly its key. \<open>hash_like\<close> adds what
  only \<open>HASH\<close> maps promise: no other entry is lost.
\<close>

locale keyed_map =
  fixes lookup :: "'m \<Rightarrow> 'k \<Rightarrow> 'v option"
    and update :: "'k \<Rightarrow> 'v \<Rightarrow> 'm \<Rightarrow> 'm"
    and delete :: "'k \<Rightarrow> 'm \<Rightarrow> 'm"
    and room :: "'k \<Rightarrow> 'm \<Rightarrow> bool"
    and invar :: "'m \<Rightarrow> bool"
  assumes lookup_update: "invar m \<Longrightarrow> room x m \<Longrightarrow> lookup (update x v m) x = Some v"
    and update_other: "invar m \<Longrightarrow> y \<noteq> x \<Longrightarrow>
      lookup (update x v m) y = None \<or> lookup (update x v m) y = lookup m y"
    and lookup_delete: "invar m \<Longrightarrow> lookup (delete x m) y = (if y = x then None else lookup m y)"
    and invar_update: "invar m \<Longrightarrow> invar (update x v m)"
    and invar_delete: "invar m \<Longrightarrow> invar (delete x m)"
begin

lemma update_delete_clean: "invar m \<Longrightarrow> lookup (delete x (update x v m)) x = None"
  by (simp add: lookup_delete invar_update)

lemma lookup_source:
  "invar m \<Longrightarrow> lookup (update x v m) y = Some w \<Longrightarrow>
   y \<noteq> x \<Longrightarrow> lookup m y = Some w"
  using update_other [of m y x v] by auto

end

locale hash_like = keyed_map +
  assumes update_keeps: "invar m \<Longrightarrow> y \<noteq> x \<Longrightarrow> lookup (update x v m) y = lookup m y"
    and update_full: "invar m \<Longrightarrow> \<not> room x m \<Longrightarrow> update x v m = m"
begin

lemma lookup_update_room:
  "invar m \<Longrightarrow> room x m \<Longrightarrow> lookup (update x v m) = (lookup m)(x \<mapsto> v)"
  by (auto simp: lookup_update update_keeps)

lemma delete_update_restores:
  "invar m \<Longrightarrow> lookup m x = None \<Longrightarrow> lookup (delete x (update x v m)) = lookup m"
  by (rule ext) (auto simp: lookup_delete invar_update update_keeps)

end

interpretation hash_map: hash_like map_lookup "\<lambda>x v m. snd (hash_update n x v m)" map_delete
    "map_room n" "map_wf n" for n
  by unfold_locales (auto simp: map_lookup_hash_update, simp add: hash_update_def)

interpretation lru_map: keyed_map map_lookup "lru_update (Suc n) i" map_delete
    "\<lambda>x m. True" "map_wf (Suc n)" for n i
  by unfold_locales (simp_all add: map_lookup_lru_update_other map_wf_distinct)

subsection \<open>Interleaving: other tasks between two hooks of one task\<close>

text \<open>
  \<open>others step key p s t\<close>: the object's programs run any number of times from \<open>s\<close> to \<open>t\<close>, on any
  CPU, never for the task \<open>p\<close>. \<open>task_isolated\<close> is the contract of an object whose per-task state
  (\<open>view\<close>) only the task itself changes; a two-hook protocol is proved once from it.
\<close>

inductive others :: "('e \<Rightarrow> 's \<Rightarrow> 's \<Rightarrow> bool) \<Rightarrow> ('e \<Rightarrow> 'k) \<Rightarrow> 'k \<Rightarrow> 's \<Rightarrow> 's \<Rightarrow> bool"
  for step key p where
  others_none: "others step key p s s"
| others_more: "others step key p s t \<Longrightarrow> step k t u \<Longrightarrow> key k \<noteq> p \<Longrightarrow> others step key p s u"

lemma others_single: "step k s t \<Longrightarrow> key k \<noteq> p \<Longrightarrow> others step key p s t"
  by (rule others.others_more [OF others.others_none])

locale task_isolated =
  fixes step :: "'e \<Rightarrow> 's \<Rightarrow> 's \<Rightarrow> bool"
    and key :: "'e \<Rightarrow> 'k"
    and view :: "'s \<Rightarrow> 'k \<Rightarrow> 'v"
  assumes step_other: "step k s t \<Longrightarrow> key k \<noteq> p \<Longrightarrow> view t p = view s p"
begin

lemma others_keep: "others step key p s t \<Longrightarrow> view t p = view s p"
  by (induction rule: others.induct) (auto dest: step_other)

lemma others_trans: "others step key p t u \<Longrightarrow> others step key p s t \<Longrightarrow> others step key p s u"
  by (induction rule: others.induct) (auto intro: others.intros)

end

text \<open>
  \<open>task_lossy\<close> is the weaker contract of state kept in \<open>LRU_HASH\<close> maps: runs for other tasks may
  lose a task's entry, but never change it.
\<close>

locale task_lossy =
  fixes step :: "'e \<Rightarrow> 's \<Rightarrow> 's \<Rightarrow> bool"
    and key :: "'e \<Rightarrow> 'k"
    and view :: "'s \<Rightarrow> 'k \<Rightarrow> 'v option"
    and invar :: "'s \<Rightarrow> bool"
  assumes step_invar: "step k s t \<Longrightarrow> invar s \<Longrightarrow> invar t"
    and step_lossy: "step k s t \<Longrightarrow> invar s \<Longrightarrow> key k \<noteq> p \<Longrightarrow> view t p = None \<or> view t p = view s p"
begin

lemma others_invar: "others step key p s t \<Longrightarrow> invar s \<Longrightarrow> invar t"
  by (induction rule: others.induct) (auto intro: step_invar)

lemma others_lossy: "others step key p s t \<Longrightarrow> invar s \<Longrightarrow> view t p = None \<or> view t p = view s p"
proof (induction rule: others.induct)
  case (others_more s t k u)
  have "view u p = None \<or> view u p = view t p"
    using others_more.hyps(2,3) others_invar [OF others_more.hyps(1) others_more.prems] by (intro step_lossy)
  then show ?case using others_more.IH [OF others_more.prems] by auto
qed simp

end

end
