(* ===== verification/Bpf_Regs.thy ===== *)
theory Bpf_Regs
  imports Bpf_Runtime
begin

text \<open>
  The saved registers a probe reads its arguments from: \<open>PT_REGS_PARM1\<close> to \<open>PT_REGS_PARM4\<close>,
  \<open>PT_REGS_RC\<close> and \<open>PT_REGS_SP\<close> of kern/bpf/bpf_tracing.h on the two architectures the build
  targets, and the Go calling conventions of kern/go_argument.h. With and without CO-RE the macros read the same
  registers.
\<close>

record x86_regs =
  x_ax :: u64
  x_bx :: u64
  x_cx :: u64
  x_dx :: u64
  x_si :: u64
  x_di :: u64
  x_r8 :: u64
  x_r9 :: u64
  x_r10 :: u64
  x_sp :: u64

record arm64_regs =
  a_regs :: "nat \<Rightarrow> u64"
  a_sp :: u64

datatype pt_regs = X86 x86_regs | Arm64 arm64_regs

fun PT_REGS_PARM1 :: "pt_regs \<Rightarrow> u64" where
  "PT_REGS_PARM1 (X86 r) = x_di r"
| "PT_REGS_PARM1 (Arm64 r) = a_regs r 0"

fun PT_REGS_PARM2 :: "pt_regs \<Rightarrow> u64" where
  "PT_REGS_PARM2 (X86 r) = x_si r"
| "PT_REGS_PARM2 (Arm64 r) = a_regs r 1"

fun PT_REGS_PARM3 :: "pt_regs \<Rightarrow> u64" where
  "PT_REGS_PARM3 (X86 r) = x_dx r"
| "PT_REGS_PARM3 (Arm64 r) = a_regs r 2"

fun PT_REGS_PARM4 :: "pt_regs \<Rightarrow> u64" where
  "PT_REGS_PARM4 (X86 r) = x_cx r"
| "PT_REGS_PARM4 (Arm64 r) = a_regs r 3"

fun PT_REGS_RC :: "pt_regs \<Rightarrow> u64" where
  "PT_REGS_RC (X86 r) = x_ax r"
| "PT_REGS_RC (Arm64 r) = a_regs r 0"

fun PT_REGS_SP :: "pt_regs \<Rightarrow> u64" where
  "PT_REGS_SP (X86 r) = x_sp r"
| "PT_REGS_SP (Arm64 r) = a_sp r"

subsection \<open>kern/go_argument.h\<close>

text \<open>
  \<open>GO_PARAM1\<close> to \<open>GO_PARAM8\<close>: Go's register ABI on x86-64 hands integer arguments over in
  AX, BX, CX, DI, SI, R8, R9, R10; on arm64 in the first eight general registers.
\<close>

fun GO_PARAM :: "nat \<Rightarrow> pt_regs \<Rightarrow> u64" where
  "GO_PARAM n (X86 r) =
     (if n = 1 then x_ax r else if n = 2 then x_bx r else if n = 3 then x_cx r
      else if n = 4 then x_di r else if n = 5 then x_si r else if n = 6 then x_r8 r
      else if n = 7 then x_r9 r else x_r10 r)"
| "GO_PARAM n (Arm64 r) = a_regs r (n - 1)"

definition go_get_argument_by_reg :: "pt_regs \<Rightarrow> nat \<Rightarrow> u64" where
  "go_get_argument_by_reg ctx index =
     (if 1 \<le> index \<and> index \<le> 8 then GO_PARAM index ctx else 0)"

definition go_get_argument_by_stack :: "kernel \<Rightarrow> pt_regs \<Rightarrow> nat \<Rightarrow> u64" where
  "go_get_argument_by_stack k ctx index =
     snd (probe_any_word k 0 (PT_REGS_SP ctx + of_nat (index * 8)))"

definition go_get_argument :: "kernel \<Rightarrow> pt_regs \<Rightarrow> bool \<Rightarrow> nat \<Rightarrow> u64" where
  "go_get_argument k ctx is_register_abi index =
     (if is_register_abi then go_get_argument_by_reg ctx index
      else go_get_argument_by_stack k ctx index)"

lemma go_get_argument_stack_ok:
  assumes "read_mem (k_any k) 8 (PT_REGS_SP ctx + of_nat (i * 8)) = Some (le_enc 8 v)"
  shows "go_get_argument k ctx False i = v"
  using assms
  by (simp add: go_get_argument_def go_get_argument_by_stack_def probe_any_word_ok)

lemma go_get_argument_reg_out_of_range: "8 < i \<Longrightarrow> go_get_argument k ctx True i = 0"
  by (simp add: go_get_argument_def go_get_argument_by_reg_def)

subsection \<open>Sample environments\<close>

text \<open>
  A concrete task and register file the witnesses of the development start from: process 100,
  thread 101, user 1000, cgroup 7, with nothing mapped.
\<close>

definition kernel0 :: kernel where
  "kernel0 = \<lparr>k_pid_tgid = push_bit 32 100 OR 101, k_uid_gid = 1000, k_cgroup_id = 7,
     k_ktime_ns = 55, k_comm = replicate 16 0, k_cpu = 0, k_user = (\<lambda>_. None), k_kern = (\<lambda>_. None),
     k_any = (\<lambda>_. None), k_on_fault = (\<lambda>_. 0), k_garbage = (\<lambda>_ _. 0),
     k_stack_addr = (\<lambda>_. 4096), k_victim = 0\<rparr>"

definition regs0 :: x86_regs where
  "regs0 = \<lparr>x_ax = 0, x_bx = 0, x_cx = 0, x_dx = 0, x_si = 0, x_di = 0, x_r8 = 0, x_r9 = 0,
     x_r10 = 0, x_sp = 0\<rparr>"

lemma kernel0_sel [simp]:
  "k_uid_gid kernel0 = 1000" "k_cgroup_id kernel0 = 7" "k_ktime_ns kernel0 = 55"
  "k_comm kernel0 = replicate 16 0" "k_cpu kernel0 = 0" "k_user kernel0 = (\<lambda>_. None)"
  "k_kern kernel0 = (\<lambda>_. None)" "k_any kernel0 = (\<lambda>_. None)" "k_on_fault kernel0 = (\<lambda>_. 0)"
  "k_garbage kernel0 = (\<lambda>_ _. 0)" "k_victim kernel0 = 0" "k_pid_tgid kernel0 = 429496729701"
  by (simp_all add: kernel0_def)

lemma kernel0_task [simp]: "cur_pid kernel0 = 100" "cur_tid kernel0 = 101" "cur_uid kernel0 = 1000"
  by (simp_all add: cur_pid_def cur_tid_def cur_uid_def)

end
