(* ===== verification/Ecapture_Filter.thy ===== *)
theory Ecapture_Filter
  imports Bpf_Regs
begin

text \<open>
  kern/common.h and kern/ecapture.h: the constants user space writes into the read-only data
  of an object before it is loaded, and the process filter every probe starts with.
\<close>

definition TASK_COMM_LEN :: nat where
  "TASK_COMM_LEN = 16"

definition BASH_ERRNO_DEFAULT :: u64 where
  "BASH_ERRNO_DEFAULT = 128"

record rodata =
  less52 :: u64
  target_pid :: u64
  target_uid :: u64
  target_errno :: u64
  target_cgroup_id :: u64

text \<open>The initial values the object carries.\<close>

definition rodata_default :: rodata where
  "rodata_default = \<lparr>less52 = 1, target_pid = 0, target_uid = 0,
     target_errno = BASH_ERRNO_DEFAULT, target_cgroup_id = 0\<rparr>"

definition filter_rejects_base :: "rodata \<Rightarrow> u32 \<Rightarrow> u32 \<Rightarrow> bool" where
  "filter_rejects_base c pid uid =
     (if less52 c = 1 then False
      else if target_pid c \<noteq> 0 \<and> target_pid c \<noteq> ucast pid then True
      else if target_uid c \<noteq> 0 \<and> target_uid c \<noteq> ucast uid then True
      else False)"

definition filter_rejects :: "rodata \<Rightarrow> kernel \<Rightarrow> u32 \<Rightarrow> u32 \<Rightarrow> bool" where
  "filter_rejects c k pid uid =
     (if filter_rejects_base c pid uid then True
      else if target_cgroup_id c \<noteq> 0
           then (let cgroup_id = k_cgroup_id k in cgroup_id \<noteq> target_cgroup_id c)
           else False)"

definition passes_filter :: "rodata \<Rightarrow> kernel \<Rightarrow> pt_regs option \<Rightarrow> bool" where
  "passes_filter c k ctx =
     (if less52 c = 1 then True
      else if ctx = None then True
      else (let pid = ucast (drop_bit 32 (k_pid_tgid k)); uid = ucast (k_uid_gid k)
            in if filter_rejects c k pid uid then False else True))"

subsection \<open>What the filter decides\<close>

text \<open>The abstract filter: a task is wanted when it matches every target that is set.\<close>

definition wants :: "rodata \<Rightarrow> u32 \<Rightarrow> u32 \<Rightarrow> u64 \<Rightarrow> bool" where
  "wants c pid uid cgroup \<longleftrightarrow>
     less52 c = 1 \<or>
     (target_pid c = 0 \<or> target_pid c = ucast pid) \<and>
     (target_uid c = 0 \<or> target_uid c = ucast uid) \<and>
     (target_cgroup_id c = 0 \<or> target_cgroup_id c = cgroup)"

lemma passes_filter_wants:
  "passes_filter c k (Some ctx) \<longleftrightarrow> wants c (cur_pid k) (cur_uid k) (k_cgroup_id k)"
  by (auto simp: passes_filter_def filter_rejects_def filter_rejects_base_def wants_def
      cur_pid_def cur_uid_def Let_def)

text \<open>What an event that carries only a process id can show of it.\<close>

definition pid_wanted :: "rodata \<Rightarrow> u32 \<Rightarrow> bool" where
  "pid_wanted c pid \<longleftrightarrow> less52 c = 1 \<or> target_pid c = 0 \<or> target_pid c = ucast pid"

lemma wants_pid: "wants c pid uid cgroup \<Longrightarrow> pid_wanted c pid"
  by (auto simp: wants_def pid_wanted_def)

lemma passes_filter_pid: "passes_filter c k (Some ctx) \<Longrightarrow> pid_wanted c (cur_pid k)"
  by (simp add: passes_filter_wants wants_pid)

lemma filter_rejects_base_wants:
  "filter_rejects_base c pid uid \<or>
     (target_cgroup_id c \<noteq> 0 \<and> cg \<noteq> target_cgroup_id c \<and> less52 c \<noteq> 1) \<longleftrightarrow>
   \<not> wants c pid uid cg"
  by (auto simp: filter_rejects_base_def wants_def)

lemma ucast_u64_u32 [simp]: "(ucast (ucast (p :: u32) :: u64) :: u32) = p"
  by (rule bit_word_eqI) (auto simp: bit_simps)

lemma ucast_u32_u64_inject: "(ucast (p :: u32) :: u64) = ucast q \<longleftrightarrow> p = q"
  by (metis ucast_u64_u32)

lemma ucast_u64_u32_small: "(n :: u64) < 2 ^ 32 \<Longrightarrow> (ucast (ucast n :: u32) :: u64) = n"
proof -
  assume "n < 2 ^ 32"
  then have "unat n < 2 ^ 32" by (simp add: word_less_nat_alt)
  then have "n AND mask 32 = n" by (rule and_mask_id)
  moreover have "ucast (ucast n :: u32) = n AND mask 32"
    by (rule bit_word_eqI) (auto simp: bit_simps)
  ultimately show ?thesis by simp
qed

end
