(* ===== verification/Bash_Probe.thy ===== *)
theory Bash_Probe
  imports Ecapture_Filter
begin

text \<open>
  kern/bash_kern.c: the bash probe. \<open>uretprobe_bash_readline\<close> records the line a shell has
  read under its process id and reports it, \<open>uretprobe_bash_retval\<close> joins the recorded line
  with the command's exit status and reports the pair, \<open>send_bash_exit_event\<close> reports
  \<open>exit\<close> and \<open>exec\<close>. The user-space consumer of these events, \<open>handleEvent\<close> of
  internal/probe/bash/bash_probe.go, is modelled at the end.
\<close>

definition MAX_DATA_SIZE_BASH :: nat where
  "MAX_DATA_SIZE_BASH = 256"

definition BASH_EVENT_TYPE_READLINE :: u32 where
  "BASH_EVENT_TYPE_READLINE = 0"

definition BASH_EVENT_TYPE_RETVAL :: u32 where
  "BASH_EVENT_TYPE_RETVAL = 1"

definition BASH_EVENT_TYPE_EXIT_OR_EXEC :: u32 where
  "BASH_EVENT_TYPE_EXIT_OR_EXEC = 2"

lemmas bash_consts = MAX_DATA_SIZE_BASH_def BASH_EVENT_TYPE_READLINE_def
  BASH_EVENT_TYPE_RETVAL_def BASH_EVENT_TYPE_EXIT_OR_EXEC_def BASH_ERRNO_DEFAULT_def

record bash_event =
  be_type :: u32
  be_pid :: u32
  be_uid :: u32
  be_line :: bytes
  be_retval :: u32
  be_comm :: bytes

definition bash_event_zero :: bash_event where
  "bash_event_zero = \<lparr>be_type = 0, be_pid = 0, be_uid = 0,
     be_line = replicate MAX_DATA_SIZE_BASH 0, be_retval = 0,
     be_comm = replicate TASK_COMM_LEN 0\<rparr>"

text \<open>The two maps of the object: \<open>events_t\<close> (HASH, 1024 entries) and the perf buffer \<open>events\<close>.\<close>

record bash_state =
  events_t :: "(u32, bash_event) bmap"
  bash_events :: "bash_event list"

definition events_t_max :: nat where
  "events_t_max = 1024"

definition bash_init :: bash_state where
  "bash_init = \<lparr>events_t = [], bash_events = []\<rparr>"

definition bash_output :: "bash_event \<Rightarrow> bash_state \<Rightarrow> bash_state" where
  "bash_output e s = s\<lparr>bash_events := bash_events s @ [e]\<rparr>"

definition uretprobe_bash_readline ::
    "rodata \<Rightarrow> kernel \<Rightarrow> pt_regs \<Rightarrow> bash_state \<Rightarrow> bash_state \<times> int" where
  "uretprobe_bash_readline c k ctx s =
     (let pid = cur_pid k; uid = cur_uid k in
      if \<not> passes_filter c k (Some ctx) then (s, 0)
      else
        let event = bash_event_zero\<lparr>be_pid := pid, be_uid := uid,
              be_type := BASH_EVENT_TYPE_READLINE\<rparr>;
            event = event\<lparr>be_line := snd (probe_read_user k (be_line event) (PT_REGS_RC ctx))\<rparr>;
            event = event\<lparr>be_comm := k_comm k\<rparr>;
            s = s\<lparr>events_t := snd (hash_update events_t_max pid event (events_t s))\<rparr>
        in (bash_output event s, 0))"

text \<open>
  In its second branch the source deletes the map element first and then outputs through the pointer to it. The
  model outputs the value the element had; that another CPU reuses the freed element in between is not represented.
\<close>

definition uretprobe_bash_retval ::
    "rodata \<Rightarrow> kernel \<Rightarrow> pt_regs \<Rightarrow> bash_state \<Rightarrow> bash_state \<times> int" where
  "uretprobe_bash_retval c k ctx s =
     (let pid = cur_pid k; retval = (ucast (PT_REGS_RC ctx) :: s32) in
      if \<not> passes_filter c k (Some ctx) then (s, 0)
      else
        let event_p = map_lookup (events_t s) pid in
        if less52 c \<noteq> 1 \<and> target_errno c \<noteq> BASH_ERRNO_DEFAULT \<and>
           target_errno c \<noteq> scast retval
        then
          case event_p of
            None \<Rightarrow> (s, 0)
          | Some e \<Rightarrow>
              let e = e\<lparr>be_retval := ucast BASH_ERRNO_DEFAULT, be_type := BASH_EVENT_TYPE_RETVAL\<rparr>;
                  s = bash_output e s
              in (s\<lparr>events_t := map_delete pid (events_t s)\<rparr>, 0)
        else
          case event_p of
            None \<Rightarrow> (s, 0)
          | Some e \<Rightarrow>
              let e = e\<lparr>be_retval := retval, be_type := BASH_EVENT_TYPE_RETVAL\<rparr>;
                  s = s\<lparr>events_t := map_delete pid (events_t s)\<rparr>
              in (bash_output e s, 0))"

definition send_bash_exit_event ::
    "kernel \<Rightarrow> pt_regs \<Rightarrow> bash_state \<Rightarrow> bash_state \<times> int" where
  "send_bash_exit_event k ctx s =
     (let pid = cur_pid k; uid = cur_uid k;
          event = bash_event_zero\<lparr>be_type := BASH_EVENT_TYPE_EXIT_OR_EXEC, be_pid := pid,
            be_uid := uid\<rparr>;
          event = event\<lparr>be_comm := k_comm k\<rparr>
      in (bash_output event s, 0))"

definition uprobe_exec_builtin ::
    "kernel \<Rightarrow> pt_regs \<Rightarrow> bash_state \<Rightarrow> bash_state \<times> int" where
  "uprobe_exec_builtin k ctx s = send_bash_exit_event k ctx s"

definition uprobe_exit_builtin ::
    "kernel \<Rightarrow> pt_regs \<Rightarrow> bash_state \<Rightarrow> bash_state \<times> int" where
  "uprobe_exit_builtin k ctx s = send_bash_exit_event k ctx s"

lemmas bash_handler_defs = uretprobe_bash_readline_def uretprobe_bash_retval_def
  uprobe_exec_builtin_def uprobe_exit_builtin_def send_bash_exit_event_def bash_output_def

subsection \<open>Runs of the object\<close>

inductive bash_step :: "rodata \<Rightarrow> kernel \<Rightarrow> bash_state \<Rightarrow> bash_state \<Rightarrow> bool" for c where
  readline: "bash_step c k s (fst (uretprobe_bash_readline c k ctx s))"
| retval: "bash_step c k s (fst (uretprobe_bash_retval c k ctx s))"
| exec: "bash_step c k s (fst (uprobe_exec_builtin k ctx s))"
| exit: "bash_step c k s (fst (uprobe_exit_builtin k ctx s))"

inductive_cases bash_stepE [elim]: "bash_step c k s t"

inductive bash_reachable :: "rodata \<Rightarrow> bash_state \<Rightarrow> bool" for c where
  init: "bash_reachable c bash_init"
| step: "bash_reachable c s \<Longrightarrow> length (k_comm k) = TASK_COMM_LEN \<Longrightarrow> bash_step c k s t \<Longrightarrow>
    bash_reachable c t"

text \<open>
  The invariant: the map is well formed, an entry is the readline event of the process it is
  filed under, every event has the struct's array sizes, and every event that is not an
  exit event belongs to a process the filter lets through.
\<close>

definition bash_event_wf :: "bash_event \<Rightarrow> bool" where
  "bash_event_wf e \<longleftrightarrow> length (be_line e) = MAX_DATA_SIZE_BASH \<and> length (be_comm e) = TASK_COMM_LEN"

definition bash_entry_ok :: "rodata \<Rightarrow> u32 \<Rightarrow> bash_event \<Rightarrow> bool" where
  "bash_entry_ok c p e \<longleftrightarrow> be_pid e = p \<and> be_type e = BASH_EVENT_TYPE_READLINE \<and>
     be_retval e = 0 \<and> bash_event_wf e \<and> \<not> filter_rejects_base c (be_pid e) (be_uid e)"

definition bash_reported_ok :: "rodata \<Rightarrow> bash_event \<Rightarrow> bool" where
  "bash_reported_ok c e \<longleftrightarrow> bash_event_wf e \<and>
     (be_type e = BASH_EVENT_TYPE_EXIT_OR_EXEC \<or>
      be_type e \<in> {BASH_EVENT_TYPE_READLINE, BASH_EVENT_TYPE_RETVAL} \<and>
      \<not> filter_rejects_base c (be_pid e) (be_uid e))"

definition bash_inv :: "rodata \<Rightarrow> bash_state \<Rightarrow> bool" where
  "bash_inv c s \<longleftrightarrow> map_wf events_t_max (events_t s) \<and>
     (\<forall>p e. map_lookup (events_t s) p = Some e \<longrightarrow> bash_entry_ok c p e) \<and>
     (\<forall>e \<in> set (bash_events s). bash_reported_ok c e)"

lemma passes_filter_base:
  "passes_filter c k (Some ctx) \<Longrightarrow> \<not> filter_rejects_base c (cur_pid k) (cur_uid k)"
  by (auto simp: passes_filter_wants filter_rejects_base_def wants_def split: if_splits)

lemma bash_inv_init: "bash_inv c bash_init"
  by (simp add: bash_inv_def bash_init_def)

lemma bash_inv_output: "bash_inv c s \<Longrightarrow> bash_reported_ok c e \<Longrightarrow> bash_inv c (bash_output e s)"
  by (auto simp: bash_inv_def bash_output_def)

lemma bash_inv_delete:
  "bash_inv c s \<Longrightarrow> bash_inv c (s\<lparr>events_t := map_delete p (events_t s)\<rparr>)"
  by (auto simp: bash_inv_def split: if_splits)

lemma bash_inv_insert:
  "bash_inv c s \<Longrightarrow> bash_entry_ok c p e \<Longrightarrow>
   bash_inv c (s\<lparr>events_t := snd (hash_update events_t_max p e (events_t s))\<rparr>)"
  by (auto simp: bash_inv_def map_lookup_hash_update split: if_splits)

lemmas bash_inv_intros = bash_inv_output bash_inv_delete bash_inv_insert

lemma bash_inv_readline:
  assumes "bash_inv c s" and "length (k_comm k) = TASK_COMM_LEN"
  shows "bash_inv c (fst (uretprobe_bash_readline c k ctx s))"
proof (cases "passes_filter c k (Some ctx)")
  case True
  then have "\<not> filter_rejects_base c (cur_pid k) (cur_uid k)" by (rule passes_filter_base)
  with True assms show ?thesis
    by (auto simp: uretprobe_bash_readline_def Let_def bash_entry_ok_def bash_reported_ok_def
        bash_event_wf_def bash_event_zero_def intro!: bash_inv_intros)
next
  case False
  with assms show ?thesis by (simp add: uretprobe_bash_readline_def Let_def)
qed

lemma bash_inv_retval:
  assumes "bash_inv c s"
  shows "bash_inv c (fst (uretprobe_bash_retval c k ctx s))"
proof (cases "map_lookup (events_t s) (cur_pid k)")
  case None
  with assms show ?thesis by (simp add: uretprobe_bash_retval_def Let_def)
next
  case (Some e)
  with assms have "bash_entry_ok c (cur_pid k) e" by (simp add: bash_inv_def)
  then have "bash_reported_ok c (e\<lparr>be_retval := r, be_type := BASH_EVENT_TYPE_RETVAL\<rparr>)" for r
    by (auto simp: bash_entry_ok_def bash_reported_ok_def bash_event_wf_def)
  then show ?thesis
    using assms Some
    by (auto simp: uretprobe_bash_retval_def Let_def intro!: bash_inv_intros)
qed

lemma bash_inv_exit:
  assumes "bash_inv c s" and "length (k_comm k) = TASK_COMM_LEN"
  shows "bash_inv c (fst (send_bash_exit_event k ctx s))"
  using assms
  by (auto simp: send_bash_exit_event_def Let_def bash_reported_ok_def bash_event_wf_def
      bash_event_zero_def intro!: bash_inv_intros)

lemma bash_inv_step:
  "bash_step c k s t \<Longrightarrow> bash_inv c s \<Longrightarrow> length (k_comm k) = TASK_COMM_LEN \<Longrightarrow> bash_inv c t"
  by (auto elim!: bash_stepE
      simp: uprobe_exec_builtin_def uprobe_exit_builtin_def
      intro: bash_inv_readline bash_inv_retval bash_inv_exit)

lemma bash_reachable_inv: "bash_reachable c s \<Longrightarrow> bash_inv c s"
  by (induction rule: bash_reachable.induct) (auto intro: bash_inv_init bash_inv_step)

subsection \<open>A command is reported with its own line\<close>

definition bash_line_event :: "kernel \<Rightarrow> pt_regs \<Rightarrow> bash_event" where
  "bash_line_event k ctx = \<lparr>be_type = BASH_EVENT_TYPE_READLINE, be_pid = cur_pid k,
     be_uid = cur_uid k,
     be_line = snd (probe_read_user k (replicate MAX_DATA_SIZE_BASH 0) (PT_REGS_RC ctx)),
     be_retval = 0, be_comm = k_comm k\<rparr>"

lemma readline_accepted:
  assumes "passes_filter c k (Some ctx)"
  shows "uretprobe_bash_readline c k ctx s =
     (bash_output (bash_line_event k ctx)
        (s\<lparr>events_t := snd (hash_update events_t_max (cur_pid k) (bash_line_event k ctx) (events_t s))\<rparr>), 0)"
  using assms
  by (simp add: uretprobe_bash_readline_def bash_line_event_def bash_event_zero_def Let_def)

lemma bash_step_other: "bash_step c k s t \<Longrightarrow> cur_pid k \<noteq> p \<Longrightarrow>
    map_lookup (events_t t) p = map_lookup (events_t s) p"
  by (auto elim!: bash_stepE simp: bash_handler_defs Let_def map_lookup_hash_update
      split: option.splits)

interpretation bash: task_isolated "bash_step c" cur_pid "\<lambda>s. map_lookup (events_t s)" for c
  by unfold_locales (rule bash_step_other)

definition errno_wanted :: "rodata \<Rightarrow> s32 \<Rightarrow> bool" where
  "errno_wanted c r \<longleftrightarrow> less52 c = 1 \<or> target_errno c = BASH_ERRNO_DEFAULT \<or> target_errno c = scast r"

lemma retval_reports:
  assumes "passes_filter c k (Some ctx)" and "map_lookup (events_t s) (cur_pid k) = Some e"
  shows "uretprobe_bash_retval c k ctx s =
     (bash_output (e\<lparr>be_type := BASH_EVENT_TYPE_RETVAL,
        be_retval := (if errno_wanted c (ucast (PT_REGS_RC ctx)) then ucast (PT_REGS_RC ctx)
                      else ucast BASH_ERRNO_DEFAULT)\<rparr>)
        (s\<lparr>events_t := map_delete (cur_pid k) (events_t s)\<rparr>), 0)"
  using assms
  by (auto simp: uretprobe_bash_retval_def errno_wanted_def bash_output_def Let_def)

subsection \<open>The consumer: internal/probe/bash\<close>

text \<open>
  \<open>handleEvent\<close> keys the lines of a shell by \<open>UUID\<close> (process, user, command name up to its
  NUL), collects the lines of a multi-line command, and sets \<open>AllLines\<close> when the command is
  over; \<open>String\<close> prints an event only if \<open>AllLines\<close> is not empty.
\<close>

definition c_string :: "bytes \<Rightarrow> bytes" where
  "c_string bs = takeWhile (\<lambda>b. b \<noteq> 0) bs"

definition bash_uuid :: "bash_event \<Rightarrow> u32 \<times> u32 \<times> bytes" where
  "bash_uuid e = (be_pid e, be_uid e, c_string (be_comm e))"

type_synonym line_map = "(u32 \<times> u32 \<times> bytes, bytes) bmap"

definition handleEvent :: "u64 \<Rightarrow> bash_event \<Rightarrow> line_map \<Rightarrow> line_map \<times> bytes" where
  "handleEvent ErrNo e lm =
     (let uuid = bash_uuid e;
          line = (case map_lookup lm uuid of None \<Rightarrow> [] | Some l \<Rightarrow> l) in
      if be_type e = BASH_EVENT_TYPE_READLINE then
        let newLine = c_string (be_line e) in
        (AList.update uuid (if line \<noteq> [] then line @ [10] @ newLine else newLine) lm, [])
      else if be_type e = BASH_EVENT_TYPE_RETVAL then
        (map_delete uuid lm,
         if line = [] \<or> be_retval e = ucast ErrNo then [] else line)
      else if be_type e = BASH_EVENT_TYPE_EXIT_OR_EXEC then
        (map_delete uuid lm, if line = [] then [] else line)
      else (lm, []))"

fun bash_display :: "u64 \<Rightarrow> line_map \<Rightarrow> bash_event list \<Rightarrow> bytes list" where
  "bash_display ErrNo lm [] = []"
| "bash_display ErrNo lm (e # es) =
     (let (lm', shown) = handleEvent ErrNo e lm
      in (if shown = [] then [] else [shown]) @ bash_display ErrNo lm' es)"

text \<open>One shell reads a line and runs it: what the object reports, from its initial state.\<close>

definition bash_one_command ::
    "rodata \<Rightarrow> kernel \<Rightarrow> pt_regs \<Rightarrow> kernel \<Rightarrow> pt_regs \<Rightarrow> bash_event list" where
  "bash_one_command c k1 ctx1 k2 ctx2 =
     bash_events (fst (uretprobe_bash_retval c k2 ctx2
       (fst (uretprobe_bash_readline c k1 ctx1 bash_init))))"

lemma bash_one_command_events:
  assumes "passes_filter c k1 (Some ctx1)" and "passes_filter c k2 (Some ctx2)"
    and "cur_pid k2 = cur_pid k1"
  shows "bash_one_command c k1 ctx1 k2 ctx2 =
     [bash_line_event k1 ctx1,
      (bash_line_event k1 ctx1)\<lparr>be_type := BASH_EVENT_TYPE_RETVAL,
        be_retval := (if errno_wanted c (ucast (PT_REGS_RC ctx2)) then ucast (PT_REGS_RC ctx2)
                      else ucast BASH_ERRNO_DEFAULT)\<rparr>]"
  using assms
  by (simp add: bash_one_command_def readline_accepted retval_reports bash_output_def bash_init_def
      map_lookup_hash_update map_room_def events_t_max_def)

lemma bash_display_command:
  assumes "be_type e1 = BASH_EVENT_TYPE_READLINE" and "be_type e2 = BASH_EVENT_TYPE_RETVAL"
    and "bash_uuid e2 = bash_uuid e1" and "c_string (be_line e1) = l" and "l \<noteq> []"
  shows "bash_display n [] [e1, e2] = (if be_retval e2 = ucast n then [] else [l])"
  using assms by (simp add: handleEvent_def bash_consts Let_def map_lookup_def)

subsection \<open>Properties\<close>

text \<open>
  In every state the bash object can reach, the map of pending lines stays within its 1024
  entries with one entry per process, each entry is the readline event of the process it is filed
  under, every reported event has the sizes of the C struct, and every reported readline and
  retval event belongs to a process and user the filter accepts.
\<close>

theorem bash_reachable_invariant: "bash_reachable c s \<Longrightarrow> bash_inv c s"
  by (rule bash_reachable_inv)

theorem bash_reachable_invariant_witness:
  "bash_inv rodata_default (fst (uretprobe_bash_readline rodata_default kernel0 (X86 regs0) bash_init))"
proof -
  have "bash_reachable rodata_default
      (fst (uretprobe_bash_readline rodata_default kernel0 (X86 regs0) bash_init))"
    by (rule bash_reachable.step [OF bash_reachable.init _ bash_step.readline])
      (simp add: TASK_COMM_LEN_def)
  then show ?thesis by (rule bash_reachable_invariant)
qed

text \<open>
  C24: A shell that passes the filter reads a line while the map has room; then the object runs any
  number of times for other processes; then the shell's command returns. The object reports
  exactly one more event: the line read by that shell, with its own process, user and command
  name, and the exit status (or the placeholder 128 when another status is targeted); and the
  pending entry is gone.
\<close>

theorem bash_command_reported_once:
  assumes "passes_filter c k1 (Some ctx1)" and "passes_filter c k2 (Some ctx2)"
    and "cur_pid k2 = cur_pid k1" and "map_room events_t_max (cur_pid k1) (events_t s)"
    and "others (bash_step c) cur_pid (cur_pid k1) (fst (uretprobe_bash_readline c k1 ctx1 s)) t"
  shows "bash_events (fst (uretprobe_bash_retval c k2 ctx2 t)) = bash_events t @
       [(bash_line_event k1 ctx1)\<lparr>be_type := BASH_EVENT_TYPE_RETVAL,
          be_retval := (if errno_wanted c (ucast (PT_REGS_RC ctx2)) then ucast (PT_REGS_RC ctx2)
                        else ucast BASH_ERRNO_DEFAULT)\<rparr>] \<and>
     map_lookup (events_t (fst (uretprobe_bash_retval c k2 ctx2 t))) (cur_pid k1) = None"
proof -
  have "map_lookup (events_t (fst (uretprobe_bash_readline c k1 ctx1 s))) (cur_pid k1)
      = Some (bash_line_event k1 ctx1)"
    using assms(1,4)
    by (simp add: readline_accepted bash_output_def map_lookup_hash_update)
  then have "map_lookup (events_t t) (cur_pid k2) = Some (bash_line_event k1 ctx1)"
    using bash.others_keep [OF assms(5)] assms(3) by simp
  then show ?thesis
    using assms(2,3) by (simp add: retval_reports bash_output_def)
qed

theorem bash_command_reported_once_witness:
  "\<exists>t. others (bash_step rodata_default) cur_pid 100
         (fst (uretprobe_bash_readline rodata_default kernel0 (X86 regs0) bash_init)) t \<and>
     length (bash_events t) = 2 \<and>
     bash_events (fst (uretprobe_bash_retval rodata_default kernel0 (X86 (regs0\<lparr>x_ax := 2\<rparr>)) t)) =
       bash_events t @ [(bash_line_event kernel0 (X86 regs0))\<lparr>be_type := 1, be_retval := 2\<rparr>]"
proof -
  let ?other = "kernel0\<lparr>k_pid_tgid := 0\<rparr>"
  let ?s1 = "fst (uretprobe_bash_readline rodata_default kernel0 (X86 regs0) bash_init)"
  let ?t = "fst (uprobe_exit_builtin ?other (X86 regs0) ?s1)"
  have pf: "passes_filter rodata_default k (Some r)" for k r
    by (simp add: passes_filter_def rodata_default_def)
  have oth: "others (bash_step rodata_default) cur_pid (cur_pid kernel0) ?s1 ?t"
    by (rule others_single, rule bash_step.exit) (simp add: cur_pid_def)
  have "bash_events (fst (uretprobe_bash_retval rodata_default kernel0
      (X86 (regs0\<lparr>x_ax := 2\<rparr>)) ?t)) =
      bash_events ?t @ [(bash_line_event kernel0 (X86 regs0))\<lparr>be_type := 1, be_retval := 2\<rparr>]"
    using bash_command_reported_once [OF pf pf refl _ oth]
    by (simp add: map_room_def bash_init_def events_t_max_def errno_wanted_def rodata_default_def
        bash_consts)
  moreover have "length (bash_events ?t) = 2"
    by (simp add: readline_accepted [OF pf] uprobe_exit_builtin_def send_bash_exit_event_def
        bash_output_def bash_init_def Let_def)
  ultimately show ?thesis using oth by auto
qed

text \<open>
  C28: The \<open>exit\<close> and \<open>exec\<close> hooks report an event of the calling shell also when the process
  filter rejects it: \<open>send_bash_exit_event\<close> never consults the filter.
\<close>

theorem bash_exit_bypasses_filter:
  assumes "\<not> passes_filter c k (Some ctx)"
  shows "\<exists>e. bash_events (fst (uprobe_exit_builtin k ctx s)) = bash_events s @ [e] \<and>
     bash_events (fst (uprobe_exec_builtin k ctx s)) = bash_events s @ [e] \<and>
     be_type e = BASH_EVENT_TYPE_EXIT_OR_EXEC \<and> be_pid e = cur_pid k \<and>
     bash_events (fst (uretprobe_bash_readline c k ctx s)) = bash_events s \<and>
     bash_events (fst (uretprobe_bash_retval c k ctx s)) = bash_events s"
  using assms
  by (simp add: uretprobe_bash_readline_def uretprobe_bash_retval_def uprobe_exit_builtin_def
      uprobe_exec_builtin_def send_bash_exit_event_def bash_output_def bash_event_zero_def Let_def)

theorem bash_exit_bypasses_filter_witness:
  "\<not> passes_filter (rodata_default\<lparr>less52 := 0, target_pid := 7\<rparr>) kernel0 (Some (X86 regs0)) \<and>
   bash_events (fst (uprobe_exit_builtin kernel0 (X86 regs0) bash_init)) \<noteq> []"
proof -
  have "\<not> passes_filter (rodata_default\<lparr>less52 := 0, target_pid := 7\<rparr>) kernel0 (Some (X86 regs0))"
    by (simp add: passes_filter_wants wants_def rodata_default_def)
  then show ?thesis using bash_exit_bypasses_filter [of _ kernel0 "X86 regs0" bash_init] by fastforce
qed

text \<open>
  C29: With the errno option set to \<open>n\<close> (not the default 128), a non-empty command line of an
  accepted shell is displayed exactly when its exit status is not \<open>n\<close>: the object replaces the
  status of the commands that do not match by 128, and \<open>handleEvent\<close> drops the events whose
  status equals the option's value instead of those marked 128.
\<close>

theorem bash_errno_option_inverted:
  assumes "passes_filter c k1 (Some ctx1)" and "passes_filter c k2 (Some ctx2)"
    and "cur_pid k2 = cur_pid k1" and "less52 c \<noteq> 1"
    and "target_errno c < 256" and "target_errno c \<noteq> 128"
    and "l = c_string (be_line (bash_line_event k1 ctx1))" and "l \<noteq> []"
  shows "bash_display (target_errno c) [] (bash_one_command c k1 ctx1 k2 ctx2) =
     (if target_errno c = scast (ucast (PT_REGS_RC ctx2) :: s32) then [] else [l])"
proof -
  let ?e1 = "bash_line_event k1 ctx1"
  have n32: "ucast (target_errno c) \<noteq> (128 :: u32)"
    using assms(5,6) ucast_u64_u32_small [of "target_errno c"] by (auto simp: word_less_def)
  have r: "(ucast (scast (r :: s32) :: u64) :: u32) = r" for r
    by (rule bit_word_eqI) (auto simp: bit_simps)
  have disp: "bash_display n [] [?e1, ?e1\<lparr>be_type := BASH_EVENT_TYPE_RETVAL, be_retval := v\<rparr>] =
      (if v = ucast n then [] else [l])" for n v
    using assms(7,8) bash_display_command [of ?e1 "?e1\<lparr>be_type := BASH_EVENT_TYPE_RETVAL, be_retval := v\<rparr>"]
    by (simp add: bash_line_event_def bash_uuid_def)
  show ?thesis
    unfolding bash_one_command_events [OF assms(1-3)] disp
    using assms(4,6) n32 r [of "ucast (PT_REGS_RC ctx2)"]
    by (auto simp: errno_wanted_def BASH_ERRNO_DEFAULT_def)
qed

theorem bash_errno_option_inverted_witness:
  "bash_display 2 [] (bash_one_command (rodata_default\<lparr>less52 := 0, target_errno := 2\<rparr>)
     (kernel0\<lparr>k_user := (\<lambda>_. Some 65)\<rparr>) (X86 regs0) kernel0 (X86 (regs0\<lparr>x_ax := 2\<rparr>))) = [] \<and>
   bash_display 2 [] (bash_one_command (rodata_default\<lparr>less52 := 0, target_errno := 2\<rparr>)
     (kernel0\<lparr>k_user := (\<lambda>_. Some 65)\<rparr>) (X86 regs0) kernel0 (X86 (regs0\<lparr>x_ax := 0\<rparr>))) =
     [replicate 256 65]"
proof -
  let ?c = "rodata_default\<lparr>less52 := 0, target_errno := 2\<rparr>"
  let ?k = "kernel0\<lparr>k_user := (\<lambda>_. Some 65)\<rparr>"
  have pf: "passes_filter ?c ?k (Some r)" "passes_filter ?c kernel0 (Some r)" for r
    by (simp_all add: passes_filter_wants wants_def rodata_default_def)
  have line: "replicate 256 65 = c_string (be_line (bash_line_event ?k (X86 regs0)))"
    by (simp add: c_string_def bash_line_event_def probe_read_user_def probe_read_def
        MAX_DATA_SIZE_BASH_def)
  have pid: "cur_pid kernel0 = cur_pid ?k" by (simp add: cur_pid_def)
  show ?thesis
    using bash_errno_option_inverted [OF pf(1) pf(2) pid _ _ _ line, of "X86 (regs0\<lparr>x_ax := 2\<rparr>)"]
      bash_errno_option_inverted [OF pf(1) pf(2) pid _ _ _ line, of "X86 regs0"]
    by (simp add: rodata_default_def regs0_def)
qed

end
