(* ===== verification/Zsh_Probe.thy ===== *)
theory Zsh_Probe
  imports Ecapture_Filter
begin

text \<open>
  kern/zsh_kern.c: one uretprobe that reports the line \<open>zleentry\<close> returns.
\<close>

definition MAX_DATA_SIZE_ZSH :: nat where
  "MAX_DATA_SIZE_ZSH = 256"

definition ZSH_EVENT_TYPE_READLINE :: u32 where
  "ZSH_EVENT_TYPE_READLINE = 4"

record zsh_event =
  ze_type :: u32
  ze_pid :: u32
  ze_uid :: u32
  ze_comm :: bytes
  ze_line :: bytes

definition zsh_event_zero :: zsh_event where
  "zsh_event_zero = \<lparr>ze_type = 0, ze_pid = 0, ze_uid = 0, ze_comm = replicate TASK_COMM_LEN 0,
     ze_line = replicate MAX_DATA_SIZE_ZSH 0\<rparr>"

record zsh_state =
  zsh_events :: "zsh_event list"

definition uretprobe_zsh_zleentry ::
    "rodata \<Rightarrow> kernel \<Rightarrow> pt_regs \<Rightarrow> zsh_state \<Rightarrow> zsh_state \<times> int" where
  "uretprobe_zsh_zleentry c k ctx s =
     (let pid = cur_pid k; uid = cur_uid k in
      if \<not> passes_filter c k (Some ctx) then (s, 0)
      else
        let event = zsh_event_zero\<lparr>ze_pid := pid, ze_uid := uid, ze_type := ZSH_EVENT_TYPE_READLINE\<rparr>;
            event = event\<lparr>ze_comm := k_comm k\<rparr>;
            event = event\<lparr>ze_line := snd (probe_read_user k (ze_line event) (PT_REGS_RC ctx))\<rparr>
        in (s\<lparr>zsh_events := zsh_events s @ [event]\<rparr>, 0))"

subsection \<open>Properties\<close>

text \<open>
  The zsh probe reports exactly one event when the calling process passes the filter and none
  otherwise; the event carries the caller's process, user and command name, and the 256 bytes at the
  returned pointer. When any of these 256 bytes is not mapped the line is lost whole: every byte is
  what a failed read leaves of a zero, however short the string itself is.
\<close>

theorem zsh_reports_line:
  "fst (uretprobe_zsh_zleentry c k ctx s) =
     (if wants c (cur_pid k) (cur_uid k) (k_cgroup_id k)
      then \<lparr>zsh_events = zsh_events s @ [\<lparr>ze_type = 4, ze_pid = cur_pid k, ze_uid = cur_uid k,
               ze_comm = k_comm k,
               ze_line = (case read_mem (k_user k) 256 (PT_REGS_RC ctx) of
                            Some bs \<Rightarrow> bs | None \<Rightarrow> replicate 256 (k_on_fault k 0))\<rparr>]\<rparr>
      else s)"
  by (simp add: uretprobe_zsh_zleentry_def passes_filter_wants zsh_event_zero_def probe_read_user_def
      probe_read_def MAX_DATA_SIZE_ZSH_def ZSH_EVENT_TYPE_READLINE_def Let_def split: option.split)

end
