(* ===== verification/Postgres_Probe.thy ===== *)
theory Postgres_Probe
  imports Ecapture_Filter
begin

text \<open>
  kern/postgres_kern.c: one uprobe on \<open>exec_simple_query\<close> that reports the query string.
\<close>

definition MAX_DATA_SIZE_POSTGRES :: nat where
  "MAX_DATA_SIZE_POSTGRES = 256"

record pg_data =
  pg_pid :: u64
  pg_timestamp :: u64
  pg_query :: bytes
  pg_comm :: bytes

definition pg_data_zero :: pg_data where
  "pg_data_zero = \<lparr>pg_pid = 0, pg_timestamp = 0, pg_query = replicate MAX_DATA_SIZE_POSTGRES 0,
     pg_comm = replicate TASK_COMM_LEN 0\<rparr>"

record pg_state =
  pg_events :: "pg_data list"

definition postgres_query :: "rodata \<Rightarrow> kernel \<Rightarrow> pt_regs \<Rightarrow> pg_state \<Rightarrow> pg_state \<times> int" where
  "postgres_query c k ctx s =
     (let pid = cur_pid k in
      if \<not> passes_filter c k (Some ctx) then (s, 0)
      else
        let data = pg_data_zero\<lparr>pg_pid := ucast pid, pg_timestamp := k_ktime_ns k\<rparr>;
            sql_string = PT_REGS_PARM1 ctx;
            data = data\<lparr>pg_comm := k_comm k\<rparr>;
            data = data\<lparr>pg_query := snd (probe_read_user k (pg_query data) sql_string)\<rparr>
        in (s\<lparr>pg_events := pg_events s @ [data]\<rparr>, 0))"

subsection \<open>Properties\<close>

text \<open>
  The PostgreSQL probe reports exactly one event per \<open>exec_simple_query\<close> call of a process that
  passes the filter and none otherwise: the process id without its thread part, the time, the command
  name and the 256 bytes at the query pointer (the failed-read pattern when one of them is unmapped).
\<close>

theorem postgres_reports_query:
  "fst (postgres_query c k ctx s) =
     (if wants c (cur_pid k) (cur_uid k) (k_cgroup_id k)
      then \<lparr>pg_events = pg_events s @ [\<lparr>pg_pid = drop_bit 32 (k_pid_tgid k), pg_timestamp = k_ktime_ns k,
               pg_query = (case read_mem (k_user k) 256 (PT_REGS_PARM1 ctx) of
                             Some bs \<Rightarrow> bs | None \<Rightarrow> replicate 256 (k_on_fault k 0)),
               pg_comm = k_comm k\<rparr>]\<rparr>
      else s)"
proof -
  have "ucast (cur_pid k) = drop_bit 32 (k_pid_tgid k)"
    by (rule bit_word_eqI) (auto simp: cur_pid_def bit_simps dest: bit_imp_le_length)
  then show ?thesis
    by (simp add: postgres_query_def passes_filter_wants pg_data_zero_def probe_read_user_def
        probe_read_def MAX_DATA_SIZE_POSTGRES_def Let_def split: option.split)
qed

end
