(* ===== verification/Mysql_Probe.thy ===== *)
theory Mysql_Probe
  imports Ecapture_Filter
begin

text \<open>
  kern/mysqld_kern.c: the MySQL probe. The entry hooks of \<open>dispatch_command\<close> (5.6/MariaDB and
  5.7+ signatures) file the query under the server's process id, the return hooks add the return
  value and report it.
\<close>

definition MAX_DATA_SIZE_MYSQL :: u64 where
  "MAX_DATA_SIZE_MYSQL = 256"

definition COM_QUERY :: u64 where
  "COM_QUERY = 3"

definition DISPATCH_COMMAND_V57_FAILED :: s8 where
  "DISPATCH_COMMAND_V57_FAILED = -2"

record my_data =
  my_pid :: u64
  my_timestamp :: u64
  my_query :: bytes
  my_alllen :: u64
  my_len :: u64
  my_comm :: bytes
  my_retval :: s8

definition my_data_zero :: my_data where
  "my_data_zero = \<lparr>my_pid = 0, my_timestamp = 0, my_query = replicate 256 0, my_alllen = 0,
     my_len = 0, my_comm = replicate TASK_COMM_LEN 0, my_retval = 0\<rparr>"

record mysql_state =
  sql_hash :: "(u32, my_data) bmap"
  mysql_events :: "my_data list"

definition sql_hash_max :: nat where
  "sql_hash_max = 1024"

definition mysql_init :: mysql_state where
  "mysql_init = \<lparr>sql_hash = [], mysql_events = []\<rparr>"

definition clip_mysql :: "u64 \<Rightarrow> u64" where
  "clip_mysql len =
     (if len < MAX_DATA_SIZE_MYSQL then len AND (MAX_DATA_SIZE_MYSQL - 1) else MAX_DATA_SIZE_MYSQL)"

definition mysql56_query ::
    "rodata \<Rightarrow> kernel \<Rightarrow> pt_regs \<Rightarrow> mysql_state \<Rightarrow> mysql_state \<times> int" where
  "mysql56_query c k ctx s =
     (let command = PT_REGS_PARM1 ctx in
      if command \<noteq> COM_QUERY then (s, 0)
      else
      let pid = cur_pid k in
      if \<not> passes_filter c k (Some ctx) then (s, 0)
      else
      let len = PT_REGS_PARM4 ctx in
      if len < 0 then (s, 0)
      else
        let data = my_data_zero\<lparr>my_pid := ucast pid, my_alllen := len,
              my_timestamp := k_ktime_ns k, my_retval := -1\<rparr>;
            len = clip_mysql len;
            data = data\<lparr>my_len := len, my_comm := k_comm k\<rparr>;
            data = data\<lparr>my_query := snd (probe_read_user_n k (unat len) (my_query data) (PT_REGS_PARM3 ctx))\<rparr>
        in (s\<lparr>sql_hash := snd (hash_update sql_hash_max pid data (sql_hash s))\<rparr>, 0))"

text \<open>A store through the looked-up pointer, then the report of what it points to.\<close>

definition mysql_report :: "u32 \<Rightarrow> s8 \<Rightarrow> my_data \<Rightarrow> mysql_state \<Rightarrow> mysql_state" where
  "mysql_report pid v data s =
     (let s = s\<lparr>sql_hash := map_modify pid (\<lambda>d. d\<lparr>my_retval := v\<rparr>) (sql_hash s)\<rparr>
      in s\<lparr>mysql_events := mysql_events s @ [data\<lparr>my_retval := v\<rparr>]\<rparr>)"

definition mysql56_query_return ::
    "rodata \<Rightarrow> kernel \<Rightarrow> pt_regs \<Rightarrow> mysql_state \<Rightarrow> mysql_state \<times> int" where
  "mysql56_query_return c k ctx s =
     (let pid = cur_pid k in
      if \<not> passes_filter c k (Some ctx) then (s, 0)
      else
      let command_return = (ucast (PT_REGS_RC ctx) :: s8) in
      case map_lookup (sql_hash s) pid of
        None \<Rightarrow> (s, 0)
      | Some data \<Rightarrow> (mysql_report pid command_return data s, 0))"

text \<open>
  \<open>COM_QUERY_DATA\<close> is a pointer and an \<open>unsigned int\<close>, 16 bytes with its padding. The third read
  of \<open>mysql57_query\<close> takes its source \<open>&query.length\<close>, an address on the kernel stack, through
  \<open>bpf_probe_read_user\<close>, and reads the eight bytes of \<open>data.alllen\<close>.
\<close>

definition mysql57_query ::
    "rodata \<Rightarrow> kernel \<Rightarrow> pt_regs \<Rightarrow> mysql_state \<Rightarrow> mysql_state \<times> int" where
  "mysql57_query c k ctx s =
     (let command = PT_REGS_PARM3 ctx in
      if command \<noteq> COM_QUERY then (s, 0)
      else
      let pid = cur_pid k in
      if \<not> passes_filter c k (Some ctx) then (s, 0)
      else
        let data = my_data_zero\<lparr>my_pid := ucast pid, my_timestamp := k_ktime_ns k\<rparr>;
            st = PT_REGS_PARM2 ctx;
            query = snd (probe_read_user k (uninit_bytes k ''query'' 16) st);
            data = data\<lparr>my_query := snd (probe_read_user k (my_query data) (le_word (take 8 query)))\<rparr>;
            data = data\<lparr>my_alllen := snd (probe_user_word k (my_alllen data) (k_stack_addr k ''query'' + 8))\<rparr>;
            len = clip_mysql (my_alllen data);
            data = data\<lparr>my_len := len, my_comm := k_comm k\<rparr>
        in (s\<lparr>sql_hash := snd (hash_update sql_hash_max pid data (sql_hash s))\<rparr>, 0))"

definition mysql57_query_return ::
    "rodata \<Rightarrow> kernel \<Rightarrow> pt_regs \<Rightarrow> mysql_state \<Rightarrow> mysql_state \<times> int" where
  "mysql57_query_return c k ctx s =
     (let pid = cur_pid k in
      if \<not> passes_filter c k (Some ctx) then (s, 0)
      else
      let command_return = (ucast (PT_REGS_RC ctx) :: u8) in
      case map_lookup (sql_hash s) pid of
        None \<Rightarrow> (s, 0)
      | Some data \<Rightarrow>
          (mysql_report pid
             (if command_return = 1 then DISPATCH_COMMAND_V57_FAILED else command_return) data s, 0))"

lemmas mysql_handler_defs = mysql56_query_def mysql56_query_return_def mysql57_query_def
  mysql57_query_return_def mysql_report_def

subsection \<open>Clipping\<close>

lemma unat_clip_mysql: "unat (clip_mysql len) = min (unat len) 256"
proof (cases "len < 256")
  case True
  then have "unat len < 2 ^ 8" by (simp add: word_less_nat_alt)
  then have "len AND mask 8 = len" by (rule and_mask_id)
  then have "len AND 255 = len" by (simp add: mask_eq_decr_exp)
  with True show ?thesis
    by (simp add: clip_mysql_def MAX_DATA_SIZE_MYSQL_def word_less_nat_alt)
next
  case False
  then show ?thesis
    by (simp add: clip_mysql_def MAX_DATA_SIZE_MYSQL_def word_less_nat_alt)
qed

subsection \<open>Runs of the object\<close>

inductive mysql_step :: "rodata \<Rightarrow> kernel \<Rightarrow> mysql_state \<Rightarrow> mysql_state \<Rightarrow> bool" for c where
  my56: "mysql_step c k s (fst (mysql56_query c k ctx s))"
| my56_ret: "mysql_step c k s (fst (mysql56_query_return c k ctx s))"
| my57: "mysql_step c k s (fst (mysql57_query c k ctx s))"
| my57_ret: "mysql_step c k s (fst (mysql57_query_return c k ctx s))"

inductive_cases mysql_stepE [elim]: "mysql_step c k s t"

inductive mysql_reachable :: "rodata \<Rightarrow> mysql_state \<Rightarrow> bool" for c where
  my_init: "mysql_reachable c mysql_init"
| my_step: "mysql_reachable c s \<Longrightarrow> mysql_step c k s t \<Longrightarrow> mysql_reachable c t"

text \<open>
  What every filed and every reported record satisfies: the query buffer keeps its 256 bytes, the
  length field never exceeds it and is the clipped original length, and the process is one the
  filter lets through.
\<close>

definition my_data_ok :: "rodata \<Rightarrow> my_data \<Rightarrow> bool" where
  "my_data_ok c d \<longleftrightarrow> length (my_query d) = 256 \<and> unat (my_len d) = min (unat (my_alllen d)) 256 \<and>
     (\<exists>uid. \<not> filter_rejects_base c (ucast (my_pid d)) uid)"

definition mysql_inv :: "rodata \<Rightarrow> mysql_state \<Rightarrow> bool" where
  "mysql_inv c s \<longleftrightarrow> map_wf sql_hash_max (sql_hash s) \<and>
     (\<forall>p d. map_lookup (sql_hash s) p = Some d \<longrightarrow> my_pid d = ucast p \<and> my_data_ok c d) \<and>
     (\<forall>d \<in> set (mysql_events s). my_data_ok c d)"

lemma mysql_passes_base:
  "passes_filter c k (Some ctx) \<Longrightarrow> \<not> filter_rejects_base c (cur_pid k) (cur_uid k)"
  by (auto simp: passes_filter_wants filter_rejects_base_def wants_def split: if_splits)

lemma mysql_inv_init: "mysql_inv c mysql_init"
  by (simp add: mysql_inv_def mysql_init_def)

lemma mysql_inv_insert:
  "mysql_inv c s \<Longrightarrow> my_pid d = ucast p \<Longrightarrow> my_data_ok c d \<Longrightarrow>
   mysql_inv c (s\<lparr>sql_hash := snd (hash_update sql_hash_max p d (sql_hash s))\<rparr>)"
  by (auto simp: mysql_inv_def map_lookup_hash_update split: if_splits)

lemma mysql_inv_report:
  assumes "mysql_inv c s" and "map_lookup (sql_hash s) p = Some d"
  shows "mysql_inv c (mysql_report p v d s)"
proof -
  have "my_data_ok c (d\<lparr>my_retval := v\<rparr>) = my_data_ok c d" for d v
    by (simp add: my_data_ok_def)
  with assms show ?thesis
    by (auto simp: mysql_inv_def mysql_report_def Let_def split: if_splits)
qed

lemma mysql_inv_step: "mysql_step c k s t \<Longrightarrow> mysql_inv c s \<Longrightarrow> mysql_inv c t"
proof (induction rule: mysql_step.induct)
  case (my56 k s ctx)
  then show ?case
    using mysql_passes_base [of c k ctx]
    by (auto simp: mysql56_query_def Let_def my_data_ok_def my_data_zero_def unat_clip_mysql
        intro!: mysql_inv_insert)
next
  case (my56_ret k s ctx)
  then show ?case
    by (auto simp: mysql56_query_return_def Let_def intro: mysql_inv_report split: option.splits)
next
  case (my57 k s ctx)
  then show ?case
    using mysql_passes_base [of c k ctx]
    by (auto simp: mysql57_query_def Let_def my_data_ok_def my_data_zero_def unat_clip_mysql
        intro!: mysql_inv_insert)
next
  case (my57_ret k s ctx)
  then show ?case
    by (auto simp: mysql57_query_return_def Let_def intro: mysql_inv_report split: option.splits)
qed

lemma mysql_reachable_inv: "mysql_reachable c s \<Longrightarrow> mysql_inv c s"
  by (induction rule: mysql_reachable.induct) (auto intro: mysql_inv_init mysql_inv_step)

subsection \<open>Query and return\<close>

lemma mysql_step_other: "mysql_step c k s t \<Longrightarrow> cur_pid k \<noteq> p \<Longrightarrow>
    map_lookup (sql_hash t) p = map_lookup (sql_hash s) p"
  by (auto elim!: mysql_stepE simp: mysql_handler_defs Let_def map_lookup_hash_update
      split: option.splits)

interpretation mysql: task_isolated "mysql_step c" cur_pid "\<lambda>s. map_lookup (sql_hash s)" for c
  by unfold_locales (rule mysql_step_other)

text \<open>The record \<open>mysql56_query\<close> files for a query whose bytes are all readable.\<close>

definition my_record :: "kernel \<Rightarrow> u64 \<Rightarrow> bytes \<Rightarrow> my_data" where
  "my_record k len sql = \<lparr>my_pid = ucast (cur_pid k), my_timestamp = k_ktime_ns k,
     my_query = sql @ replicate (256 - length sql) 0, my_alllen = len, my_len = of_nat (length sql),
     my_comm = k_comm k, my_retval = -1\<rparr>"

lemma mysql56_query_files:
  assumes "PT_REGS_PARM1 ctx = COM_QUERY" and "passes_filter c k (Some ctx)"
    and "read_mem (k_user k) (min (unat (PT_REGS_PARM4 ctx)) 256) (PT_REGS_PARM3 ctx) = Some sql"
  shows "mysql56_query c k ctx s =
     (s\<lparr>sql_hash := snd (hash_update sql_hash_max (cur_pid k) (my_record k (PT_REGS_PARM4 ctx) sql)
        (sql_hash s))\<rparr>, 0)"
proof -
  let ?n = "min (unat (PT_REGS_PARM4 ctx)) 256"
  have len: "length sql = ?n" using assms(3) by (rule length_read_mem)
  have q: "probe_read_user_n k (unat (clip_mysql (PT_REGS_PARM4 ctx))) (replicate 256 0)
      (PT_REGS_PARM3 ctx) = (0, sql @ replicate (256 - length sql) 0)"
    using probe_read_user_n_ok [OF assms(3), of "replicate 256 0"] len
    by (simp add: unat_clip_mysql)
  have l: "clip_mysql (PT_REGS_PARM4 ctx) = of_nat (length sql)"
    by (simp add: len unat_clip_mysql [symmetric])
  show ?thesis
    using assms(1,2) q l
    by (simp add: mysql56_query_def my_data_zero_def my_record_def Let_def)
qed

lemma mysql56_return_reports:
  assumes "passes_filter c k (Some ctx)" and "map_lookup (sql_hash s) (cur_pid k) = Some d"
  shows "mysql_events (fst (mysql56_query_return c k ctx s)) =
     mysql_events s @ [d\<lparr>my_retval := ucast (PT_REGS_RC ctx)\<rparr>]"
    and "map_lookup (sql_hash (fst (mysql56_query_return c k ctx s))) (cur_pid k) =
     Some (d\<lparr>my_retval := ucast (PT_REGS_RC ctx)\<rparr>)"
  using assms by (simp_all add: mysql56_query_return_def mysql_report_def Let_def)

subsection \<open>Properties\<close>

text \<open>
  In every state the MySQL object can reach, the query map holds at most 1024 entries, one per
  process, each filed under its own process id; and every filed or reported record has a query
  buffer of 256 bytes and a length that is the original length cut to 256, so the consumer's slice
  \<open>Query[:Len]\<close> never leaves the buffer; and its process is one the filter lets through.
\<close>

theorem mysql_reachable_invariant: "mysql_reachable c s \<Longrightarrow> mysql_inv c s"
  by (rule mysql_reachable_inv)

theorem mysql_reachable_invariant_witness:
  "mysql_inv rodata_default (fst (mysql56_query rodata_default kernel0
     (X86 (regs0\<lparr>x_di := 3, x_cx := 1000\<rparr>)) mysql_init))"
proof -
  have "mysql_reachable rodata_default (fst (mysql56_query rodata_default kernel0
     (X86 (regs0\<lparr>x_di := 3, x_cx := 1000\<rparr>)) mysql_init))"
    by (rule mysql_reachable.my_step [OF mysql_reachable.my_init mysql_step.my56])
  then show ?thesis by (rule mysql_reachable_invariant)
qed

text \<open>
  A server process that passes the filter dispatches a query whose first 256 bytes (or all of
  it) are readable, while the map has room; the object then runs any number of times for other
  processes; then \<open>dispatch_command\<close> returns. Exactly one record is reported: these bytes, padded
  with zeros, with the full and the cut length, the entry time and the low byte of the return value.
\<close>

theorem mysql56_query_reported:
  assumes "PT_REGS_PARM1 ctx1 = COM_QUERY"
    and "passes_filter c k1 (Some ctx1)" and "passes_filter c k2 (Some ctx2)"
    and "cur_pid k2 = cur_pid k1" and "map_room sql_hash_max (cur_pid k1) (sql_hash s)"
    and "read_mem (k_user k1) (min (unat (PT_REGS_PARM4 ctx1)) 256) (PT_REGS_PARM3 ctx1) = Some sql"
    and "others (mysql_step c) cur_pid (cur_pid k1) (fst (mysql56_query c k1 ctx1 s)) t"
  shows "mysql_events (fst (mysql56_query_return c k2 ctx2 t)) =
     mysql_events t @ [(my_record k1 (PT_REGS_PARM4 ctx1) sql)\<lparr>my_retval := ucast (PT_REGS_RC ctx2)\<rparr>]"
proof -
  have "map_lookup (sql_hash (fst (mysql56_query c k1 ctx1 s))) (cur_pid k1) =
      Some (my_record k1 (PT_REGS_PARM4 ctx1) sql)"
    using assms(5) by (simp add: mysql56_query_files [OF assms(1,2,6)] map_lookup_hash_update)
  then have "map_lookup (sql_hash t) (cur_pid k2) = Some (my_record k1 (PT_REGS_PARM4 ctx1) sql)"
    using mysql.others_keep [OF assms(7)] assms(4) by simp
  then show ?thesis by (rule mysql56_return_reports [OF assms(3)])
qed

theorem mysql56_query_reported_witness:
  "mysql_events (fst (mysql56_query_return rodata_default kernel0 (X86 regs0)
     (fst (mysql56_query rodata_default (kernel0\<lparr>k_user := (\<lambda>_. Some 65)\<rparr>)
        (X86 (regs0\<lparr>x_di := 3, x_cx := 2\<rparr>)) mysql_init)))) =
   [(my_record kernel0 2 [65, 65])\<lparr>my_retval := 0\<rparr>]"
proof -
  let ?k = "kernel0\<lparr>k_user := (\<lambda>_. Some 65)\<rparr>"
  let ?r = "X86 (regs0\<lparr>x_di := 3, x_cx := 2\<rparr>)"
  have pf: "passes_filter rodata_default k (Some r)" for k r
    by (simp add: passes_filter_def rodata_default_def)
  have rep: "replicate 2 x = [x, x]" for x :: u8 by (simp add: numeral_2_eq_2)
  have "mysql_events (fst (mysql56_query_return rodata_default kernel0 (X86 regs0)
      (fst (mysql56_query rodata_default ?k ?r mysql_init)))) =
      mysql_events (fst (mysql56_query rodata_default ?k ?r mysql_init)) @
        [(my_record ?k (PT_REGS_PARM4 ?r) [65, 65])\<lparr>my_retval := ucast (PT_REGS_RC (X86 regs0))\<rparr>]"
    by (rule mysql56_query_reported [OF _ pf pf _ _ _ others.others_none])
      (simp_all add: COM_QUERY_def cur_pid_def map_room_def mysql_init_def sql_hash_max_def rep)
  then show ?thesis
    by (simp add: mysql56_query_def pf mysql_init_def my_record_def regs0_def cur_pid_def Let_def)
qed

text \<open>
  C30: The filed record survives the return: when the same process next dispatches a command that is
  not a query, the entry hook leaves the record in place and the return hook reports the old
  query a second time, with the new command's return value.
\<close>

theorem mysql56_reports_stale_query:
  assumes "passes_filter c k1 (Some ctx1)" and "passes_filter c k3 (Some ctx3)"
    and "cur_pid k2 = cur_pid k1" and "cur_pid k3 = cur_pid k1"
    and "map_lookup (sql_hash s) (cur_pid k1) = Some d"
    and "PT_REGS_PARM1 ctx2 \<noteq> COM_QUERY"
    and "t = fst (mysql56_query_return c k1 ctx1 s)"
    and "u = fst (mysql56_query c k2 ctx2 t)"
  shows "mysql_events (fst (mysql56_query_return c k3 ctx3 u)) =
     mysql_events s @ [d\<lparr>my_retval := ucast (PT_REGS_RC ctx1)\<rparr>, d\<lparr>my_retval := ucast (PT_REGS_RC ctx3)\<rparr>]"
proof -
  have u: "u = t" using assms(6,8) by (simp add: mysql56_query_def Let_def)
  have "map_lookup (sql_hash t) (cur_pid k3) = Some (d\<lparr>my_retval := ucast (PT_REGS_RC ctx1)\<rparr>)"
    using mysql56_return_reports(2) [OF assms(1,5)] assms(4,7) by simp
  then show ?thesis
    using mysql56_return_reports(1) [OF assms(2), of t] mysql56_return_reports(1) [OF assms(1,5)]
    by (simp add: u assms(7))
qed

theorem mysql56_reports_stale_query_witness:
  "\<exists>s. length (mysql_events s) = 0 \<and>
     length (mysql_events (fst (mysql56_query_return rodata_default kernel0 (X86 regs0)
       (fst (mysql56_query rodata_default kernel0 (X86 (regs0\<lparr>x_di := 1\<rparr>))
          (fst (mysql56_query_return rodata_default kernel0 (X86 regs0) s))))))) = 2"
proof -
  let ?s = "\<lparr>sql_hash = [(100, my_data_zero)], mysql_events = []\<rparr>"
  have pf: "passes_filter rodata_default k (Some r)" for k r
    by (simp add: passes_filter_def rodata_default_def)
  have "map_lookup (sql_hash ?s) (cur_pid kernel0) = Some my_data_zero"
    by (simp add: map_lookup_def)
  from mysql56_reports_stale_query [where ?ctx1.0 = "X86 regs0" and
      ?ctx2.0 = "X86 (regs0\<lparr>x_di := 1\<rparr>)" and ?ctx3.0 = "X86 regs0",
      OF pf pf refl refl this _ refl refl]
  have "length (mysql_events (fst (mysql56_query_return rodata_default kernel0 (X86 regs0)
       (fst (mysql56_query rodata_default kernel0 (X86 (regs0\<lparr>x_di := 1\<rparr>))
          (fst (mysql56_query_return rodata_default kernel0 (X86 regs0) ?s))))))) = 2"
    by (simp add: COM_QUERY_def)
  then show ?thesis by (intro exI [of _ ?s]) simp
qed

text \<open>
  Where \<open>bpf_probe_read_user\<close> does not reach the kernel stack and a failed read leaves zeros or
  leaves the destination alone, \<open>mysql57_query\<close> files every query with length 0, whatever length
  the server passed: the length is read from the address of a kernel stack variable. The consumer
  prints \<open>Query[:Len]\<close>, the empty string.
\<close>

theorem mysql57_length_lost:
  assumes "PT_REGS_PARM3 ctx = COM_QUERY" and "passes_filter c k (Some ctx)"
    and "map_room sql_hash_max (cur_pid k) (sql_hash s)"
    and "read_mem (k_user k) 8 (k_stack_addr k ''query'' + 8) = None"
    and "k_on_fault k 0 = 0"
  shows "\<exists>d. map_lookup (sql_hash (fst (mysql57_query c k ctx s))) (cur_pid k) = Some d \<and>
     my_alllen d = 0 \<and> my_len d = 0"
proof -
  have "snd (probe_user_word k (0 :: u64) (k_stack_addr k ''query'' + 8)) = le_word (replicate 8 0)"
    using assms(4,5) by (simp add: probe_user_word_def probe_read_user_fail)
  also have "\<dots> = (0 :: u64)" by simp
  finally show ?thesis
    using assms(1-3)
    by (simp add: mysql57_query_def Let_def my_data_zero_def map_lookup_hash_update clip_mysql_def
        MAX_DATA_SIZE_MYSQL_def)
qed

theorem mysql57_length_lost_witness:
  "\<exists>d. map_lookup (sql_hash (fst (mysql57_query rodata_default kernel0
       (X86 (regs0\<lparr>x_dx := 3, x_cx := 20\<rparr>)) mysql_init))) 100 = Some d \<and> my_len d = 0"
proof -
  have pf: "passes_filter rodata_default k (Some r)" for k r
    by (simp add: passes_filter_def rodata_default_def)
  show ?thesis
    using mysql57_length_lost [of "X86 (regs0\<lparr>x_dx := 3, x_cx := 20\<rparr>)" rodata_default kernel0 mysql_init]
    by (auto simp: pf COM_QUERY_def map_room_def mysql_init_def sql_hash_max_def)
qed

end
