(* ===== verification/Ssl_Capture.thy ===== *)
theory Ssl_Capture
  imports Ecapture_Filter
begin

text \<open>
  What the three plaintext probes (kern/openssl.h, kern/gnutls.h, kern/nspr_kern.c) have in
  common: the direction of a call, the clipping of a length to the 16 KiB of an event, and the
  contract of an entry hook paired with its return hook (\<open>probe_pair\<close>), from which the pairing
  property of each probe is derived.
\<close>

datatype ssl_data_event_type = kSSLRead | kSSLWrite

definition MAX_DATA_SIZE_OPENSSL :: s32 where
  "MAX_DATA_SIZE_OPENSSL = 1024 * 16"

definition clip_openssl :: "s32 \<Rightarrow> s32" where
  "clip_openssl len =
     (if sint len < sint MAX_DATA_SIZE_OPENSSL then len AND (MAX_DATA_SIZE_OPENSSL - 1)
      else MAX_DATA_SIZE_OPENSSL)"

lemma unat_clip_openssl:
  assumes "0 \<le> sint len"
  shows "unat (clip_openssl len) = min (unat len) 16384"
proof -
  have lt: "sint len < 16384 \<longleftrightarrow> unat len < 16384"
    using sint_nonneg [OF assms] by linarith
  show ?thesis
  proof (cases "unat len < 16384")
    case True
    then have "len AND mask 14 = len" by (intro and_mask_id) simp
    then have "len AND 16383 = len" by (simp add: mask_eq_decr_exp)
    with True lt show ?thesis
      by (simp add: clip_openssl_def MAX_DATA_SIZE_OPENSSL_def)
  next
    case False
    with lt show ?thesis
      by (simp add: clip_openssl_def MAX_DATA_SIZE_OPENSSL_def)
  qed
qed

lemma sint_clip_openssl:
  assumes "0 \<le> sint len"
  shows "sint (clip_openssl len) = min (sint len) 16384"
proof -
  have "sint (clip_openssl len) = int (min (unat len) 16384)"
    using unat_clip_openssl [OF assms] by (subst sint_small) simp_all
  then show ?thesis using sint_nonneg [OF assms] by (simp add: of_nat_min)
qed

lemma ucast_tid_mask: "(ucast (w AND 0xffffffff :: u64) :: u32) = ucast w"
proof -
  have "w AND 0xffffffff = w AND mask 32" by (simp add: mask_eq_decr_exp)
  then show ?thesis by (simp only:) (rule bit_word_eqI, auto simp: bit_simps)
qed

subsection \<open>An entry hook and its return hook\<close>

text \<open>
  \<open>entry\<close> records something about a call (\<open>arg\<close>) under the calling thread, \<open>ret\<close> looks the
  record up, reports (\<open>report\<close>) and removes it. \<open>step\<close> is the whole object: no program run of
  another thread touches the record.
\<close>

locale probe_pair =
  fixes entry :: "rodata \<Rightarrow> kernel \<Rightarrow> pt_regs \<Rightarrow> 's \<Rightarrow> 's \<times> int"
    and ret :: "rodata \<Rightarrow> kernel \<Rightarrow> pt_regs \<Rightarrow> 's \<Rightarrow> 's \<times> int"
    and step :: "rodata \<Rightarrow> kernel \<Rightarrow> 's \<Rightarrow> 's \<Rightarrow> bool"
    and pend :: "'s \<Rightarrow> u64 \<Rightarrow> 'a option"
    and room :: "u64 \<Rightarrow> 's \<Rightarrow> bool"
    and out :: "'s \<Rightarrow> 'e list"
    and arg :: "kernel \<Rightarrow> pt_regs \<Rightarrow> 's \<Rightarrow> 'a"
    and report :: "kernel \<Rightarrow> pt_regs \<Rightarrow> 'a \<Rightarrow> 's \<Rightarrow> 'e list"
  assumes entry_pend: "passes_filter c k (Some r) \<Longrightarrow> room (k_pid_tgid k) s \<Longrightarrow>
      pend (fst (entry c k r s)) (k_pid_tgid k) = Some (arg k r s)"
    and entry_out: "out (fst (entry c k r s)) = out s"
    and ret_out: "passes_filter c k (Some r) \<Longrightarrow> out (fst (ret c k r s)) = out s @
      (case pend s (k_pid_tgid k) of None \<Rightarrow> [] | Some a \<Rightarrow> report k r a s)"
    and ret_pend: "passes_filter c k (Some r) \<Longrightarrow> pend (fst (ret c k r s)) (k_pid_tgid k) = None"
    and rejected: "\<not> passes_filter c k (Some r) \<Longrightarrow> fst (entry c k r s) = s \<and> fst (ret c k r s) = s"
    and step_pend: "step c k s t \<Longrightarrow> k_pid_tgid k \<noteq> p \<Longrightarrow> pend t p = pend s p"
begin

sublocale thread: task_isolated "step c" k_pid_tgid pend for c
  by unfold_locales (rule step_pend)

lemma call_reported:
  assumes "passes_filter c k1 (Some r1)" and "passes_filter c k2 (Some r2)"
    and "k_pid_tgid k2 = k_pid_tgid k1" and "room (k_pid_tgid k1) s"
    and "others (step c) k_pid_tgid (k_pid_tgid k1) (fst (entry c k1 r1 s)) t"
  shows "out (fst (ret c k2 r2 t)) = out t @ report k2 r2 (arg k1 r1 s) t"
    and "pend (fst (ret c k2 r2 t)) (k_pid_tgid k1) = None"
proof -
  have "pend t (k_pid_tgid k2) = Some (arg k1 r1 s)"
    using thread.others_keep [OF assms(5)] entry_pend [OF assms(1,4)] assms(3) by simp
  then show "out (fst (ret c k2 r2 t)) = out t @ report k2 r2 (arg k1 r1 s) t"
    using ret_out [OF assms(2)] by simp
  show "pend (fst (ret c k2 r2 t)) (k_pid_tgid k1) = None"
    using ret_pend [OF assms(2), of t] assms(3) by simp
qed

lemma unmatched_return_silent:
  "pend s (k_pid_tgid k) = None \<Longrightarrow> out (fst (ret c k r s)) = out s"
  using ret_out [of c k r s] rejected [of c k r s] by (cases "passes_filter c k (Some r)") auto

end

end
