(* ===== verification/Nspr_Probe.thy ===== *)
theory Nspr_Probe
  imports Ssl_Capture
begin

text \<open>
  kern/nspr_kern.c: plaintext capture for NSPR. The entry hooks of \<open>PR_Write\<close> and
  \<open>PR_Read\<close> remember the caller's buffer under its thread; the return hooks copy the buffer
  into the CPU's event (\<open>nspr_heap\<close>, the map \<open>data_buffer_heap\<close>) and report it.
\<close>

record nspr_event =
  ne_type :: ssl_data_event_type
  ne_timestamp_ns :: u64
  ne_pid :: u32
  ne_tid :: u32
  ne_data :: bytes
  ne_data_len :: s32
  ne_comm :: bytes

record nspr_state =
  nspr_active_read :: "(u64, u64) bmap"
  nspr_active_write :: "(u64, u64) bmap"
  nspr_heap :: "nat \<Rightarrow> nspr_event"
  nspr_events :: "nspr_event list"

definition nspr_active_max :: nat where
  "nspr_active_max = 1024"

text \<open>Map memory starts zeroed; \<open>kSSLRead\<close> is the enumerator 0.\<close>

definition nspr_init :: nspr_state where
  "nspr_init = \<lparr>nspr_active_read = [], nspr_active_write = [],
     nspr_heap = (\<lambda>_. \<lparr>ne_type = kSSLRead, ne_timestamp_ns = 0, ne_pid = 0, ne_tid = 0,
       ne_data = replicate 16384 0, ne_data_len = 0, ne_comm = replicate TASK_COMM_LEN 0\<rparr>),
     nspr_events = []\<rparr>"

definition nspr_create_ssl_data_event :: "kernel \<Rightarrow> u64 \<Rightarrow> nspr_state \<Rightarrow> nspr_event option" where
  "nspr_create_ssl_data_event k current_pid_tgid s =
     (case array1_lookup 0 (nspr_heap s (k_cpu k)) of
        None \<Rightarrow> None
      | Some event \<Rightarrow> Some (event\<lparr>ne_timestamp_ns := k_ktime_ns k,
          ne_pid := ucast (drop_bit 32 current_pid_tgid),
          ne_tid := ucast (current_pid_tgid AND 0xffffffff)\<rparr>))"

definition nspr_process_SSL_data ::
    "kernel \<Rightarrow> pt_regs \<Rightarrow> u64 \<Rightarrow> ssl_data_event_type \<Rightarrow> u64 \<Rightarrow> nspr_state \<Rightarrow> nspr_state" where
  "nspr_process_SSL_data k ctx pid_tgid type buf s =
     (let len = (ucast (PT_REGS_RC ctx) :: s32) in
      if sint len < 0 then s
      else
      case nspr_create_ssl_data_event k pid_tgid s of
        None \<Rightarrow> s
      | Some event \<Rightarrow>
          let event = event\<lparr>ne_type := type, ne_data_len := clip_openssl len\<rparr>;
              event = event\<lparr>ne_data :=
                snd (probe_read_user_n k (unat (ne_data_len event)) (ne_data event) buf)\<rparr>;
              event = event\<lparr>ne_comm := k_comm k\<rparr>;
              s = s\<lparr>nspr_heap := (nspr_heap s)(k_cpu k := event)\<rparr>
          in s\<lparr>nspr_events := nspr_events s @ [event]\<rparr>)"

definition nspr_probe_entry_SSL_write ::
    "rodata \<Rightarrow> kernel \<Rightarrow> pt_regs \<Rightarrow> nspr_state \<Rightarrow> nspr_state \<times> int" where
  "nspr_probe_entry_SSL_write c k ctx s =
     (let current_pid_tgid = k_pid_tgid k in
      if \<not> passes_filter c k (Some ctx) then (s, 0)
      else
        let buf = PT_REGS_PARM2 ctx in
        (s\<lparr>nspr_active_write := snd (hash_update nspr_active_max current_pid_tgid buf (nspr_active_write s))\<rparr>, 0))"

definition nspr_probe_ret_SSL_write ::
    "rodata \<Rightarrow> kernel \<Rightarrow> pt_regs \<Rightarrow> nspr_state \<Rightarrow> nspr_state \<times> int" where
  "nspr_probe_ret_SSL_write c k ctx s =
     (let current_pid_tgid = k_pid_tgid k in
      if \<not> passes_filter c k (Some ctx) then (s, 0)
      else
        let s = (case map_lookup (nspr_active_write s) current_pid_tgid of
                   None \<Rightarrow> s
                 | Some buf \<Rightarrow> nspr_process_SSL_data k ctx current_pid_tgid kSSLWrite buf s)
        in (s\<lparr>nspr_active_write := map_delete current_pid_tgid (nspr_active_write s)\<rparr>, 0))"

definition nspr_probe_entry_SSL_read ::
    "rodata \<Rightarrow> kernel \<Rightarrow> pt_regs \<Rightarrow> nspr_state \<Rightarrow> nspr_state \<times> int" where
  "nspr_probe_entry_SSL_read c k ctx s =
     (let current_pid_tgid = k_pid_tgid k in
      if \<not> passes_filter c k (Some ctx) then (s, 0)
      else
        let buf = PT_REGS_PARM2 ctx in
        (s\<lparr>nspr_active_read := snd (hash_update nspr_active_max current_pid_tgid buf (nspr_active_read s))\<rparr>, 0))"

definition nspr_probe_ret_SSL_read ::
    "rodata \<Rightarrow> kernel \<Rightarrow> pt_regs \<Rightarrow> nspr_state \<Rightarrow> nspr_state \<times> int" where
  "nspr_probe_ret_SSL_read c k ctx s =
     (let current_pid_tgid = k_pid_tgid k in
      if \<not> passes_filter c k (Some ctx) then (s, 0)
      else
        let s = (case map_lookup (nspr_active_read s) current_pid_tgid of
                   None \<Rightarrow> s
                 | Some buf \<Rightarrow> nspr_process_SSL_data k ctx current_pid_tgid kSSLRead buf s)
        in (s\<lparr>nspr_active_read := map_delete current_pid_tgid (nspr_active_read s)\<rparr>, 0))"

lemmas nspr_handler_defs = nspr_probe_entry_SSL_write_def nspr_probe_ret_SSL_write_def
  nspr_probe_entry_SSL_read_def nspr_probe_ret_SSL_read_def

subsection \<open>What a return hook reports\<close>

text \<open>
  The event of a call: the bytes at the caller's buffer, over whatever the CPU's buffer held
  before.
\<close>

definition nspr_report ::
    "ssl_data_event_type \<Rightarrow> kernel \<Rightarrow> pt_regs \<Rightarrow> u64 \<Rightarrow> nspr_state \<Rightarrow> nspr_event list" where
  "nspr_report type k ctx buf s =
     (let len = (ucast (PT_REGS_RC ctx) :: s32) in
      if sint len < 0 then []
      else [\<lparr>ne_type = type, ne_timestamp_ns = k_ktime_ns k, ne_pid = cur_pid k, ne_tid = cur_tid k,
        ne_data = snd (probe_read_user_n k (unat (clip_openssl len)) (ne_data (nspr_heap s (k_cpu k))) buf),
        ne_data_len = clip_openssl len, ne_comm = k_comm k\<rparr>])"

lemma nspr_process_report:
  "nspr_process_SSL_data k ctx (k_pid_tgid k) type buf s =
     s\<lparr>nspr_heap := (case nspr_report type k ctx buf s of [] \<Rightarrow> nspr_heap s | e # _ \<Rightarrow> (nspr_heap s)(k_cpu k := e)),
       nspr_events := nspr_events s @ nspr_report type k ctx buf s\<rparr>"
  by (cases "nspr_heap s (k_cpu k)") (simp add: nspr_process_SSL_data_def nspr_report_def
      nspr_create_ssl_data_event_def Let_def ucast_tid_mask cur_pid_def cur_tid_def)

lemma nspr_process_maps [simp]:
  "nspr_active_read (nspr_process_SSL_data k ctx pid_tgid type buf s) = nspr_active_read s"
  "nspr_active_write (nspr_process_SSL_data k ctx pid_tgid type buf s) = nspr_active_write s"
  by (simp_all add: nspr_process_SSL_data_def Let_def split: option.split)

inductive nspr_step :: "rodata \<Rightarrow> kernel \<Rightarrow> nspr_state \<Rightarrow> nspr_state \<Rightarrow> bool" for c where
  nspr_ew: "nspr_step c k s (fst (nspr_probe_entry_SSL_write c k ctx s))"
| nspr_rw: "nspr_step c k s (fst (nspr_probe_ret_SSL_write c k ctx s))"
| nspr_er: "nspr_step c k s (fst (nspr_probe_entry_SSL_read c k ctx s))"
| nspr_rr: "nspr_step c k s (fst (nspr_probe_ret_SSL_read c k ctx s))"

inductive_cases nspr_stepE [elim]: "nspr_step c k s t"

lemma nspr_step_isolated:
  assumes "nspr_step c k s t" and "k_pid_tgid k \<noteq> p"
  shows "map_lookup (nspr_active_write t) p = map_lookup (nspr_active_write s) p"
    and "map_lookup (nspr_active_read t) p = map_lookup (nspr_active_read s) p"
  using assms
  by (auto elim!: nspr_stepE simp: nspr_handler_defs Let_def map_lookup_hash_update split: option.splits)

interpretation nspr_write: probe_pair nspr_probe_entry_SSL_write nspr_probe_ret_SSL_write nspr_step
    "\<lambda>s. map_lookup (nspr_active_write s)" "\<lambda>p s. map_room nspr_active_max p (nspr_active_write s)"
    nspr_events "\<lambda>k r s. PT_REGS_PARM2 r" "nspr_report kSSLWrite"
  by unfold_locales
    (auto simp: nspr_probe_entry_SSL_write_def nspr_probe_ret_SSL_write_def Let_def map_lookup_hash_update
      nspr_process_report nspr_step_isolated split: option.split)

interpretation nspr_read: probe_pair nspr_probe_entry_SSL_read nspr_probe_ret_SSL_read nspr_step
    "\<lambda>s. map_lookup (nspr_active_read s)" "\<lambda>p s. map_room nspr_active_max p (nspr_active_read s)"
    nspr_events "\<lambda>k r s. PT_REGS_PARM2 r" "nspr_report kSSLRead"
  by unfold_locales
    (auto simp: nspr_probe_entry_SSL_read_def nspr_probe_ret_SSL_read_def Let_def map_lookup_hash_update
      nspr_process_report nspr_step_isolated split: option.split)

subsection \<open>Invariant\<close>

text \<open>
  The two maps are well formed, every CPU's buffer and every reported event has 16384 data bytes,
  and a reported event's length lies between 0 and 16384.
\<close>

definition nspr_event_ok :: "nspr_event \<Rightarrow> bool" where
  "nspr_event_ok e \<longleftrightarrow> length (ne_data e) = 16384 \<and> 0 \<le> sint (ne_data_len e) \<and> sint (ne_data_len e) \<le> 16384"

definition nspr_inv :: "nspr_state \<Rightarrow> bool" where
  "nspr_inv s \<longleftrightarrow> map_wf nspr_active_max (nspr_active_read s) \<and> map_wf nspr_active_max (nspr_active_write s) \<and>
     (\<forall>i. length (ne_data (nspr_heap s i)) = 16384) \<and> (\<forall>e \<in> set (nspr_events s). nspr_event_ok e)"

inductive nspr_reachable :: "rodata \<Rightarrow> nspr_state \<Rightarrow> bool" for c where
  nspr_start: "nspr_reachable c nspr_init"
| nspr_more: "nspr_reachable c s \<Longrightarrow> nspr_step c k s t \<Longrightarrow> nspr_reachable c t"

lemma nspr_report_ok:
  "length (ne_data (nspr_heap s (k_cpu k))) = 16384 \<Longrightarrow> e \<in> set (nspr_report type k ctx buf s) \<Longrightarrow> nspr_event_ok e"
  by (auto simp: nspr_report_def nspr_event_ok_def Let_def sint_clip_openssl split: if_splits)

lemma nspr_inv_process:
  assumes "nspr_inv s"
  shows "nspr_inv (nspr_process_SSL_data k ctx (k_pid_tgid k) type buf s)"
proof -
  have "\<forall>e \<in> set (nspr_report type k ctx buf s). nspr_event_ok e"
    using assms by (auto simp: nspr_inv_def intro: nspr_report_ok)
  with assms show ?thesis
    by (auto simp: nspr_inv_def nspr_process_report nspr_event_ok_def split: list.splits)
qed

lemma nspr_inv_set:
  assumes "nspr_inv s" and "map_wf nspr_active_max m"
  shows "nspr_inv (s\<lparr>nspr_active_write := m\<rparr>)" and "nspr_inv (s\<lparr>nspr_active_read := m\<rparr>)"
  using assms by (simp_all add: nspr_inv_def)

lemma nspr_inv_step: "nspr_step c k s t \<Longrightarrow> nspr_inv s \<Longrightarrow> nspr_inv t"
proof (erule nspr_stepE)
  assume inv: "nspr_inv s"
  then have wf: "map_wf nspr_active_max (nspr_active_read s)" "map_wf nspr_active_max (nspr_active_write s)"
    by (simp_all add: nspr_inv_def)
  note rules = nspr_inv_set nspr_inv_process inv wf map_wf_hash_update map_wf_delete
  show "nspr_inv t" if "t = fst (nspr_probe_entry_SSL_write c k ctx s)" for ctx
    using that by (auto simp: nspr_probe_entry_SSL_write_def Let_def intro: rules)
  show "nspr_inv t" if "t = fst (nspr_probe_ret_SSL_write c k ctx s)" for ctx
    using that by (auto simp: nspr_probe_ret_SSL_write_def Let_def intro: rules split: option.split)
  show "nspr_inv t" if "t = fst (nspr_probe_entry_SSL_read c k ctx s)" for ctx
    using that by (auto simp: nspr_probe_entry_SSL_read_def Let_def intro: rules)
  show "nspr_inv t" if "t = fst (nspr_probe_ret_SSL_read c k ctx s)" for ctx
    using that by (auto simp: nspr_probe_ret_SSL_read_def Let_def intro: rules split: option.split)
qed

lemma nspr_inv_init: "nspr_inv nspr_init"
  by (simp add: nspr_inv_def nspr_init_def)

lemma nspr_reachable_inv: "nspr_reachable c s \<Longrightarrow> nspr_inv s"
  by (induction rule: nspr_reachable.induct) (auto intro: nspr_inv_init nspr_inv_step)

lemma nspr_others_inv: "others (nspr_step c) key p s t \<Longrightarrow> nspr_inv s \<Longrightarrow> nspr_inv t"
  by (induction rule: others.induct) (auto intro: nspr_inv_step)

lemma nspr_report_data:
  assumes "nspr_inv s" and "0 \<le> sint (ucast (PT_REGS_RC ctx) :: s32)"
    and "read_mem (k_user k) (min (unat (ucast (PT_REGS_RC ctx) :: s32)) 16384) buf = Some bs"
  shows "\<exists>e. nspr_report type k ctx buf s = [e] \<and> ne_type e = type \<and> ne_pid e = cur_pid k \<and>
     ne_tid e = cur_tid k \<and> unat (ne_data_len e) = length bs \<and> take (length bs) (ne_data e) = bs \<and>
     ne_timestamp_ns e = k_ktime_ns k \<and> ne_comm e = k_comm k"
proof -
  let ?n = "min (unat (ucast (PT_REGS_RC ctx) :: s32)) 16384"
  have len: "length bs = ?n" using assms(3) by (rule length_read_mem)
  have "length (ne_data (nspr_heap s (k_cpu k))) = 16384" using assms(1) by (simp add: nspr_inv_def)
  then have "probe_read_user_n k ?n (ne_data (nspr_heap s (k_cpu k))) buf =
      (0, bs @ drop ?n (ne_data (nspr_heap s (k_cpu k))))"
    using assms(3) by (intro probe_read_user_n_ok) simp_all
  then show ?thesis
    using assms(2) len by (simp add: nspr_report_def Let_def unat_clip_openssl)
qed

subsection \<open>Properties\<close>

text \<open>
  In every state the NSPR object can reach, both argument maps hold at most 1024 entries with
  distinct threads, and every reported event has exactly 16384 data bytes and a length between 0
  and 16384, so a consumer that slices the data by the length stays inside the buffer.
\<close>

theorem nspr_reachable_invariant: "nspr_reachable c s \<Longrightarrow> nspr_inv s"
  by (rule nspr_reachable_inv)

theorem nspr_reachable_invariant_witness:
  "nspr_inv (fst (nspr_probe_entry_SSL_read rodata_default kernel0 (X86 regs0) nspr_init))"
  by (rule nspr_reachable_invariant [OF nspr_reachable.nspr_more [OF nspr_reachable.nspr_start nspr_step.nspr_er]])

text \<open>
  A thread that passes the filter enters a NSPR write (or read) while the argument map has room;
  then the object runs any number of times for other threads, on any CPU; then the call returns a
  non-negative length, and the first 16 KiB of that length are readable. The return hook reports
  exactly one event: it carries the thread's process and thread id, the direction, the clipped
  length, and its data starts with exactly these bytes; and the pending entry is gone.
\<close>

theorem nspr_call_reported:
  assumes "passes_filter c k1 (Some r1)" and "passes_filter c k2 (Some r2)"
    and "k_pid_tgid k2 = k_pid_tgid k1" and "nspr_inv s"
    and "0 \<le> sint (ucast (PT_REGS_RC r2) :: s32)"
    and "read_mem (k_user k2) (min (unat (ucast (PT_REGS_RC r2) :: s32)) 16384) (PT_REGS_PARM2 r1) = Some bs"
    and "ty = kSSLWrite \<and> enter = nspr_probe_entry_SSL_write \<and> return = nspr_probe_ret_SSL_write \<and>
           active = nspr_active_write \<or>
         ty = kSSLRead \<and> enter = nspr_probe_entry_SSL_read \<and> return = nspr_probe_ret_SSL_read \<and>
           active = nspr_active_read"
    and "map_room nspr_active_max (k_pid_tgid k1) (active s)"
    and "others (nspr_step c) k_pid_tgid (k_pid_tgid k1) (fst (enter c k1 r1 s)) t"
  shows "\<exists>e. nspr_events (fst (return c k2 r2 t)) = nspr_events t @ [e] \<and> ne_type e = ty \<and>
     ne_pid e = cur_pid k1 \<and> ne_tid e = cur_tid k1 \<and> unat (ne_data_len e) = length bs \<and>
     take (length bs) (ne_data e) = bs \<and>
     map_lookup (active (fst (return c k2 r2 t))) (k_pid_tgid k1) = None"
proof -
  have tids: "cur_pid k2 = cur_pid k1" "cur_tid k2 = cur_tid k1"
    using assms(3) by (simp_all add: cur_pid_def cur_tid_def)
  have "nspr_inv (fst (enter c k1 r1 s))"
    using assms(4,7) by (auto intro: nspr_inv_step [OF nspr_step.nspr_ew] nspr_inv_step [OF nspr_step.nspr_er])
  then have inv: "nspr_inv t" using assms(9) by (auto intro: nspr_others_inv)
  obtain e where e: "nspr_report ty k2 r2 (PT_REGS_PARM2 r1) t = [e]" "ne_type e = ty"
      "ne_pid e = cur_pid k1" "ne_tid e = cur_tid k1" "unat (ne_data_len e) = length bs"
      "take (length bs) (ne_data e) = bs"
    using nspr_report_data [OF inv assms(5,6), of ty] tids by auto
  have "nspr_events (fst (return c k2 r2 t)) = nspr_events t @ nspr_report ty k2 r2 (PT_REGS_PARM2 r1) t \<and>
      map_lookup (active (fst (return c k2 r2 t))) (k_pid_tgid k1) = None"
    using assms(7)
  proof (elim disjE)
    assume "ty = kSSLWrite \<and> enter = nspr_probe_entry_SSL_write \<and> return = nspr_probe_ret_SSL_write \<and>
        active = nspr_active_write"
    then show ?thesis
      using nspr_write.call_reported [OF assms(1-3)] assms(8,9) by simp
  next
    assume "ty = kSSLRead \<and> enter = nspr_probe_entry_SSL_read \<and> return = nspr_probe_ret_SSL_read \<and>
        active = nspr_active_read"
    then show ?thesis
      using nspr_read.call_reported [OF assms(1-3)] assms(8,9) by simp
  qed
  with e show ?thesis by auto
qed

theorem nspr_call_reported_witness:
  "\<exists>e. nspr_events (fst (nspr_probe_ret_SSL_write rodata_default (kernel0\<lparr>k_user := (\<lambda>_. Some 65)\<rparr>)
       (X86 (regs0\<lparr>x_ax := 2\<rparr>)) (fst (nspr_probe_entry_SSL_write rodata_default kernel0 (X86 regs0) nspr_init)))) = [e] \<and>
     ne_type e = kSSLWrite \<and> ne_pid e = 100 \<and> ne_tid e = 101 \<and> take 2 (ne_data e) = [65, 65]"
proof -
  let ?k = "kernel0\<lparr>k_user := (\<lambda>_. Some 65)\<rparr>"
  let ?t = "fst (nspr_probe_entry_SSL_write rodata_default kernel0 (X86 regs0) nspr_init)"
  have pf: "passes_filter rodata_default k (Some r)" for k r
    by (simp add: passes_filter_def rodata_default_def)
  have rep: "replicate 2 x = [x, x]" for x :: u8 by (simp add: numeral_2_eq_2)
  have "\<exists>e. nspr_events (fst (nspr_probe_ret_SSL_write rodata_default ?k (X86 (regs0\<lparr>x_ax := 2\<rparr>)) ?t)) =
      nspr_events ?t @ [e] \<and> ne_type e = kSSLWrite \<and> ne_pid e = cur_pid kernel0 \<and> ne_tid e = cur_tid kernel0 \<and>
      unat (ne_data_len e) = length [65 :: u8, 65] \<and> take (length [65 :: u8, 65]) (ne_data e) = [65, 65] \<and>
      map_lookup (nspr_active_write (fst (nspr_probe_ret_SSL_write rodata_default ?k
        (X86 (regs0\<lparr>x_ax := 2\<rparr>)) ?t))) (k_pid_tgid kernel0) = None"
    by (rule nspr_call_reported [OF pf pf _ nspr_inv_init _ _ disjI1 _ others.others_none])
      (simp_all add: rep map_room_def nspr_init_def nspr_active_max_def)
  moreover have "nspr_events ?t = []"
    by (simp add: nspr_write.entry_out nspr_init_def)
  ultimately show ?thesis by (auto simp: numeral_2_eq_2)
qed

end
