(* ===== verification/Gnutls_Probe.thy ===== *)
theory Gnutls_Probe
  imports Ssl_Capture
begin

text \<open>
  kern/gnutls.h: plaintext capture for GnuTLS. The entry hooks of \<open>gnutls_record_send\<close> and
  \<open>gnutls_record_recv\<close> remember the caller's buffer under its thread; the return hooks copy the buffer
  into the CPU's event (\<open>gnutls_heap\<close>, the map \<open>data_buffer_heap\<close>) and report it.
\<close>

record gnutls_event =
  ge_type :: ssl_data_event_type
  ge_timestamp_ns :: u64
  ge_pid :: u32
  ge_tid :: u32
  ge_data :: bytes
  ge_data_len :: s32
  ge_comm :: bytes

record gnutls_state =
  gnutls_active_read :: "(u64, u64) bmap"
  gnutls_active_write :: "(u64, u64) bmap"
  gnutls_heap :: "nat \<Rightarrow> gnutls_event"
  gnutls_events :: "gnutls_event list"

definition gnutls_active_max :: nat where
  "gnutls_active_max = 1024"

text \<open>Map memory starts zeroed; \<open>kSSLRead\<close> is the enumerator 0.\<close>

definition gnutls_init :: gnutls_state where
  "gnutls_init = \<lparr>gnutls_active_read = [], gnutls_active_write = [],
     gnutls_heap = (\<lambda>_. \<lparr>ge_type = kSSLRead, ge_timestamp_ns = 0, ge_pid = 0, ge_tid = 0,
       ge_data = replicate 16384 0, ge_data_len = 0, ge_comm = replicate TASK_COMM_LEN 0\<rparr>),
     gnutls_events = []\<rparr>"

definition gnutls_create_ssl_data_event :: "kernel \<Rightarrow> u64 \<Rightarrow> gnutls_state \<Rightarrow> gnutls_event option" where
  "gnutls_create_ssl_data_event k current_pid_tgid s =
     (case array1_lookup 0 (gnutls_heap s (k_cpu k)) of
        None \<Rightarrow> None
      | Some event \<Rightarrow> Some (event\<lparr>ge_timestamp_ns := k_ktime_ns k,
          ge_pid := ucast (drop_bit 32 current_pid_tgid),
          ge_tid := ucast (current_pid_tgid AND 0xffffffff)\<rparr>))"

definition gnutls_process_SSL_data ::
    "kernel \<Rightarrow> pt_regs \<Rightarrow> u64 \<Rightarrow> ssl_data_event_type \<Rightarrow> u64 \<Rightarrow> gnutls_state \<Rightarrow> gnutls_state" where
  "gnutls_process_SSL_data k ctx pid_tgid type buf s =
     (let len = (ucast (PT_REGS_RC ctx) :: s32) in
      if sint len < 0 then s
      else
      case gnutls_create_ssl_data_event k pid_tgid s of
        None \<Rightarrow> s
      | Some event \<Rightarrow>
          let event = event\<lparr>ge_type := type, ge_data_len := clip_openssl len\<rparr>;
              event = event\<lparr>ge_data :=
                snd (probe_read_user_n k (unat (ge_data_len event)) (ge_data event) buf)\<rparr>;
              event = event\<lparr>ge_comm := k_comm k\<rparr>;
              s = s\<lparr>gnutls_heap := (gnutls_heap s)(k_cpu k := event)\<rparr>
          in s\<lparr>gnutls_events := gnutls_events s @ [event]\<rparr>)"

definition gnutls_probe_entry_SSL_write ::
    "rodata \<Rightarrow> kernel \<Rightarrow> pt_regs \<Rightarrow> gnutls_state \<Rightarrow> gnutls_state \<times> int" where
  "gnutls_probe_entry_SSL_write c k ctx s =
     (let current_pid_tgid = k_pid_tgid k in
      if \<not> passes_filter c k (Some ctx) then (s, 0)
      else
        let buf = PT_REGS_PARM2 ctx in
        (s\<lparr>gnutls_active_write := snd (hash_update gnutls_active_max current_pid_tgid buf (gnutls_active_write s))\<rparr>, 0))"

definition gnutls_probe_ret_SSL_write ::
    "rodata \<Rightarrow> kernel \<Rightarrow> pt_regs \<Rightarrow> gnutls_state \<Rightarrow> gnutls_state \<times> int" where
  "gnutls_probe_ret_SSL_write c k ctx s =
     (let current_pid_tgid = k_pid_tgid k in
      if \<not> passes_filter c k (Some ctx) then (s, 0)
      else
        let s = (case map_lookup (gnutls_active_write s) current_pid_tgid of
                   None \<Rightarrow> s
                 | Some buf \<Rightarrow> gnutls_process_SSL_data k ctx current_pid_tgid kSSLWrite buf s)
        in (s\<lparr>gnutls_active_write := map_delete current_pid_tgid (gnutls_active_write s)\<rparr>, 0))"

definition gnutls_probe_entry_SSL_read ::
    "rodata \<Rightarrow> kernel \<Rightarrow> pt_regs \<Rightarrow> gnutls_state \<Rightarrow> gnutls_state \<times> int" where
  "gnutls_probe_entry_SSL_read c k ctx s =
     (let current_pid_tgid = k_pid_tgid k in
      if \<not> passes_filter c k (Some ctx) then (s, 0)
      else
        let buf = PT_REGS_PARM2 ctx in
        (s\<lparr>gnutls_active_read := snd (hash_update gnutls_active_max current_pid_tgid buf (gnutls_active_read s))\<rparr>, 0))"

definition gnutls_probe_ret_SSL_read ::
    "rodata \<Rightarrow> kernel \<Rightarrow> pt_regs \<Rightarrow> gnutls_state \<Rightarrow> gnutls_state \<times> int" where
  "gnutls_probe_ret_SSL_read c k ctx s =
     (let current_pid_tgid = k_pid_tgid k in
      if \<not> passes_filter c k (Some ctx) then (s, 0)
      else
        let s = (case map_lookup (gnutls_active_read s) current_pid_tgid of
                   None \<Rightarrow> s
                 | Some buf \<Rightarrow> gnutls_process_SSL_data k ctx current_pid_tgid kSSLRead buf s)
        in (s\<lparr>gnutls_active_read := map_delete current_pid_tgid (gnutls_active_read s)\<rparr>, 0))"

lemmas gnutls_handler_defs = gnutls_probe_entry_SSL_write_def gnutls_probe_ret_SSL_write_def
  gnutls_probe_entry_SSL_read_def gnutls_probe_ret_SSL_read_def

subsection \<open>What a return hook reports\<close>

text \<open>
  The event of a call: the bytes at the caller's buffer, over whatever the CPU's buffer held
  before.
\<close>

definition gnutls_report ::
    "ssl_data_event_type \<Rightarrow> kernel \<Rightarrow> pt_regs \<Rightarrow> u64 \<Rightarrow> gnutls_state \<Rightarrow> gnutls_event list" where
  "gnutls_report type k ctx buf s =
     (let len = (ucast (PT_REGS_RC ctx) :: s32) in
      if sint len < 0 then []
      else [\<lparr>ge_type = type, ge_timestamp_ns = k_ktime_ns k, ge_pid = cur_pid k, ge_tid = cur_tid k,
        ge_data = snd (probe_read_user_n k (unat (clip_openssl len)) (ge_data (gnutls_heap s (k_cpu k))) buf),
        ge_data_len = clip_openssl len, ge_comm = k_comm k\<rparr>])"

lemma gnutls_process_report:
  "gnutls_process_SSL_data k ctx (k_pid_tgid k) type buf s =
     s\<lparr>gnutls_heap := (case gnutls_report type k ctx buf s of [] \<Rightarrow> gnutls_heap s | e # _ \<Rightarrow> (gnutls_heap s)(k_cpu k := e)),
       gnutls_events := gnutls_events s @ gnutls_report type k ctx buf s\<rparr>"
  by (cases "gnutls_heap s (k_cpu k)") (simp add: gnutls_process_SSL_data_def gnutls_report_def
      gnutls_create_ssl_data_event_def Let_def ucast_tid_mask cur_pid_def cur_tid_def)

lemma gnutls_process_maps [simp]:
  "gnutls_active_read (gnutls_process_SSL_data k ctx pid_tgid type buf s) = gnutls_active_read s"
  "gnutls_active_write (gnutls_process_SSL_data k ctx pid_tgid type buf s) = gnutls_active_write s"
  by (simp_all add: gnutls_process_SSL_data_def Let_def split: option.split)

inductive gnutls_step :: "rodata \<Rightarrow> kernel \<Rightarrow> gnutls_state \<Rightarrow> gnutls_state \<Rightarrow> bool" for c where
  gnutls_ew: "gnutls_step c k s (fst (gnutls_probe_entry_SSL_write c k ctx s))"
| gnutls_rw: "gnutls_step c k s (fst (gnutls_probe_ret_SSL_write c k ctx s))"
| gnutls_er: "gnutls_step c k s (fst (gnutls_probe_entry_SSL_read c k ctx s))"
| gnutls_rr: "gnutls_step c k s (fst (gnutls_probe_ret_SSL_read c k ctx s))"

inductive_cases gnutls_stepE [elim]: "gnutls_step c k s t"

lemma gnutls_step_isolated:
  assumes "gnutls_step c k s t" and "k_pid_tgid k \<noteq> p"
  shows "map_lookup (gnutls_active_write t) p = map_lookup (gnutls_active_write s) p"
    and "map_lookup (gnutls_active_read t) p = map_lookup (gnutls_active_read s) p"
  using assms
  by (auto elim!: gnutls_stepE simp: gnutls_handler_defs Let_def map_lookup_hash_update split: option.splits)

interpretation gnutls_write: probe_pair gnutls_probe_entry_SSL_write gnutls_probe_ret_SSL_write gnutls_step
    "\<lambda>s. map_lookup (gnutls_active_write s)" "\<lambda>p s. map_room gnutls_active_max p (gnutls_active_write s)"
    gnutls_events "\<lambda>k r s. PT_REGS_PARM2 r" "gnutls_report kSSLWrite"
  by unfold_locales
    (auto simp: gnutls_probe_entry_SSL_write_def gnutls_probe_ret_SSL_write_def Let_def map_lookup_hash_update
      gnutls_process_report gnutls_step_isolated split: option.split)

interpretation gnutls_read: probe_pair gnutls_probe_entry_SSL_read gnutls_probe_ret_SSL_read gnutls_step
    "\<lambda>s. map_lookup (gnutls_active_read s)" "\<lambda>p s. map_room gnutls_active_max p (gnutls_active_read s)"
    gnutls_events "\<lambda>k r s. PT_REGS_PARM2 r" "gnutls_report kSSLRead"
  by unfold_locales
    (auto simp: gnutls_probe_entry_SSL_read_def gnutls_probe_ret_SSL_read_def Let_def map_lookup_hash_update
      gnutls_process_report gnutls_step_isolated split: option.split)

subsection \<open>Invariant\<close>

text \<open>
  The two maps are well formed, every CPU's buffer and every reported event has 16384 data bytes,
  and a reported event's length lies between 0 and 16384.
\<close>

definition gnutls_event_ok :: "gnutls_event \<Rightarrow> bool" where
  "gnutls_event_ok e \<longleftrightarrow> length (ge_data e) = 16384 \<and> 0 \<le> sint (ge_data_len e) \<and> sint (ge_data_len e) \<le> 16384"

definition gnutls_inv :: "gnutls_state \<Rightarrow> bool" where
  "gnutls_inv s \<longleftrightarrow> map_wf gnutls_active_max (gnutls_active_read s) \<and> map_wf gnutls_active_max (gnutls_active_write s) \<and>
     (\<forall>i. length (ge_data (gnutls_heap s i)) = 16384) \<and> (\<forall>e \<in> set (gnutls_events s). gnutls_event_ok e)"

inductive gnutls_reachable :: "rodata \<Rightarrow> gnutls_state \<Rightarrow> bool" for c where
  gnutls_start: "gnutls_reachable c gnutls_init"
| gnutls_more: "gnutls_reachable c s \<Longrightarrow> gnutls_step c k s t \<Longrightarrow> gnutls_reachable c t"

lemma gnutls_report_ok:
  "length (ge_data (gnutls_heap s (k_cpu k))) = 16384 \<Longrightarrow> e \<in> set (gnutls_report type k ctx buf s) \<Longrightarrow> gnutls_event_ok e"
  by (auto simp: gnutls_report_def gnutls_event_ok_def Let_def sint_clip_openssl split: if_splits)

lemma gnutls_inv_process:
  assumes "gnutls_inv s"
  shows "gnutls_inv (gnutls_process_SSL_data k ctx (k_pid_tgid k) type buf s)"
proof -
  have "\<forall>e \<in> set (gnutls_report type k ctx buf s). gnutls_event_ok e"
    using assms by (auto simp: gnutls_inv_def intro: gnutls_report_ok)
  with assms show ?thesis
    by (auto simp: gnutls_inv_def gnutls_process_report gnutls_event_ok_def split: list.splits)
qed

lemma gnutls_inv_set:
  assumes "gnutls_inv s" and "map_wf gnutls_active_max m"
  shows "gnutls_inv (s\<lparr>gnutls_active_write := m\<rparr>)" and "gnutls_inv (s\<lparr>gnutls_active_read := m\<rparr>)"
  using assms by (simp_all add: gnutls_inv_def)

lemma gnutls_inv_step: "gnutls_step c k s t \<Longrightarrow> gnutls_inv s \<Longrightarrow> gnutls_inv t"
proof (erule gnutls_stepE)
  assume inv: "gnutls_inv s"
  then have wf: "map_wf gnutls_active_max (gnutls_active_read s)" "map_wf gnutls_active_max (gnutls_active_write s)"
    by (simp_all add: gnutls_inv_def)
  note rules = gnutls_inv_set gnutls_inv_process inv wf map_wf_hash_update map_wf_delete
  show "gnutls_inv t" if "t = fst (gnutls_probe_entry_SSL_write c k ctx s)" for ctx
    using that by (auto simp: gnutls_probe_entry_SSL_write_def Let_def intro: rules)
  show "gnutls_inv t" if "t = fst (gnutls_probe_ret_SSL_write c k ctx s)" for ctx
    using that by (auto simp: gnutls_probe_ret_SSL_write_def Let_def intro: rules split: option.split)
  show "gnutls_inv t" if "t = fst (gnutls_probe_entry_SSL_read c k ctx s)" for ctx
    using that by (auto simp: gnutls_probe_entry_SSL_read_def Let_def intro: rules)
  show "gnutls_inv t" if "t = fst (gnutls_probe_ret_SSL_read c k ctx s)" for ctx
    using that by (auto simp: gnutls_probe_ret_SSL_read_def Let_def intro: rules split: option.split)
qed

lemma gnutls_inv_init: "gnutls_inv gnutls_init"
  by (simp add: gnutls_inv_def gnutls_init_def)

lemma gnutls_reachable_inv: "gnutls_reachable c s \<Longrightarrow> gnutls_inv s"
  by (induction rule: gnutls_reachable.induct) (auto intro: gnutls_inv_init gnutls_inv_step)

lemma gnutls_others_inv: "others (gnutls_step c) key p s t \<Longrightarrow> gnutls_inv s \<Longrightarrow> gnutls_inv t"
  by (induction rule: others.induct) (auto intro: gnutls_inv_step)

lemma gnutls_report_data:
  assumes "gnutls_inv s" and "0 \<le> sint (ucast (PT_REGS_RC ctx) :: s32)"
    and "read_mem (k_user k) (min (unat (ucast (PT_REGS_RC ctx) :: s32)) 16384) buf = Some bs"
  shows "\<exists>e. gnutls_report type k ctx buf s = [e] \<and> ge_type e = type \<and> ge_pid e = cur_pid k \<and>
     ge_tid e = cur_tid k \<and> unat (ge_data_len e) = length bs \<and> take (length bs) (ge_data e) = bs \<and>
     ge_timestamp_ns e = k_ktime_ns k \<and> ge_comm e = k_comm k"
proof -
  let ?n = "min (unat (ucast (PT_REGS_RC ctx) :: s32)) 16384"
  have len: "length bs = ?n" using assms(3) by (rule length_read_mem)
  have "length (ge_data (gnutls_heap s (k_cpu k))) = 16384" using assms(1) by (simp add: gnutls_inv_def)
  then have "probe_read_user_n k ?n (ge_data (gnutls_heap s (k_cpu k))) buf =
      (0, bs @ drop ?n (ge_data (gnutls_heap s (k_cpu k))))"
    using assms(3) by (intro probe_read_user_n_ok) simp_all
  then show ?thesis
    using assms(2) len by (simp add: gnutls_report_def Let_def unat_clip_openssl)
qed

subsection \<open>Properties\<close>

text \<open>
  In every state the GnuTLS object can reach, both argument maps hold at most 1024 entries with
  distinct threads, and every reported event has exactly 16384 data bytes and a length between 0
  and 16384, so a consumer that slices the data by the length stays inside the buffer.
\<close>

theorem gnutls_reachable_invariant: "gnutls_reachable c s \<Longrightarrow> gnutls_inv s"
  by (rule gnutls_reachable_inv)

theorem gnutls_reachable_invariant_witness:
  "gnutls_inv (fst (gnutls_probe_entry_SSL_read rodata_default kernel0 (X86 regs0) gnutls_init))"
  by (rule gnutls_reachable_invariant [OF gnutls_reachable.gnutls_more [OF gnutls_reachable.gnutls_start gnutls_step.gnutls_er]])

text \<open>
  A thread that passes the filter enters a GnuTLS write (or read) while the argument map has room;
  then the object runs any number of times for other threads, on any CPU; then the call returns a
  non-negative length, and the first 16 KiB of that length are readable. The return hook reports
  exactly one event: it carries the thread's process and thread id, the direction, the clipped
  length, and its data starts with exactly these bytes; and the pending entry is gone.
\<close>

theorem gnutls_call_reported:
  assumes "passes_filter c k1 (Some r1)" and "passes_filter c k2 (Some r2)"
    and "k_pid_tgid k2 = k_pid_tgid k1" and "gnutls_inv s"
    and "0 \<le> sint (ucast (PT_REGS_RC r2) :: s32)"
    and "read_mem (k_user k2) (min (unat (ucast (PT_REGS_RC r2) :: s32)) 16384) (PT_REGS_PARM2 r1) = Some bs"
    and "ty = kSSLWrite \<and> enter = gnutls_probe_entry_SSL_write \<and> return = gnutls_probe_ret_SSL_write \<and>
           active = gnutls_active_write \<or>
         ty = kSSLRead \<and> enter = gnutls_probe_entry_SSL_read \<and> return = gnutls_probe_ret_SSL_read \<and>
           active = gnutls_active_read"
    and "map_room gnutls_active_max (k_pid_tgid k1) (active s)"
    and "others (gnutls_step c) k_pid_tgid (k_pid_tgid k1) (fst (enter c k1 r1 s)) t"
  shows "\<exists>e. gnutls_events (fst (return c k2 r2 t)) = gnutls_events t @ [e] \<and> ge_type e = ty \<and>
     ge_pid e = cur_pid k1 \<and> ge_tid e = cur_tid k1 \<and> unat (ge_data_len e) = length bs \<and>
     take (length bs) (ge_data e) = bs \<and>
     map_lookup (active (fst (return c k2 r2 t))) (k_pid_tgid k1) = None"
proof -
  have tids: "cur_pid k2 = cur_pid k1" "cur_tid k2 = cur_tid k1"
    using assms(3) by (simp_all add: cur_pid_def cur_tid_def)
  have "gnutls_inv (fst (enter c k1 r1 s))"
    using assms(4,7) by (auto intro: gnutls_inv_step [OF gnutls_step.gnutls_ew] gnutls_inv_step [OF gnutls_step.gnutls_er])
  then have inv: "gnutls_inv t" using assms(9) by (auto intro: gnutls_others_inv)
  obtain e where e: "gnutls_report ty k2 r2 (PT_REGS_PARM2 r1) t = [e]" "ge_type e = ty"
      "ge_pid e = cur_pid k1" "ge_tid e = cur_tid k1" "unat (ge_data_len e) = length bs"
      "take (length bs) (ge_data e) = bs"
    using gnutls_report_data [OF inv assms(5,6), of ty] tids by auto
  have "gnutls_events (fst (return c k2 r2 t)) = gnutls_events t @ gnutls_report ty k2 r2 (PT_REGS_PARM2 r1) t \<and>
      map_lookup (active (fst (return c k2 r2 t))) (k_pid_tgid k1) = None"
    using assms(7)
  proof (elim disjE)
    assume "ty = kSSLWrite \<and> enter = gnutls_probe_entry_SSL_write \<and> return = gnutls_probe_ret_SSL_write \<and>
        active = gnutls_active_write"
    then show ?thesis
      using gnutls_write.call_reported [OF assms(1-3)] assms(8,9) by simp
  next
    assume "ty = kSSLRead \<and> enter = gnutls_probe_entry_SSL_read \<and> return = gnutls_probe_ret_SSL_read \<and>
        active = gnutls_active_read"
    then show ?thesis
      using gnutls_read.call_reported [OF assms(1-3)] assms(8,9) by simp
  qed
  with e show ?thesis by auto
qed

theorem gnutls_call_reported_witness:
  "\<exists>e. gnutls_events (fst (gnutls_probe_ret_SSL_write rodata_default (kernel0\<lparr>k_user := (\<lambda>_. Some 65)\<rparr>)
       (X86 (regs0\<lparr>x_ax := 2\<rparr>)) (fst (gnutls_probe_entry_SSL_write rodata_default kernel0 (X86 regs0) gnutls_init)))) = [e] \<and>
     ge_type e = kSSLWrite \<and> ge_pid e = 100 \<and> ge_tid e = 101 \<and> take 2 (ge_data e) = [65, 65]"
proof -
  let ?k = "kernel0\<lparr>k_user := (\<lambda>_. Some 65)\<rparr>"
  let ?t = "fst (gnutls_probe_entry_SSL_write rodata_default kernel0 (X86 regs0) gnutls_init)"
  have pf: "passes_filter rodata_default k (Some r)" for k r
    by (simp add: passes_filter_def rodata_default_def)
  have rep: "replicate 2 x = [x, x]" for x :: u8 by (simp add: numeral_2_eq_2)
  have "\<exists>e. gnutls_events (fst (gnutls_probe_ret_SSL_write rodata_default ?k (X86 (regs0\<lparr>x_ax := 2\<rparr>)) ?t)) =
      gnutls_events ?t @ [e] \<and> ge_type e = kSSLWrite \<and> ge_pid e = cur_pid kernel0 \<and> ge_tid e = cur_tid kernel0 \<and>
      unat (ge_data_len e) = length [65 :: u8, 65] \<and> take (length [65 :: u8, 65]) (ge_data e) = [65, 65] \<and>
      map_lookup (gnutls_active_write (fst (gnutls_probe_ret_SSL_write rodata_default ?k
        (X86 (regs0\<lparr>x_ax := 2\<rparr>)) ?t))) (k_pid_tgid kernel0) = None"
    by (rule gnutls_call_reported [OF pf pf _ gnutls_inv_init _ _ disjI1 _ others.others_none])
      (simp_all add: rep map_room_def gnutls_init_def gnutls_active_max_def)
  moreover have "gnutls_events ?t = []"
    by (simp add: gnutls_write.entry_out gnutls_init_def)
  ultimately show ?thesis by (auto simp: numeral_2_eq_2)
qed

end
