(* ===== verification/Openssl_Probe.thy ===== *)
theory Openssl_Probe
  imports Ssl_Capture
begin

text \<open>
  kern/openssl.h: plaintext capture for OpenSSL and BoringSSL, and the tracking of TCP
  connections that lets user space attach addresses to the captured descriptors. This theory
  holds the state and the programs; Openssl_Capture holds what they guarantee.

  The object is compiled once per library version: \<open>openssl_table\<close> is the part of a version's
  offset table this file uses (\<open>HAS_SSL_ST_VERSION\<close> is false where the table defines
  \<open>SSL_SESSION_ST_SSL_VERSION\<close> instead and the read is compiled out). The field offsets of the kernel's
  \<open>struct sock\<close> and \<open>struct socket\<close> are relocated at load time, so they are an argument too
  (\<open>sock_layout\<close>); \<open>vmlinux_layout\<close> is the one of the bundled vmlinux header.
\<close>

definition INVALID_FD :: u32 where
  "INVALID_FD = 0"

definition DEFAULT_BIO_TYPE :: u32 where
  "DEFAULT_BIO_TYPE = 0"

definition AF_INET :: u16 where
  "AF_INET = 2"

definition AF_INET6 :: u16 where
  "AF_INET6 = 10"

record openssl_table =
  SSL_ST_VERSION :: u64
  HAS_SSL_ST_VERSION :: bool
  SSL_ST_RBIO :: u64
  SSL_ST_WBIO :: u64
  BIO_ST_NUM :: u64
  BIO_ST_METHOD :: u64
  BIO_METHOD_ST_TYPE :: u64

record sock_layout =
  SKC_ADDRPAIR :: u64
  SKC_PORTPAIR :: u64
  SKC_FAMILY :: u64
  SKC_V6_DADDR :: u64
  SKC_V6_RCV_SADDR :: u64
  SOCKET_SK :: u64

definition vmlinux_layout :: sock_layout where
  "vmlinux_layout = \<lparr>SKC_ADDRPAIR = 0, SKC_PORTPAIR = 12, SKC_FAMILY = 16, SKC_V6_DADDR = 56,
     SKC_V6_RCV_SADDR = 72, SOCKET_SK = 24\<rparr>"

record ssl_data_event_t =
  oe_type :: ssl_data_event_type
  oe_timestamp_ns :: u64
  oe_pid :: u32
  oe_tid :: u32
  oe_data :: bytes
  oe_data_len :: s32
  oe_comm :: bytes
  oe_fd :: u32
  oe_version :: s32
  oe_bio_type :: u32

record connect_event_t =
  ce_saddr :: u128
  ce_daddr :: u128
  ce_comm :: bytes
  ce_timestamp_ns :: u64
  ce_sock :: u64
  ce_pid :: u32
  ce_tid :: u32
  ce_fd :: u32
  ce_family :: u16
  ce_sport :: u16
  ce_dport :: u16
  ce_is_destroy :: u8
  ce_pad :: bytes

definition connect_event_zero :: connect_event_t where
  "connect_event_zero = \<lparr>ce_saddr = 0, ce_daddr = 0, ce_comm = replicate TASK_COMM_LEN 0,
     ce_timestamp_ns = 0, ce_sock = 0, ce_pid = 0, ce_tid = 0, ce_fd = 0, ce_family = 0,
     ce_sport = 0, ce_dport = 0, ce_is_destroy = 0, ce_pad = replicate 7 0\<rparr>"

record active_ssl_buf =
  ab_version :: s32
  ab_fd :: u32
  ab_bio_type :: u32
  ab_buf :: u64

record tcp_fd_info =
  fi_sock :: u64
  fi_fd :: s32

record openssl_state =
  os_active_read :: "(u64, active_ssl_buf) bmap"
  os_active_write :: "(u64, active_ssl_buf) bmap"
  os_heap :: "nat \<Rightarrow> ssl_data_event_t"
  os_ssl_st_fd :: "(u64, u64) bmap"
  os_tcp_fd_infos :: "(u64, tcp_fd_info) bmap"
  os_tls_events :: "ssl_data_event_t list"
  os_connect_events :: "connect_event_t list"

definition active_ssl_max :: nat where
  "active_ssl_max = 1024"

definition ssl_st_fd_max :: nat where
  "ssl_st_fd_max = 10240"

definition tcp_fd_infos_max :: nat where
  "tcp_fd_infos_max = 10240"

definition openssl_init :: openssl_state where
  "openssl_init = \<lparr>os_active_read = [], os_active_write = [],
     os_heap = (\<lambda>_. \<lparr>oe_type = kSSLRead, oe_timestamp_ns = 0, oe_pid = 0, oe_tid = 0,
       oe_data = replicate 16384 0, oe_data_len = 0, oe_comm = replicate TASK_COMM_LEN 0,
       oe_fd = 0, oe_version = 0, oe_bio_type = 0\<rparr>),
     os_ssl_st_fd = [], os_tcp_fd_infos = [], os_tls_events = [], os_connect_events = []\<rparr>"

section \<open>Captured data\<close>

definition create_ssl_data_event :: "kernel \<Rightarrow> u64 \<Rightarrow> openssl_state \<Rightarrow> ssl_data_event_t option" where
  "create_ssl_data_event k current_pid_tgid s =
     (case array1_lookup 0 (os_heap s (k_cpu k)) of
        None \<Rightarrow> None
      | Some event \<Rightarrow> Some (event\<lparr>oe_timestamp_ns := k_ktime_ns k,
          oe_pid := ucast (drop_bit 32 current_pid_tgid),
          oe_tid := ucast (current_pid_tgid AND 0xffffffff),
          oe_fd := INVALID_FD, oe_bio_type := DEFAULT_BIO_TYPE\<rparr>))"

definition process_SSL_data ::
    "kernel \<Rightarrow> pt_regs \<Rightarrow> u64 \<Rightarrow> ssl_data_event_type \<Rightarrow> u64 \<Rightarrow> u32 \<Rightarrow> s32 \<Rightarrow> u32 \<Rightarrow>
     openssl_state \<Rightarrow> openssl_state" where
  "process_SSL_data k ctx pid_tgid type buf fd version bio_type s =
     (let len = (ucast (PT_REGS_RC ctx) :: s32) in
      if sint len < 0 then s
      else
      case create_ssl_data_event k pid_tgid s of
        None \<Rightarrow> s
      | Some event \<Rightarrow>
          let event = event\<lparr>oe_type := type, oe_fd := fd, oe_bio_type := bio_type,
                oe_version := version, oe_data_len := clip_openssl len\<rparr>;
              event = event\<lparr>oe_data :=
                snd (probe_read_user_n k (unat (oe_data_len event)) (oe_data event) buf)\<rparr>;
              event = event\<lparr>oe_comm := k_comm k\<rparr>;
              s = s\<lparr>os_heap := (os_heap s)(k_cpu k := event)\<rparr>
          in s\<lparr>os_tls_events := os_tls_events s @ [event]\<rparr>)"

definition process_BIO_type :: "openssl_table \<Rightarrow> kernel \<Rightarrow> u64 \<Rightarrow> u32" where
  "process_BIO_type tab k ssl_bio_addr =
     (let (ret, ssl_bio_method_addr) = probe_user_word k (uninit_word k ''ssl_bio_method_addr'' :: u64)
            (ssl_bio_addr + BIO_ST_METHOD tab)
      in if ret \<noteq> 0 then DEFAULT_BIO_TYPE
      else
      let (ret, bio_type) = probe_user_word k (uninit_word k ''bio_type'' :: u32)
            (ssl_bio_method_addr + BIO_METHOD_ST_TYPE tab)
      in if ret \<noteq> 0 then DEFAULT_BIO_TYPE else bio_type)"

text \<open>The out-parameters \<open>*fd\<close> and \<open>*bio_type\<close> are passed in and returned after the result.\<close>

definition process_SSL_bio ::
    "openssl_table \<Rightarrow> kernel \<Rightarrow> openssl_state \<Rightarrow> u64 \<Rightarrow> u64 \<Rightarrow> u32 \<Rightarrow> u32 \<Rightarrow> int \<times> u32 \<times> u32" where
  "process_SSL_bio tab k s ssl bio_offset fd bio_type =
     (let (ret, ssl_bio_addr) =
            probe_user_word k (uninit_word k ''ssl_bio_addr'' :: u64) (ssl + bio_offset)
      in if ret \<noteq> 0 then (ret, fd, bio_type)
      else
      let bio_type = process_BIO_type tab k ssl_bio_addr;
          (ret, ssl_bio_num_addr) = probe_user_word k (uninit_word k ''ssl_bio_num_addr'' :: u64)
            (ssl_bio_addr + BIO_ST_NUM tab)
      in if ret \<noteq> 0 then (ret, fd, bio_type)
      else
      let fd = ucast ssl_bio_num_addr;
          fd = (if fd = 0 then
                  (case map_lookup (os_ssl_st_fd s) ssl of Some v \<Rightarrow> ucast v | None \<Rightarrow> fd)
                else fd)
      in (0, fd, bio_type))"

text \<open>The map argument of \<open>probe_entry_SSL\<close> and \<open>probe_ret_SSL\<close>.\<close>

datatype ssl_args_map = active_ssl_read_args_map | active_ssl_write_args_map

fun args_map :: "ssl_args_map \<Rightarrow> openssl_state \<Rightarrow> (u64, active_ssl_buf) bmap" where
  "args_map active_ssl_read_args_map s = os_active_read s"
| "args_map active_ssl_write_args_map s = os_active_write s"

fun set_args_map :: "ssl_args_map \<Rightarrow> (u64, active_ssl_buf) bmap \<Rightarrow> openssl_state \<Rightarrow> openssl_state" where
  "set_args_map active_ssl_read_args_map m s = s\<lparr>os_active_read := m\<rparr>"
| "set_args_map active_ssl_write_args_map m s = s\<lparr>os_active_write := m\<rparr>"

definition probe_entry_SSL ::
    "openssl_table \<Rightarrow> ssl_args_map \<Rightarrow> u64 \<Rightarrow> rodata \<Rightarrow> kernel \<Rightarrow> pt_regs \<Rightarrow> openssl_state \<Rightarrow>
     openssl_state \<times> int" where
  "probe_entry_SSL tab m bio_offset c k ctx s =
     (if \<not> passes_filter c k (Some ctx) then (s, 0)
      else
      let ssl = PT_REGS_PARM1 ctx;
          ssl_version = (if HAS_SSL_ST_VERSION tab
              then snd (probe_user_word k (0 :: u64) (ssl + SSL_ST_VERSION tab)) else 0);
          (ret, fd, bio_type) = process_SSL_bio tab k s ssl bio_offset 0 0;
          buf = PT_REGS_PARM2 ctx;
          active_ssl_buf_t = \<lparr>ab_version = ucast ssl_version, ab_fd = fd, ab_bio_type = bio_type,
            ab_buf = buf\<rparr>;
          current_pid_tgid = k_pid_tgid k
      in (set_args_map m
            (snd (hash_update active_ssl_max current_pid_tgid active_ssl_buf_t (args_map m s))) s, 0))"

text \<open>\<open>bpf_probe_read(&buf, \<dots>)\<close> reads the map's own memory, so it is the field itself.\<close>

definition probe_ret_SSL ::
    "ssl_args_map \<Rightarrow> ssl_data_event_type \<Rightarrow> rodata \<Rightarrow> kernel \<Rightarrow> pt_regs \<Rightarrow> openssl_state \<Rightarrow>
     openssl_state \<times> int" where
  "probe_ret_SSL m type c k ctx s =
     (if \<not> passes_filter c k (Some ctx) then (s, 0)
      else
      let current_pid_tgid = k_pid_tgid k;
          s = (case map_lookup (args_map m s) current_pid_tgid of
                 None \<Rightarrow> s
               | Some a \<Rightarrow> process_SSL_data k ctx current_pid_tgid type (ab_buf a) (ab_fd a)
                   (ab_version a) (ab_bio_type a) s)
      in (set_args_map m (map_delete current_pid_tgid (args_map m s)) s, 0))"

definition probe_entry_SSL_write ::
    "openssl_table \<Rightarrow> rodata \<Rightarrow> kernel \<Rightarrow> pt_regs \<Rightarrow> openssl_state \<Rightarrow> openssl_state \<times> int" where
  "probe_entry_SSL_write tab = probe_entry_SSL tab active_ssl_write_args_map (SSL_ST_WBIO tab)"

definition probe_ret_SSL_write ::
    "rodata \<Rightarrow> kernel \<Rightarrow> pt_regs \<Rightarrow> openssl_state \<Rightarrow> openssl_state \<times> int" where
  "probe_ret_SSL_write = probe_ret_SSL active_ssl_write_args_map kSSLWrite"

definition probe_entry_SSL_read ::
    "openssl_table \<Rightarrow> rodata \<Rightarrow> kernel \<Rightarrow> pt_regs \<Rightarrow> openssl_state \<Rightarrow> openssl_state \<times> int" where
  "probe_entry_SSL_read tab = probe_entry_SSL tab active_ssl_read_args_map (SSL_ST_RBIO tab)"

definition probe_ret_SSL_read ::
    "rodata \<Rightarrow> kernel \<Rightarrow> pt_regs \<Rightarrow> openssl_state \<Rightarrow> openssl_state \<times> int" where
  "probe_ret_SSL_read = probe_ret_SSL active_ssl_read_args_map kSSLRead"

definition probe_SSL_set_fd :: "kernel \<Rightarrow> pt_regs \<Rightarrow> openssl_state \<Rightarrow> openssl_state \<times> int" where
  "probe_SSL_set_fd k ctx s =
     (let ssl_addr = PT_REGS_PARM1 ctx; fd = PT_REGS_PARM2 ctx
      in (s\<lparr>os_ssl_st_fd := snd (hash_update ssl_st_fd_max ssl_addr fd (os_ssl_st_fd s))\<rparr>, 0))"

section \<open>Connections\<close>

definition find_fd_info :: "kernel \<Rightarrow> openssl_state \<Rightarrow> tcp_fd_info option" where
  "find_fd_info k s = (let pid_tgid = k_pid_tgid k in map_lookup (os_tcp_fd_infos s) pid_tgid)"

text \<open>A store through the pointer that \<open>find_fd_info\<close> returned.\<close>

definition store_fd_info_sock :: "kernel \<Rightarrow> u64 \<Rightarrow> openssl_state \<Rightarrow> openssl_state" where
  "store_fd_info_sock k sock s =
     s\<lparr>os_tcp_fd_infos := map_modify (k_pid_tgid k) (\<lambda>i. i\<lparr>fi_sock := sock\<rparr>) (os_tcp_fd_infos s)\<rparr>"

definition lookup_and_delete_fd_info :: "kernel \<Rightarrow> openssl_state \<Rightarrow> tcp_fd_info option \<times> openssl_state" where
  "lookup_and_delete_fd_info k s =
     (let pid_tgid = k_pid_tgid k in
      case map_lookup (os_tcp_fd_infos s) pid_tgid of
        None \<Rightarrow> (None, s)
      | Some fd_info \<Rightarrow>
          (Some fd_info, s\<lparr>os_tcp_fd_infos := map_delete pid_tgid (os_tcp_fd_infos s)\<rparr>))"

definition probe_connect :: "kernel \<Rightarrow> pt_regs \<Rightarrow> openssl_state \<Rightarrow> openssl_state \<times> int" where
  "probe_connect k ctx s =
     (let pid_tgid = k_pid_tgid k;
          fd_info = \<lparr>fi_sock = 0, fi_fd = ucast (PT_REGS_PARM1 ctx)\<rparr>
      in (s\<lparr>os_tcp_fd_infos :=
            snd (hash_update tcp_fd_infos_max pid_tgid fd_info (os_tcp_fd_infos s))\<rparr>, 0))"

definition probe_inet_stream_connect :: "kernel \<Rightarrow> pt_regs \<Rightarrow> openssl_state \<Rightarrow> openssl_state \<times> int" where
  "probe_inet_stream_connect k ctx s =
     (case find_fd_info k s of
        None \<Rightarrow> (s, 0)
      | Some fd_info \<Rightarrow> (store_fd_info_sock k (PT_REGS_PARM1 ctx) s, 0))"

text \<open>The addresses of a socket by family; \<open>None\<close> is the early return for any other family.\<close>

definition sock_addrs :: "sock_layout \<Rightarrow> kernel \<Rightarrow> u64 \<Rightarrow> u16 \<Rightarrow> (u128 \<times> u128) option" where
  "sock_addrs l k sk address_family =
     (if address_family = AF_INET then
        let addrs = snd (probe_kernel_word k (uninit_word k ''addrs'' :: u64) (sk + SKC_ADDRPAIR l))
        in Some (ucast (ucast (drop_bit 32 addrs) :: u32), ucast (ucast addrs :: u32))
      else if address_family = AF_INET6 then
        let saddr = snd (probe_kernel_word k (uninit_word k ''saddr'' :: u128) (sk + SKC_V6_RCV_SADDR l));
            daddr = snd (probe_kernel_word k (uninit_word k ''daddr'' :: u128) (sk + SKC_V6_DADDR l))
        in Some (saddr, daddr)
      else None)"

definition kretprobe_connect ::
    "sock_layout \<Rightarrow> rodata \<Rightarrow> kernel \<Rightarrow> pt_regs \<Rightarrow> s32 \<Rightarrow> u64 \<Rightarrow> bool \<Rightarrow> openssl_state \<Rightarrow>
     openssl_state \<times> int" where
  "kretprobe_connect l c k ctx fd sk active s =
     (let current_pid_tgid = k_pid_tgid k; pid = ucast (drop_bit 32 current_pid_tgid) in
      if \<not> passes_filter c k (Some ctx) then (s, 0)
      else
      let address_family = snd (probe_kernel_word k (0 :: u16) (sk + SKC_FAMILY l)) in
      case sock_addrs l k sk address_family of
        None \<Rightarrow> (s, 0)
      | Some (saddr, daddr) \<Rightarrow>
          let ports = snd (probe_kernel_word k (uninit_word k ''ports'' :: u32) (sk + SKC_PORTPAIR l)) in
          if ports = 0 \<or> saddr = 0 \<or> daddr = 0 then (s, 0)
          else
          let conn = connect_event_zero\<lparr>ce_timestamp_ns := k_ktime_ns k, ce_pid := pid,
                ce_tid := ucast current_pid_tgid, ce_fd := fd, ce_family := address_family\<rparr>;
              conn = (if active then conn\<lparr>ce_dport := bpf_ntohs (ucast ports),
                        ce_sport := ucast (drop_bit 16 ports), ce_saddr := saddr, ce_daddr := daddr\<rparr>
                      else conn\<lparr>ce_sport := bpf_ntohs (ucast ports),
                        ce_dport := ucast (drop_bit 16 ports), ce_saddr := daddr, ce_daddr := saddr\<rparr>);
              conn = conn\<lparr>ce_comm := k_comm k, ce_sock := sk\<rparr>
          in (s\<lparr>os_connect_events := os_connect_events s @ [conn]\<rparr>, 0))"

definition retprobe_connect ::
    "sock_layout \<Rightarrow> rodata \<Rightarrow> kernel \<Rightarrow> pt_regs \<Rightarrow> openssl_state \<Rightarrow> openssl_state \<times> int" where
  "retprobe_connect l c k ctx s =
     (case lookup_and_delete_fd_info k s of
        (None, s) \<Rightarrow> (s, 0)
      | (Some fd_info, s) \<Rightarrow>
          let sock = fi_sock fd_info;
              sk = snd (probe_kernel_word k (uninit_word k ''sk'' :: u64) (sock + SOCKET_SK l))
          in if sk \<noteq> 0 then kretprobe_connect l c k ctx (fi_fd fd_info) sk True s else (s, 0))"

definition probe_inet_accept :: "kernel \<Rightarrow> pt_regs \<Rightarrow> openssl_state \<Rightarrow> openssl_state \<times> int" where
  "probe_inet_accept k ctx s =
     (case find_fd_info k s of
        None \<Rightarrow> (s, 0)
      | Some fd_info \<Rightarrow> (store_fd_info_sock k (PT_REGS_PARM2 ctx) s, 0))"

definition retprobe_accept4 ::
    "sock_layout \<Rightarrow> rodata \<Rightarrow> kernel \<Rightarrow> pt_regs \<Rightarrow> openssl_state \<Rightarrow> openssl_state \<times> int" where
  "retprobe_accept4 l c k ctx s =
     (let fd = (ucast (PT_REGS_RC ctx) :: s32) in
      if sint fd < 0 then (s, 0)
      else
      case lookup_and_delete_fd_info k s of
        (None, s) \<Rightarrow> (s, 0)
      | (Some fd_info, s) \<Rightarrow>
          let sock = fi_sock fd_info;
              sk = snd (probe_kernel_word k (uninit_word k ''sk'' :: u64) (sock + SOCKET_SK l))
          in if sk \<noteq> 0 then kretprobe_connect l c k ctx fd sk False s else (s, 0))"

definition probe_tcp_v4_destroy_sock :: "pt_regs \<Rightarrow> openssl_state \<Rightarrow> openssl_state \<times> int" where
  "probe_tcp_v4_destroy_sock ctx s =
     (let sk = PT_REGS_PARM1 ctx;
          conn = connect_event_zero\<lparr>ce_sock := sk, ce_is_destroy := 1\<rparr>
      in (s\<lparr>os_connect_events := os_connect_events s @ [conn]\<rparr>, 0))"

lemmas connect_handler_defs = probe_connect_def probe_inet_stream_connect_def retprobe_connect_def
  probe_inet_accept_def retprobe_accept4_def probe_tcp_v4_destroy_sock_def

lemmas ssl_hook_defs = probe_entry_SSL_write_def probe_ret_SSL_write_def probe_entry_SSL_read_def
  probe_ret_SSL_read_def

end
