(* ===== verification/Openssl_Capture.thy ===== *)
theory Openssl_Capture
  imports Openssl_Probe
begin

text \<open>
  What the programs of kern/openssl.h guarantee: the pairing of an SSL call's entry and return
  hooks (from \<open>probe_pair\<close>), the descriptor an event carries, the three-hook protocol of
  connect and accept, and the invariant of the object.
\<close>

section \<open>Reports\<close>

text \<open>What an entry hook records of a call, and what a return hook reports from it.\<close>

definition ssl_call_arg ::
    "openssl_table \<Rightarrow> u64 \<Rightarrow> kernel \<Rightarrow> pt_regs \<Rightarrow> openssl_state \<Rightarrow> active_ssl_buf" where
  "ssl_call_arg tab bio_offset k ctx s =
     (let (_, fd, bio_type) = process_SSL_bio tab k s (PT_REGS_PARM1 ctx) bio_offset 0 0
      in \<lparr>ab_version = ucast (if HAS_SSL_ST_VERSION tab
            then snd (probe_user_word k (0 :: u64) (PT_REGS_PARM1 ctx + SSL_ST_VERSION tab)) else 0),
          ab_fd = fd, ab_bio_type = bio_type, ab_buf = PT_REGS_PARM2 ctx\<rparr>)"

definition ssl_report ::
    "ssl_data_event_type \<Rightarrow> kernel \<Rightarrow> pt_regs \<Rightarrow> active_ssl_buf \<Rightarrow> openssl_state \<Rightarrow> ssl_data_event_t list" where
  "ssl_report type k ctx a s =
     (let len = (ucast (PT_REGS_RC ctx) :: s32) in
      if sint len < 0 then []
      else [\<lparr>oe_type = type, oe_timestamp_ns = k_ktime_ns k, oe_pid = cur_pid k, oe_tid = cur_tid k,
        oe_data = snd (probe_read_user_n k (unat (clip_openssl len)) (oe_data (os_heap s (k_cpu k))) (ab_buf a)),
        oe_data_len = clip_openssl len, oe_comm = k_comm k, oe_fd = ab_fd a,
        oe_version = ab_version a, oe_bio_type = ab_bio_type a\<rparr>])"

lemma args_map_set [simp]:
  "args_map m (set_args_map m' v s) = (if m = m' then v else args_map m s)"
  "os_tls_events (set_args_map m v s) = os_tls_events s"
  "os_heap (set_args_map m v s) = os_heap s"
  "os_tcp_fd_infos (set_args_map m v s) = os_tcp_fd_infos s"
  "os_ssl_st_fd (set_args_map m v s) = os_ssl_st_fd s"
  "os_connect_events (set_args_map m v s) = os_connect_events s"
  by (cases m; cases m'; simp)+

lemma process_SSL_data_report:
  "process_SSL_data k ctx (k_pid_tgid k) type (ab_buf a) (ab_fd a) (ab_version a) (ab_bio_type a) s =
     s\<lparr>os_heap := (case ssl_report type k ctx a s of [] \<Rightarrow> os_heap s | e # _ \<Rightarrow> (os_heap s)(k_cpu k := e)),
       os_tls_events := os_tls_events s @ ssl_report type k ctx a s\<rparr>"
  by (cases "os_heap s (k_cpu k)") (simp add: process_SSL_data_def ssl_report_def
      create_ssl_data_event_def Let_def ucast_tid_mask cur_pid_def cur_tid_def)

lemma args_map_process [simp]:
  "args_map m (process_SSL_data k ctx p type buf fd ver bt s) = args_map m s"
  "os_tcp_fd_infos (process_SSL_data k ctx p type buf fd ver bt s) = os_tcp_fd_infos s"
  "os_ssl_st_fd (process_SSL_data k ctx p type buf fd ver bt s) = os_ssl_st_fd s"
  "os_connect_events (process_SSL_data k ctx p type buf fd ver bt s) = os_connect_events s"
  by (cases m; simp add: process_SSL_data_def Let_def split: option.split)+

lemma probe_entry_SSL_eq:
  "probe_entry_SSL tab m off c k ctx s =
     (if passes_filter c k (Some ctx)
      then set_args_map m (snd (hash_update active_ssl_max (k_pid_tgid k) (ssl_call_arg tab off k ctx s)
             (args_map m s))) s
      else s, 0)"
  by (simp add: probe_entry_SSL_def ssl_call_arg_def Let_def case_prod_beta)

lemma probe_ret_SSL_eq:
  "fst (probe_ret_SSL m type c k ctx s) =
     (if passes_filter c k (Some ctx)
      then set_args_map m (map_delete (k_pid_tgid k) (args_map m s))
        (case map_lookup (args_map m s) (k_pid_tgid k) of None \<Rightarrow> s
         | Some a \<Rightarrow> process_SSL_data k ctx (k_pid_tgid k) type (ab_buf a) (ab_fd a)
             (ab_version a) (ab_bio_type a) s)
      else s)"
  by (simp add: probe_ret_SSL_def Let_def split: option.split)

lemma kretprobe_connect_maps [simp]:
  "args_map m (fst (kretprobe_connect l c k ctx fd sk active s)) = args_map m s"
  "os_tcp_fd_infos (fst (kretprobe_connect l c k ctx fd sk active s)) = os_tcp_fd_infos s"
  "os_ssl_st_fd (fst (kretprobe_connect l c k ctx fd sk active s)) = os_ssl_st_fd s"
  "os_tls_events (fst (kretprobe_connect l c k ctx fd sk active s)) = os_tls_events s"
  "os_heap (fst (kretprobe_connect l c k ctx fd sk active s)) = os_heap s"
  by (cases m; simp add: kretprobe_connect_def Let_def split: option.split)+

lemma args_map_update [simp]:
  "args_map m (s\<lparr>os_tcp_fd_infos := x\<rparr>) = args_map m s"
  "args_map m (s\<lparr>os_ssl_st_fd := y\<rparr>) = args_map m s"
  "args_map m (s\<lparr>os_connect_events := z\<rparr>) = args_map m s"
  by (cases m; simp)+

declare args_map.simps [simp del] set_args_map.simps [simp del]

section \<open>The object as a whole\<close>

inductive openssl_step ::
    "openssl_table \<Rightarrow> sock_layout \<Rightarrow> rodata \<Rightarrow> kernel \<Rightarrow> openssl_state \<Rightarrow> openssl_state \<Rightarrow> bool"
  for tab l c where
  os_entry_write: "openssl_step tab l c k s (fst (probe_entry_SSL_write tab c k ctx s))"
| os_ret_write: "openssl_step tab l c k s (fst (probe_ret_SSL_write c k ctx s))"
| os_entry_read: "openssl_step tab l c k s (fst (probe_entry_SSL_read tab c k ctx s))"
| os_ret_read: "openssl_step tab l c k s (fst (probe_ret_SSL_read c k ctx s))"
| os_set_fd: "openssl_step tab l c k s (fst (probe_SSL_set_fd k ctx s))"
| os_connect: "openssl_step tab l c k s (fst (probe_connect k ctx s))"
| os_stream_connect: "openssl_step tab l c k s (fst (probe_inet_stream_connect k ctx s))"
| os_ret_connect: "openssl_step tab l c k s (fst (retprobe_connect l c k ctx s))"
| os_accept: "openssl_step tab l c k s (fst (probe_inet_accept k ctx s))"
| os_ret_accept: "openssl_step tab l c k s (fst (retprobe_accept4 l c k ctx s))"
| os_destroy: "openssl_step tab l c k s (fst (probe_tcp_v4_destroy_sock ctx s))"

inductive_cases openssl_stepE [elim]: "openssl_step tab l c k s t"

lemmas connect_helper_defs = find_fd_info_def store_fd_info_sock_def lookup_and_delete_fd_info_def Let_def

lemma connect_hooks_frame:
  assumes "f \<in> {probe_connect k ctx, probe_inet_stream_connect k ctx, retprobe_connect l c k ctx,
    probe_inet_accept k ctx, retprobe_accept4 l c k ctx, probe_tcp_v4_destroy_sock ctx}"
  shows "args_map m (fst (f s)) = args_map m s" and "os_ssl_st_fd (fst (f s)) = os_ssl_st_fd s"
    and "os_tls_events (fst (f s)) = os_tls_events s" and "os_heap (fst (f s)) = os_heap s"
    and "k_pid_tgid k \<noteq> p \<Longrightarrow> map_lookup (os_tcp_fd_infos (fst (f s))) p = map_lookup (os_tcp_fd_infos s) p"
    and "map_wf tcp_fd_infos_max (os_tcp_fd_infos s) \<Longrightarrow> map_wf tcp_fd_infos_max (os_tcp_fd_infos (fst (f s)))"
  using assms
  by (auto simp: connect_handler_defs connect_helper_defs map_lookup_hash_update split: option.split)

lemma ssl_hooks_frame:
  assumes "f \<in> {probe_entry_SSL_write tab c k ctx, probe_ret_SSL_write c k ctx,
    probe_entry_SSL_read tab c k ctx, probe_ret_SSL_read c k ctx, probe_SSL_set_fd k ctx}"
  shows "os_tcp_fd_infos (fst (f s)) = os_tcp_fd_infos s"
    and "os_connect_events (fst (f s)) = os_connect_events s"
    and "k_pid_tgid k \<noteq> p \<Longrightarrow> map_lookup (args_map m (fst (f s))) p = map_lookup (args_map m s) p"
  using assms
  by (auto simp: ssl_hook_defs probe_entry_SSL_eq probe_ret_SSL_eq probe_SSL_set_fd_def Let_def
      map_lookup_hash_update split: option.split)

text \<open>Every run is a run of one of the two groups of hooks.\<close>

lemma openssl_step_groups:
  assumes "openssl_step tab l c k s t"
  obtains (ssl) f ctx where "t = fst (f s)" and "f \<in> {probe_entry_SSL_write tab c k ctx,
      probe_ret_SSL_write c k ctx, probe_entry_SSL_read tab c k ctx, probe_ret_SSL_read c k ctx,
      probe_SSL_set_fd k ctx}"
  | (connect) f ctx where "t = fst (f s)" and "f \<in> {probe_connect k ctx, probe_inet_stream_connect k ctx,
      retprobe_connect l c k ctx, probe_inet_accept k ctx, retprobe_accept4 l c k ctx,
      probe_tcp_v4_destroy_sock ctx}"
  using assms by (cases rule: openssl_step.cases) blast+

lemma openssl_step_isolated:
  assumes "openssl_step tab l c k s t" and "k_pid_tgid k \<noteq> p"
  shows "map_lookup (args_map m t) p = map_lookup (args_map m s) p"
    and "map_lookup (os_tcp_fd_infos t) p = map_lookup (os_tcp_fd_infos s) p"
  using assms(1)
  by (cases rule: openssl_step_groups; simp only: connect_hooks_frame ssl_hooks_frame assms(2) not_False_eq_True)+

lemma ssl_pair:
  assumes "entry = probe_entry_SSL tab m off" and "ret = probe_ret_SSL m ty"
  shows "probe_pair entry ret (openssl_step tab l) (\<lambda>s. map_lookup (args_map m s))
    (\<lambda>p s. map_room active_ssl_max p (args_map m s)) os_tls_events (ssl_call_arg tab off) (ssl_report ty)"
  unfolding assms
  by unfold_locales (auto simp: probe_entry_SSL_eq probe_ret_SSL_eq map_lookup_hash_update
      process_SSL_data_report openssl_step_isolated(1) split: option.split)

interpretation ssl_write: probe_pair "probe_entry_SSL_write tab" probe_ret_SSL_write "openssl_step tab l"
    "\<lambda>s. map_lookup (args_map active_ssl_write_args_map s)"
    "\<lambda>p s. map_room active_ssl_max p (args_map active_ssl_write_args_map s)"
    os_tls_events "ssl_call_arg tab (SSL_ST_WBIO tab)" "ssl_report kSSLWrite" for tab l
  by (rule ssl_pair [OF probe_entry_SSL_write_def probe_ret_SSL_write_def])

interpretation ssl_read: probe_pair "probe_entry_SSL_read tab" probe_ret_SSL_read "openssl_step tab l"
    "\<lambda>s. map_lookup (args_map active_ssl_read_args_map s)"
    "\<lambda>p s. map_room active_ssl_max p (args_map active_ssl_read_args_map s)"
    os_tls_events "ssl_call_arg tab (SSL_ST_RBIO tab)" "ssl_report kSSLRead" for tab l
  by (rule ssl_pair [OF probe_entry_SSL_read_def probe_ret_SSL_read_def])

interpretation conn: task_isolated "openssl_step tab l c" k_pid_tgid
    "\<lambda>s. map_lookup (os_tcp_fd_infos s)" for tab l c
  by unfold_locales (rule openssl_step_isolated(2))

section \<open>Invariant\<close>

definition ssl_event_ok :: "ssl_data_event_t \<Rightarrow> bool" where
  "ssl_event_ok e \<longleftrightarrow>
     length (oe_data e) = 16384 \<and> 0 \<le> sint (oe_data_len e) \<and> sint (oe_data_len e) \<le> 16384"

text \<open>A connection event either announces a destroyed socket or carries a complete address pair.\<close>

definition connect_event_ok :: "connect_event_t \<Rightarrow> bool" where
  "connect_event_ok e \<longleftrightarrow> ce_pad e = replicate 7 0 \<and>
     (e = connect_event_zero\<lparr>ce_sock := ce_sock e, ce_is_destroy := 1\<rparr> \<or>
      ce_is_destroy e = 0 \<and> ce_saddr e \<noteq> 0 \<and> ce_daddr e \<noteq> 0 \<and> ce_sock e \<noteq> 0 \<and>
      ce_family e \<in> {AF_INET, AF_INET6})"

definition openssl_inv :: "openssl_state \<Rightarrow> bool" where
  "openssl_inv s \<longleftrightarrow>
     (\<forall>m. map_wf active_ssl_max (args_map m s)) \<and> map_wf ssl_st_fd_max (os_ssl_st_fd s) \<and>
     map_wf tcp_fd_infos_max (os_tcp_fd_infos s) \<and> (\<forall>i. length (oe_data (os_heap s i)) = 16384) \<and>
     (\<forall>e \<in> set (os_tls_events s). ssl_event_ok e) \<and>
     (\<forall>e \<in> set (os_connect_events s). connect_event_ok e)"

inductive openssl_reachable :: "openssl_table \<Rightarrow> sock_layout \<Rightarrow> rodata \<Rightarrow> openssl_state \<Rightarrow> bool"
  for tab l c where
  os_start: "openssl_reachable tab l c openssl_init"
| os_more: "openssl_reachable tab l c s \<Longrightarrow> openssl_step tab l c k s t \<Longrightarrow> openssl_reachable tab l c t"

lemma sock_addrs_family: "sock_addrs l k sk f = Some ad \<Longrightarrow> f \<in> {AF_INET, AF_INET6}"
  by (auto simp: sock_addrs_def split: if_splits)

lemma kretprobe_connect_events:
  assumes "sk \<noteq> 0" and "e \<in> set (os_connect_events (fst (kretprobe_connect l c k ctx fd sk active s)))"
  shows "e \<in> set (os_connect_events s) \<or> connect_event_ok e"
proof (cases "sock_addrs l k sk (snd (probe_kernel_word k (0 :: u16) (sk + SKC_FAMILY l)))")
  case None
  with assms show ?thesis by (simp add: kretprobe_connect_def Let_def split: if_splits)
next
  case (Some ad)
  obtain a b where ad: "ad = (a, b)" by (cases ad)
  have "snd (probe_kernel_word k (0 :: u16) (sk + SKC_FAMILY l)) \<in> {AF_INET, AF_INET6}"
    using Some by (rule sock_addrs_family)
  then show ?thesis
    using assms Some by (auto simp: kretprobe_connect_def Let_def ad connect_event_ok_def
        connect_event_zero_def split: if_splits)
qed

lemma connect_hooks_events:
  assumes "f \<in> {probe_connect k ctx, probe_inet_stream_connect k ctx, retprobe_connect l c k ctx,
      probe_inet_accept k ctx, retprobe_accept4 l c k ctx, probe_tcp_v4_destroy_sock ctx}"
    and "e \<in> set (os_connect_events (fst (f s)))"
  shows "e \<in> set (os_connect_events s) \<or> connect_event_ok e"
  using assms
  by (auto simp: connect_handler_defs connect_helper_defs connect_event_ok_def connect_event_zero_def
      split: option.splits if_splits dest!: kretprobe_connect_events [rotated])

lemma ssl_report_ok:
  "length (oe_data (os_heap s (k_cpu k))) = 16384 \<Longrightarrow> e \<in> set (ssl_report ty k ctx a s) \<Longrightarrow> ssl_event_ok e"
  by (auto simp: ssl_report_def ssl_event_ok_def Let_def sint_clip_openssl split: if_splits)

lemma openssl_inv_set_args:
  "openssl_inv s \<Longrightarrow> map_wf active_ssl_max v \<Longrightarrow> openssl_inv (set_args_map m v s)"
  by (simp add: openssl_inv_def)

lemma openssl_inv_process:
  fixes a :: active_ssl_buf
  assumes "openssl_inv s"
  shows "openssl_inv (process_SSL_data k ctx (k_pid_tgid k) ty (ab_buf a) (ab_fd a) (ab_version a) (ab_bio_type a) s)"
proof -
  have ok: "\<forall>e \<in> set (ssl_report ty k ctx a s). ssl_event_ok e"
    using assms by (auto simp: openssl_inv_def intro: ssl_report_ok)
  let ?t = "process_SSL_data k ctx (k_pid_tgid k) ty (ab_buf a) (ab_fd a) (ab_version a) (ab_bio_type a) s"
  have "\<forall>e \<in> set (os_tls_events ?t). ssl_event_ok e"
    using assms ok by (auto simp: openssl_inv_def process_SSL_data_report)
  moreover have "\<forall>i. length (oe_data (os_heap ?t i)) = 16384"
    using assms ok by (auto simp: openssl_inv_def process_SSL_data_report ssl_event_ok_def split: list.splits)
  ultimately show ?thesis using assms by (simp add: openssl_inv_def)
qed

lemma openssl_inv_hooks:
  assumes "openssl_inv s"
  shows "openssl_inv (fst (probe_entry_SSL tab m off c k ctx s))"
    and "openssl_inv (fst (probe_ret_SSL m ty c k ctx s))"
    and "openssl_inv (fst (probe_SSL_set_fd k ctx s))"
proof -
  have wf: "map_wf active_ssl_max (args_map m s)" using assms by (simp add: openssl_inv_def)
  show "openssl_inv (fst (probe_entry_SSL tab m off c k ctx s))"
    using assms wf by (simp add: probe_entry_SSL_eq openssl_inv_set_args)
  show "openssl_inv (fst (probe_ret_SSL m ty c k ctx s))"
    using assms wf by (auto simp: probe_ret_SSL_eq intro!: openssl_inv_set_args openssl_inv_process split: option.split)
  show "openssl_inv (fst (probe_SSL_set_fd k ctx s))"
    using assms by (simp add: openssl_inv_def probe_SSL_set_fd_def Let_def)
qed

lemma openssl_inv_step: "openssl_step tab l c k s t \<Longrightarrow> openssl_inv s \<Longrightarrow> openssl_inv t"
proof (cases rule: openssl_step_groups, assumption)
  fix f ctx
  assume "openssl_inv s" and "t = fst (f s)" and "f \<in> {probe_entry_SSL_write tab c k ctx,
      probe_ret_SSL_write c k ctx, probe_entry_SSL_read tab c k ctx, probe_ret_SSL_read c k ctx,
      probe_SSL_set_fd k ctx}"
  then show "openssl_inv t" by (auto simp: ssl_hook_defs openssl_inv_hooks)
next
  fix f ctx
  assume inv: "openssl_inv s" and t: "t = fst (f s)"
    and f: "f \<in> {probe_connect k ctx, probe_inet_stream_connect k ctx, retprobe_connect l c k ctx,
      probe_inet_accept k ctx, retprobe_accept4 l c k ctx, probe_tcp_v4_destroy_sock ctx}"
  have "connect_event_ok e" if "e \<in> set (os_connect_events t)" for e
    using connect_hooks_events [OF f that [unfolded t]] inv by (auto simp: openssl_inv_def)
  then show "openssl_inv t"
    using inv by (simp add: openssl_inv_def t connect_hooks_frame [OF f])
qed

lemma openssl_inv_init: "openssl_inv openssl_init"
proof -
  have "args_map m openssl_init = []" for m
    by (cases m) (simp_all add: args_map.simps openssl_init_def)
  then show ?thesis by (simp add: openssl_inv_def) (simp add: openssl_init_def)
qed

lemma openssl_reachable_inv: "openssl_reachable tab l c s \<Longrightarrow> openssl_inv s"
  by (induction rule: openssl_reachable.induct) (auto intro: openssl_inv_init openssl_inv_step)

lemma openssl_others_inv: "others (openssl_step tab l c) key p s t \<Longrightarrow> openssl_inv s \<Longrightarrow> openssl_inv t"
  by (induction rule: others.induct) (auto intro: openssl_inv_step)

section \<open>The descriptor of a call\<close>

text \<open>
  A user-space \<open>SSL\<close> at \<open>ssl\<close> whose BIO at \<open>bio_offset\<close> has descriptor \<open>num\<close> and method type
  \<open>ty\<close>, as the offset table lays them out.
\<close>

definition bio_holds :: "openssl_table \<Rightarrow> memory \<Rightarrow> u64 \<Rightarrow> u64 \<Rightarrow> u64 \<Rightarrow> u32 \<Rightarrow> bool" where
  "bio_holds tab m ssl bio_offset num ty \<longleftrightarrow>
     (\<exists>bio method. read_mem m 8 (ssl + bio_offset) = Some (le_enc 8 bio) \<and>
        read_mem m 8 (bio + BIO_ST_METHOD tab) = Some (le_enc 8 method) \<and>
        read_mem m 4 (method + BIO_METHOD_ST_TYPE tab) = Some (le_enc 4 ty) \<and>
        read_mem m 8 (bio + BIO_ST_NUM tab) = Some (le_enc 8 num))"

lemma process_SSL_bio_holds:
  assumes "bio_holds tab (k_user k) ssl off num ty"
  shows "process_SSL_bio tab k s ssl off fd bt =
     (0, if (ucast num :: u32) = 0
         then (case map_lookup (os_ssl_st_fd s) ssl of Some v \<Rightarrow> ucast v | None \<Rightarrow> 0)
         else ucast num, ty)"
  using assms
  by (auto simp: bio_holds_def process_SSL_bio_def process_BIO_type_def probe_user_word_ok Let_def
      split: option.split)

lemma ssl_report_data:
  assumes "openssl_inv s" and "0 \<le> sint (ucast (PT_REGS_RC ctx) :: s32)"
    and "read_mem (k_user k) (min (unat (ucast (PT_REGS_RC ctx) :: s32)) 16384) (ab_buf a) = Some bs"
  shows "\<exists>e. ssl_report ty k ctx a s = [e] \<and> oe_type e = ty \<and> oe_pid e = cur_pid k \<and>
     oe_tid e = cur_tid k \<and> unat (oe_data_len e) = length bs \<and> take (length bs) (oe_data e) = bs \<and>
     oe_fd e = ab_fd a \<and> oe_bio_type e = ab_bio_type a \<and> oe_version e = ab_version a"
proof -
  let ?n = "min (unat (ucast (PT_REGS_RC ctx) :: s32)) 16384"
  have len: "length bs = ?n" using assms(3) by (rule length_read_mem)
  have "length (oe_data (os_heap s (k_cpu k))) = 16384" using assms(1) by (simp add: openssl_inv_def)
  then have "probe_read_user_n k ?n (oe_data (os_heap s (k_cpu k))) (ab_buf a) =
      (0, bs @ drop ?n (oe_data (os_heap s (k_cpu k))))"
    using assms(3) by (intro probe_read_user_n_ok) simp_all
  then show ?thesis
    using assms(2) len by (simp add: ssl_report_def Let_def unat_clip_openssl)
qed

section \<open>Connections in kernel memory\<close>

text \<open>
  The end points of a socket: \<open>fl_laddr\<close>, \<open>fl_lport\<close> its own, \<open>fl_raddr\<close>, \<open>fl_rport\<close> the
  peer's. \<open>sock_holds\<close> says a \<open>struct sock\<close> with these end points lies at \<open>sk\<close>: the remote
  address and port come first in their pairs, and the remote port is in network order.
\<close>

record flow =
  fl_family :: u16
  fl_laddr :: u128
  fl_lport :: u16
  fl_raddr :: u128
  fl_rport :: u16

definition mirror :: "flow \<Rightarrow> flow" where
  "mirror f = f\<lparr>fl_laddr := fl_raddr f, fl_lport := fl_rport f, fl_raddr := fl_laddr f, fl_rport := fl_lport f\<rparr>"

definition sock_holds :: "sock_layout \<Rightarrow> memory \<Rightarrow> u64 \<Rightarrow> flow \<Rightarrow> bool" where
  "sock_holds l m sk f \<longleftrightarrow>
     read_mem m 2 (sk + SKC_FAMILY l) = Some (le_enc 2 (fl_family f)) \<and>
     read_mem m 4 (sk + SKC_PORTPAIR l) =
       Some (le_enc 2 (builtin_bswap16 (fl_rport f)) @ le_enc 2 (fl_lport f)) \<and>
     (fl_family f = AF_INET \<and> (\<exists>(la :: u32) (ra :: u32). fl_laddr f = ucast la \<and> fl_raddr f = ucast ra \<and>
         read_mem m 8 (sk + SKC_ADDRPAIR l) = Some (le_enc 4 ra @ le_enc 4 la)) \<or>
      fl_family f = AF_INET6 \<and>
         read_mem m 16 (sk + SKC_V6_RCV_SADDR l) = Some (le_enc 16 (fl_laddr f)) \<and>
         read_mem m 16 (sk + SKC_V6_DADDR l) = Some (le_enc 16 (fl_raddr f)))"

definition flow_established :: "flow \<Rightarrow> bool" where
  "flow_established f \<longleftrightarrow> fl_laddr f \<noteq> 0 \<and> fl_raddr f \<noteq> 0 \<and> (fl_lport f \<noteq> 0 \<or> fl_rport f \<noteq> 0)"

lemma builtin_bswap16_0: "builtin_bswap16 x = 0 \<longleftrightarrow> x = 0"
  using builtin_bswap16_eq_iff [of x 0] by (simp add: builtin_bswap16_def)

lemma port_pair:
  fixes p :: u32 and q r :: u16
  defines "p \<equiv> le_word (le_enc 2 (builtin_bswap16 r) @ le_enc 2 q)"
  shows "bpf_ntohs (ucast p) = r" and "ucast (drop_bit 16 p) = q"
    and "r \<noteq> 0 \<or> q \<noteq> 0 \<Longrightarrow> p \<noteq> 0"
proof -
  have lo: "ucast p = builtin_bswap16 r" and hi: "ucast (drop_bit 16 p) = q"
    unfolding p_def by (simp_all only: le_word_pair_u16)
  show "bpf_ntohs (ucast p) = r" using lo by (simp add: bpf_ntohs_def builtin_bswap16_invol)
  show "ucast (drop_bit 16 p) = q" by (rule hi)
  show "p \<noteq> 0" if "r \<noteq> 0 \<or> q \<noteq> 0"
  proof
    assume "p = 0"
    then have "builtin_bswap16 r = 0" "q = 0" using lo hi by simp_all
    with that show False by (simp add: builtin_bswap16_0)
  qed
qed

lemma sock_addrs_holds:
  assumes "sock_holds l (k_kern k) sk f"
  shows "sock_addrs l k sk (fl_family f) = Some (fl_laddr f, fl_raddr f)"
  using assms
  by (auto simp: sock_holds_def sock_addrs_def probe_kernel_word_ok le_word_pair_u32 AF_INET_def AF_INET6_def)

text \<open>The event of an established connection; \<open>kretprobe_connect\<close> reports exactly it.\<close>

definition connection_event :: "kernel \<Rightarrow> s32 \<Rightarrow> u64 \<Rightarrow> flow \<Rightarrow> connect_event_t" where
  "connection_event k fd sk f = \<lparr>ce_saddr = fl_laddr f, ce_daddr = fl_raddr f, ce_comm = k_comm k,
     ce_timestamp_ns = k_ktime_ns k, ce_sock = sk, ce_pid = cur_pid k, ce_tid = cur_tid k, ce_fd = fd,
     ce_family = fl_family f, ce_sport = fl_lport f, ce_dport = fl_rport f, ce_is_destroy = 0,
     ce_pad = replicate 7 0\<rparr>"

lemma kretprobe_connect_reports:
  assumes "passes_filter c k (Some ctx)" and "sock_holds l (k_kern k) sk f" and "flow_established f"
  shows "kretprobe_connect l c k ctx fd sk active s = (s\<lparr>os_connect_events := os_connect_events s @
     [connection_event k fd sk (if active then f else mirror f)]\<rparr>, 0)"
proof -
  have fam: "probe_kernel_word k (0 :: u16) (sk + SKC_FAMILY l) = (0, fl_family f)"
    using assms(2) by (simp add: sock_holds_def probe_kernel_word_ok)
  have ports: "probe_kernel_word k (u :: u32) (sk + SKC_PORTPAIR l) =
      (0, le_word (le_enc 2 (builtin_bswap16 (fl_rport f)) @ le_enc 2 (fl_lport f)))" for u
    using assms(2) by (simp add: sock_holds_def probe_kernel_word_ok)
  have "le_word (le_enc 2 (builtin_bswap16 (fl_rport f)) @ le_enc 2 (fl_lport f)) \<noteq> (0 :: u32)"
    using assms(3) by (intro port_pair(3)) (auto simp: flow_established_def)
  then show ?thesis
    using assms sock_addrs_holds [OF assms(2)]
    by (simp add: kretprobe_connect_def fam ports Let_def port_pair(1,2) flow_established_def
        connection_event_def connect_event_zero_def mirror_def cur_pid_def cur_tid_def)
qed

lemma fd_info_after_hooks:
  assumes "k_pid_tgid k2 = k_pid_tgid k1" and "map_room tcp_fd_infos_max (k_pid_tgid k1) (os_tcp_fd_infos s)"
    and "others (openssl_step tab l c) k_pid_tgid (k_pid_tgid k1) (fst (probe_connect k1 r1 s)) t1"
  shows "map_lookup (os_tcp_fd_infos t1) (k_pid_tgid k1) = Some \<lparr>fi_sock = 0, fi_fd = ucast (PT_REGS_PARM1 r1)\<rparr>"
    and "hook = probe_inet_stream_connect \<and> sock = PT_REGS_PARM1 r2 \<or>
         hook = probe_inet_accept \<and> sock = PT_REGS_PARM2 r2 \<Longrightarrow>
       others (openssl_step tab l c) k_pid_tgid (k_pid_tgid k1) (fst (hook k2 r2 t1)) t2 \<Longrightarrow>
       map_lookup (os_tcp_fd_infos t2) (k_pid_tgid k1) = Some \<lparr>fi_sock = sock, fi_fd = ucast (PT_REGS_PARM1 r1)\<rparr>"
proof -
  show 1: "map_lookup (os_tcp_fd_infos t1) (k_pid_tgid k1) = Some \<lparr>fi_sock = 0, fi_fd = ucast (PT_REGS_PARM1 r1)\<rparr>"
    using conn.others_keep [OF assms(3)] assms(2) by (simp add: probe_connect_def Let_def map_lookup_hash_update)
  show "map_lookup (os_tcp_fd_infos t2) (k_pid_tgid k1) = Some \<lparr>fi_sock = sock, fi_fd = ucast (PT_REGS_PARM1 r1)\<rparr>"
    if hook: "hook = probe_inet_stream_connect \<and> sock = PT_REGS_PARM1 r2 \<or>
        hook = probe_inet_accept \<and> sock = PT_REGS_PARM2 r2"
      and oth: "others (openssl_step tab l c) k_pid_tgid (k_pid_tgid k1) (fst (hook k2 r2 t1)) t2"
    using conn.others_keep [OF oth] hook 1 assms(1)
    by (auto simp: probe_inet_stream_connect_def probe_inet_accept_def connect_helper_defs)
qed

section \<open>Sample memories\<close>

text \<open>
  Concrete inputs of the witnesses: an \<open>SSL\<close> at 4096 whose write BIO at 8192 has descriptor 9 and
  method type 1285, with two bytes of data at 16384; and a \<open>struct socket\<close> at 4096 whose
  \<open>struct sock\<close> at 8192 is connected from 127.0.0.2:50000 to 127.0.0.1:443.
\<close>

definition openssl_table0 :: openssl_table where
  "openssl_table0 = \<lparr>SSL_ST_VERSION = 0, HAS_SSL_ST_VERSION = True, SSL_ST_RBIO = 16, SSL_ST_WBIO = 24, BIO_ST_NUM = 48,
     BIO_ST_METHOD = 0, BIO_METHOD_ST_TYPE = 0\<rparr>"

definition sample_user :: memory where
  "sample_user = poke 4120 (le_enc 8 (8192 :: u64)) (poke 8192 (le_enc 8 (12288 :: u64))
     (poke 8240 (le_enc 8 (9 :: u64)) (poke 12288 (le_enc 4 (1285 :: u32)) (poke 16384 [72, 105] (\<lambda>_. None)))))"

lemma sample_user_bio: "bio_holds openssl_table0 sample_user 4096 24 9 1285"
  unfolding bio_holds_def
  by (rule exI [of _ 8192], rule exI [of _ 12288])
    (simp add: sample_user_def openssl_table0_def read_mem_pokes)

lemma sample_user_data: "read_mem sample_user 2 16384 = Some [72, 105]"
  by (simp add: sample_user_def read_mem_pokes del: poke.simps)

definition sample_flow :: flow where
  "sample_flow = \<lparr>fl_family = AF_INET, fl_laddr = 0x0200007f, fl_lport = 50000, fl_raddr = 0x0100007f,
     fl_rport = 443\<rparr>"

definition sample_kern :: memory where
  "sample_kern = poke 4120 (le_enc 8 (8192 :: u64))
     (poke 8192 (le_enc 4 (0x0100007f :: u32) @ le_enc 4 (0x0200007f :: u32))
     (poke 8204 (le_enc 2 (builtin_bswap16 443) @ le_enc 2 (50000 :: u16))
     (poke 8208 (le_enc 2 AF_INET) (\<lambda>_. None))))"

lemma sample_kern_sock: "read_mem sample_kern 8 4120 = Some (le_enc 8 (8192 :: u64))"
  by (simp add: sample_kern_def read_mem_pokes)

lemma sample_kern_holds: "sock_holds vmlinux_layout sample_kern 8192 sample_flow"
proof -
  have "read_mem sample_kern 8 8192 = Some (le_enc 4 (0x0100007f :: u32) @ le_enc 4 (0x0200007f :: u32))"
    by (simp add: sample_kern_def read_mem_pokes)
  moreover have "read_mem sample_kern 4 8204 = Some (le_enc 2 (builtin_bswap16 443) @ le_enc 2 (50000 :: u16))"
    by (simp add: sample_kern_def read_mem_pokes)
  moreover have "read_mem sample_kern 2 8208 = Some (le_enc 2 AF_INET)"
    by (simp add: sample_kern_def read_mem_pokes)
  moreover have "\<exists>(la :: u32) (ra :: u32). (0x0200007f :: u128) = ucast la \<and> (0x0100007f :: u128) = ucast ra \<and>
      le_enc 4 (0x0100007f :: u32) @ le_enc 4 (0x0200007f :: u32) = le_enc 4 ra @ le_enc 4 la"
    by (rule exI [of _ "0x0200007f"], rule exI [of _ "0x0100007f"]) simp
  ultimately show ?thesis by (simp add: sock_holds_def sample_flow_def vmlinux_layout_def)
qed

definition sample_peer :: memory where
  "sample_peer = poke 8192 (le_enc 4 (0x0200007f :: u32) @ le_enc 4 (0x0100007f :: u32))
     (poke 8204 (le_enc 2 (builtin_bswap16 50000) @ le_enc 2 (443 :: u16))
     (poke 8208 (le_enc 2 AF_INET) (\<lambda>_. None)))"

lemma sample_peer_holds: "sock_holds vmlinux_layout sample_peer 8192 (mirror sample_flow)"
proof -
  have "read_mem sample_peer 8 8192 = Some (le_enc 4 (0x0200007f :: u32) @ le_enc 4 (0x0100007f :: u32))"
    by (simp add: sample_peer_def read_mem_pokes)
  moreover have "read_mem sample_peer 4 8204 = Some (le_enc 2 (builtin_bswap16 50000) @ le_enc 2 (443 :: u16))"
    by (simp add: sample_peer_def read_mem_pokes)
  moreover have "read_mem sample_peer 2 8208 = Some (le_enc 2 AF_INET)"
    by (simp add: sample_peer_def read_mem_pokes)
  moreover have "\<exists>(la :: u32) (ra :: u32). (0x0100007f :: u128) = ucast la \<and> (0x0200007f :: u128) = ucast ra \<and>
      le_enc 4 (0x0200007f :: u32) @ le_enc 4 (0x0100007f :: u32) = le_enc 4 ra @ le_enc 4 la"
    by (rule exI [of _ "0x0100007f"], rule exI [of _ "0x0200007f"]) simp
  ultimately show ?thesis by (simp add: sock_holds_def sample_flow_def mirror_def vmlinux_layout_def)
qed

lemma sample_flow_established: "flow_established sample_flow"
  by (simp add: flow_established_def sample_flow_def)

lemma rodata_default_passes: "passes_filter rodata_default k r"
  by (simp add: passes_filter_def rodata_default_def)

lemma openssl_init_maps: "args_map m openssl_init = []" "os_tcp_fd_infos openssl_init = []"
    "os_connect_events openssl_init = []" "os_tls_events openssl_init = []"
  by (cases m; simp add: args_map.simps openssl_init_def)+

section \<open>Properties\<close>

text \<open>
  C25: In every state the OpenSSL object can reach, for every offset table, kernel layout, filter
  and schedule, the four maps hold at most their capacity with distinct keys, every data event has
  exactly 16384 data bytes and a length between 0 and 16384, and every connection event is either
  an otherwise empty announcement of a destroyed socket or carries a socket, a known family and
  two non-zero addresses, with zeroed padding.
\<close>

theorem openssl_reachable_invariant: "openssl_reachable tab l c s \<Longrightarrow> openssl_inv s"
  by (rule openssl_reachable_inv)

theorem openssl_reachable_invariant_witness:
  "openssl_inv (fst (probe_tcp_v4_destroy_sock (X86 regs0)
     (fst (probe_entry_SSL_read openssl_table0 rodata_default kernel0 (X86 regs0) openssl_init))))"
  by (rule openssl_reachable_invariant [OF openssl_reachable.os_more [OF openssl_reachable.os_more
      [OF openssl_reachable.os_start openssl_step.os_entry_read] openssl_step.os_destroy]])

text \<open>
  C6: A thread that passes the filter enters \<open>SSL_write\<close> (or \<open>SSL_read\<close>) on an \<open>SSL\<close> whose BIO
  holds descriptor \<open>num\<close> and type \<open>bty\<close>, while the argument map has room; then any hooks of
  the object run for other threads; then the call returns a non-negative length, the first 16 KiB
  of which are readable at the buffer of the entry. The return hook reports exactly one event: the
  thread's ids, the direction, the clipped length, exactly the bytes of the call, the BIO type, and
  as descriptor \<open>num\<close>, or when it is 0 the one \<open>SSL_set_fd\<close> stored for this \<open>SSL\<close>. The
  pending record is gone.
\<close>

theorem ssl_call_reported:
  assumes "passes_filter c k1 (Some r1)" and "passes_filter c k2 (Some r2)"
    and "k_pid_tgid k2 = k_pid_tgid k1" and "openssl_inv s"
    and "bio_holds tab (k_user k1) (PT_REGS_PARM1 r1) off num bty"
    and "0 \<le> sint (ucast (PT_REGS_RC r2) :: s32)"
    and "read_mem (k_user k2) (min (unat (ucast (PT_REGS_RC r2) :: s32)) 16384) (PT_REGS_PARM2 r1) = Some bs"
    and "(ty, enter, return, m, off) =
           (kSSLWrite, probe_entry_SSL_write tab, probe_ret_SSL_write, active_ssl_write_args_map, SSL_ST_WBIO tab) \<or>
         (ty, enter, return, m, off) =
           (kSSLRead, probe_entry_SSL_read tab, probe_ret_SSL_read, active_ssl_read_args_map, SSL_ST_RBIO tab)"
    and "map_room active_ssl_max (k_pid_tgid k1) (args_map m s)"
    and "others (openssl_step tab l c) k_pid_tgid (k_pid_tgid k1) (fst (enter c k1 r1 s)) t"
  shows "\<exists>e. os_tls_events (fst (return c k2 r2 t)) = os_tls_events t @ [e] \<and> oe_type e = ty \<and>
     oe_pid e = cur_pid k1 \<and> oe_tid e = cur_tid k1 \<and> unat (oe_data_len e) = length bs \<and>
     take (length bs) (oe_data e) = bs \<and> oe_bio_type e = bty \<and>
     oe_fd e = (if (ucast num :: u32) \<noteq> 0 then ucast num
       else case map_lookup (os_ssl_st_fd s) (PT_REGS_PARM1 r1) of Some v \<Rightarrow> ucast v | None \<Rightarrow> 0) \<and>
     map_lookup (args_map m (fst (return c k2 r2 t))) (k_pid_tgid k1) = None"
proof -
  let ?a = "ssl_call_arg tab off k1 r1 s"
  have a: "ab_buf ?a = PT_REGS_PARM2 r1" "ab_bio_type ?a = bty"
      "ab_fd ?a = (if (ucast num :: u32) \<noteq> 0 then ucast num
       else case map_lookup (os_ssl_st_fd s) (PT_REGS_PARM1 r1) of Some v \<Rightarrow> ucast v | None \<Rightarrow> 0)"
    using process_SSL_bio_holds [OF assms(5)] by (auto simp: ssl_call_arg_def split: option.split)
  have "openssl_inv (fst (enter c k1 r1 s))"
    using assms(4,8) by (auto simp: ssl_hook_defs openssl_inv_hooks)
  then have inv: "openssl_inv t" using assms(10) by (auto intro: openssl_others_inv)
  have ids: "cur_pid k2 = cur_pid k1" "cur_tid k2 = cur_tid k1"
    using assms(3) by (simp_all add: cur_pid_def cur_tid_def)
  have "os_tls_events (fst (return c k2 r2 t)) = os_tls_events t @ ssl_report ty k2 r2 ?a t \<and>
      map_lookup (args_map m (fst (return c k2 r2 t))) (k_pid_tgid k1) = None"
    using assms(8) ssl_write.call_reported [OF assms(1-3)] ssl_read.call_reported [OF assms(1-3)] assms(9,10)
    by auto
  then show ?thesis
    using ssl_report_data [OF inv assms(6), of k2 ?a bs ty] assms(7) a ids by auto
qed

theorem ssl_call_reported_witness:
  "\<exists>e. os_tls_events (fst (probe_ret_SSL_write rodata_default (kernel0\<lparr>k_user := sample_user\<rparr>)
       (X86 (regs0\<lparr>x_ax := 2\<rparr>))
       (fst (probe_entry_SSL_write openssl_table0 rodata_default (kernel0\<lparr>k_user := sample_user\<rparr>)
         (X86 (regs0\<lparr>x_di := 4096, x_si := 16384\<rparr>)) openssl_init)))) = [e] \<and>
     oe_fd e = 9 \<and> oe_bio_type e = 1285 \<and> oe_pid e = 100 \<and> take 2 (oe_data e) = [72, 105]"
proof -
  let ?k = "kernel0\<lparr>k_user := sample_user\<rparr>"
  let ?r1 = "X86 (regs0\<lparr>x_di := 4096, x_si := 16384\<rparr>)" and ?r2 = "X86 (regs0\<lparr>x_ax := 2\<rparr>)"
  have bio: "bio_holds openssl_table0 (k_user ?k) (PT_REGS_PARM1 ?r1) 24 9 1285"
    using sample_user_bio by simp
  have data: "read_mem (k_user ?k) (min (unat (ucast (PT_REGS_RC ?r2) :: s32)) 16384) (PT_REGS_PARM2 ?r1) =
      Some [72, 105]"
    using sample_user_data by simp
  let ?t = "fst (probe_entry_SSL_write openssl_table0 rodata_default ?k ?r1 openssl_init)"
  have nn: "0 \<le> sint (ucast (PT_REGS_RC ?r2) :: s32)" by simp
  have hooks: "(kSSLWrite, probe_entry_SSL_write openssl_table0, probe_ret_SSL_write,
      active_ssl_write_args_map, 24) = (kSSLWrite, probe_entry_SSL_write openssl_table0, probe_ret_SSL_write,
      active_ssl_write_args_map, SSL_ST_WBIO openssl_table0)"
    by (simp add: openssl_table0_def)
  have room: "map_room active_ssl_max (k_pid_tgid ?k) (args_map active_ssl_write_args_map openssl_init)"
    by (simp add: map_room_def openssl_init_maps active_ssl_max_def)
  have ev: "os_tls_events ?t = []" by (simp add: ssl_write.entry_out openssl_init_maps)
  obtain e where "os_tls_events (fst (probe_ret_SSL_write rodata_default ?k ?r2 ?t)) = os_tls_events ?t @ [e]"
      and "oe_pid e = cur_pid ?k" and "take (length [72 :: u8, 105]) (oe_data e) = [72, 105]"
      and "oe_bio_type e = 1285" and "oe_fd e = (if (ucast (9 :: u64) :: u32) \<noteq> 0 then ucast (9 :: u64)
        else case map_lookup (os_ssl_st_fd openssl_init) (PT_REGS_PARM1 ?r1) of Some v \<Rightarrow> ucast v | None \<Rightarrow> 0)"
    using ssl_call_reported [OF rodata_default_passes rodata_default_passes refl openssl_inv_init bio nn data
        disjI1 [OF hooks] room others.others_none [where step = "openssl_step openssl_table0 vmlinux_layout rodata_default"]]
    by (elim exE conjE)
  moreover have "length [72 :: u8, 105] = 2" by simp
  ultimately show ?thesis using ev by (intro exI [of _ e]) (simp add: cur_pid_def del: list.size)
qed

text \<open>
  C20: A thread calls \<open>connect\<close> on descriptor \<open>fd\<close> (there is room for its record), the kernel
  enters \<open>inet_stream_connect\<close> with the thread's socket, and the call returns; between these hooks
  the object runs arbitrarily for other threads. If the socket then is established (IPv4 or IPv6)
  and the thread passes the filter, exactly one connection event is emitted: this descriptor and
  \<open>sock\<close>, the socket's own end as source and the peer as destination, both ports in host order;
  and the thread's record is removed.
\<close>

theorem connect_reported:
  assumes "k_pid_tgid k2 = k_pid_tgid k1" and "k_pid_tgid k3 = k_pid_tgid k1"
    and "map_room tcp_fd_infos_max (k_pid_tgid k1) (os_tcp_fd_infos s)"
    and "others (openssl_step tab l c) k_pid_tgid (k_pid_tgid k1) (fst (probe_connect k1 r1 s)) t1"
    and "others (openssl_step tab l c) k_pid_tgid (k_pid_tgid k1) (fst (probe_inet_stream_connect k2 r2 t1)) t2"
    and "passes_filter c k3 (Some r3)"
    and "read_mem (k_kern k3) 8 (PT_REGS_PARM1 r2 + SOCKET_SK l) = Some (le_enc 8 sk)" and "sk \<noteq> 0"
    and "sock_holds l (k_kern k3) sk f" and "flow_established f"
  shows "retprobe_connect l c k3 r3 t2 =
     (t2\<lparr>os_tcp_fd_infos := map_delete (k_pid_tgid k1) (os_tcp_fd_infos t2),
         os_connect_events := os_connect_events t2 @
           [connection_event k3 (ucast (PT_REGS_PARM1 r1)) sk f]\<rparr>, 0)"
proof -
  have "map_lookup (os_tcp_fd_infos t2) (k_pid_tgid k3) =
      Some \<lparr>fi_sock = PT_REGS_PARM1 r2, fi_fd = ucast (PT_REGS_PARM1 r1)\<rparr>"
    using fd_info_after_hooks(2) [where hook = probe_inet_stream_connect, OF assms(1,3,4) _ assms(5)] assms(2)
    by simp
  then show ?thesis
    using kretprobe_connect_reports [OF assms(6,9,10)] assms(2,7,8)
    by (simp add: retprobe_connect_def lookup_and_delete_fd_info_def Let_def probe_kernel_word_ok)
qed

theorem connect_reported_witness:
  "os_connect_events (fst (retprobe_connect vmlinux_layout rodata_default (kernel0\<lparr>k_kern := sample_kern\<rparr>) (X86 regs0)
     (fst (probe_inet_stream_connect kernel0 (X86 (regs0\<lparr>x_di := 4096\<rparr>))
       (fst (probe_connect kernel0 (X86 (regs0\<lparr>x_di := 7\<rparr>)) openssl_init)))))) =
   [connection_event (kernel0\<lparr>k_kern := sample_kern\<rparr>) 7 8192 sample_flow]"
proof -
  let ?k3 = "kernel0\<lparr>k_kern := sample_kern\<rparr>"
  let ?r1 = "X86 (regs0\<lparr>x_di := 7\<rparr>)" and ?r2 = "X86 (regs0\<lparr>x_di := 4096\<rparr>)"
  let ?t1 = "fst (probe_connect kernel0 ?r1 openssl_init)"
  let ?t2 = "fst (probe_inet_stream_connect kernel0 ?r2 ?t1)"
  have sock: "read_mem (k_kern ?k3) 8 (PT_REGS_PARM1 ?r2 + SOCKET_SK vmlinux_layout) =
      Some (le_enc 8 (8192 :: u64))"
    using sample_kern_sock by (simp add: vmlinux_layout_def)
  have holds: "sock_holds vmlinux_layout (k_kern ?k3) 8192 sample_flow" using sample_kern_holds by simp
  have ev: "os_connect_events ?t2 = []"
    by (simp add: probe_connect_def probe_inet_stream_connect_def connect_helper_defs openssl_init_maps split: option.split)
  have "retprobe_connect vmlinux_layout rodata_default ?k3 (X86 regs0) ?t2 =
     (?t2\<lparr>os_tcp_fd_infos := map_delete (k_pid_tgid kernel0) (os_tcp_fd_infos ?t2),
         os_connect_events := os_connect_events ?t2 @
           [connection_event ?k3 (ucast (PT_REGS_PARM1 ?r1)) 8192 sample_flow]\<rparr>, 0)"
    by (rule connect_reported [OF refl _ _ others.others_none others.others_none rodata_default_passes sock _ holds
        sample_flow_established]) (simp_all add: map_room_def openssl_init_maps tcp_fd_infos_max_def)
  with ev show ?thesis by simp
qed

text \<open>
  The same for a server: \<open>__sys_accept4\<close> is entered, \<open>inet_accept\<close> is entered with the
  new socket, and the call returns the new descriptor \<open>fd \<ge> 0\<close>. Exactly one connection event is
  emitted, with the returned descriptor and the two ends exchanged, so that the peer that
  connected is the source.
\<close>

theorem accept_reported:
  assumes "k_pid_tgid k2 = k_pid_tgid k1" and "k_pid_tgid k3 = k_pid_tgid k1"
    and "map_room tcp_fd_infos_max (k_pid_tgid k1) (os_tcp_fd_infos s)"
    and "others (openssl_step tab l c) k_pid_tgid (k_pid_tgid k1) (fst (probe_connect k1 r1 s)) t1"
    and "others (openssl_step tab l c) k_pid_tgid (k_pid_tgid k1) (fst (probe_inet_accept k2 r2 t1)) t2"
    and "passes_filter c k3 (Some r3)" and "0 \<le> sint (ucast (PT_REGS_RC r3) :: s32)"
    and "read_mem (k_kern k3) 8 (PT_REGS_PARM2 r2 + SOCKET_SK l) = Some (le_enc 8 sk)" and "sk \<noteq> 0"
    and "sock_holds l (k_kern k3) sk f" and "flow_established f"
  shows "retprobe_accept4 l c k3 r3 t2 =
     (t2\<lparr>os_tcp_fd_infos := map_delete (k_pid_tgid k1) (os_tcp_fd_infos t2),
         os_connect_events := os_connect_events t2 @
           [connection_event k3 (ucast (PT_REGS_RC r3)) sk (mirror f)]\<rparr>, 0)"
proof -
  have "map_lookup (os_tcp_fd_infos t2) (k_pid_tgid k3) =
      Some \<lparr>fi_sock = PT_REGS_PARM2 r2, fi_fd = ucast (PT_REGS_PARM1 r1)\<rparr>"
    using fd_info_after_hooks(2) [where hook = probe_inet_accept, OF assms(1,3,4) _ assms(5)] assms(2)
    by simp
  then show ?thesis
    using kretprobe_connect_reports [OF assms(6,10,11)] assms(2,7,8,9)
    by (simp add: retprobe_accept4_def lookup_and_delete_fd_info_def Let_def probe_kernel_word_ok)
qed

theorem accept_reported_witness:
  "os_connect_events (fst (retprobe_accept4 vmlinux_layout rodata_default (kernel0\<lparr>k_kern := sample_kern\<rparr>)
     (X86 (regs0\<lparr>x_ax := 5\<rparr>)) (fst (probe_inet_accept kernel0 (X86 (regs0\<lparr>x_si := 4096\<rparr>))
       (fst (probe_connect kernel0 (X86 (regs0\<lparr>x_di := 7\<rparr>)) openssl_init)))))) =
   [connection_event (kernel0\<lparr>k_kern := sample_kern\<rparr>) 5 8192 (mirror sample_flow)]"
proof -
  let ?k3 = "kernel0\<lparr>k_kern := sample_kern\<rparr>"
  let ?r1 = "X86 (regs0\<lparr>x_di := 7\<rparr>)" and ?r2 = "X86 (regs0\<lparr>x_si := 4096\<rparr>)"
    and ?r3 = "X86 (regs0\<lparr>x_ax := 5\<rparr>)"
  let ?t1 = "fst (probe_connect kernel0 ?r1 openssl_init)"
  let ?t2 = "fst (probe_inet_accept kernel0 ?r2 ?t1)"
  have sock: "read_mem (k_kern ?k3) 8 (PT_REGS_PARM2 ?r2 + SOCKET_SK vmlinux_layout) =
      Some (le_enc 8 (8192 :: u64))"
    using sample_kern_sock by (simp add: vmlinux_layout_def)
  have holds: "sock_holds vmlinux_layout (k_kern ?k3) 8192 sample_flow" using sample_kern_holds by simp
  have ev: "os_connect_events ?t2 = []"
    by (simp add: probe_connect_def probe_inet_accept_def connect_helper_defs openssl_init_maps split: option.split)
  have "retprobe_accept4 vmlinux_layout rodata_default ?k3 ?r3 ?t2 =
     (?t2\<lparr>os_tcp_fd_infos := map_delete (k_pid_tgid kernel0) (os_tcp_fd_infos ?t2),
         os_connect_events := os_connect_events ?t2 @
           [connection_event ?k3 (ucast (PT_REGS_RC ?r3)) 8192 (mirror sample_flow)]\<rparr>, 0)"
    by (rule accept_reported [OF refl _ _ others.others_none others.others_none rodata_default_passes _ sock _ holds
        sample_flow_established]) (simp_all add: map_room_def openssl_init_maps tcp_fd_infos_max_def)
  with ev show ?thesis by simp
qed

text \<open>
  C21: The two ends of one connection are reported as the same flow: when the client's socket and the
  server's socket mirror each other, the event of \<open>connect\<close> on one host and the event of \<open>accept\<close>
  on the other carry the same family, addresses and ports.
\<close>

theorem connect_accept_same_flow:
  assumes "passes_filter c1 k1 (Some r1)" and "sock_holds l1 (k_kern k1) sk1 f"
    and "passes_filter c2 k2 (Some r2)" and "sock_holds l2 (k_kern k2) sk2 (mirror f)"
    and "flow_established f"
  shows "\<exists>e1 e2. os_connect_events (fst (kretprobe_connect l1 c1 k1 r1 fd1 sk1 True s1)) = os_connect_events s1 @ [e1] \<and>
     os_connect_events (fst (kretprobe_connect l2 c2 k2 r2 fd2 sk2 False s2)) = os_connect_events s2 @ [e2] \<and>
     (ce_family e1, ce_saddr e1, ce_sport e1, ce_daddr e1, ce_dport e1) =
     (ce_family e2, ce_saddr e2, ce_sport e2, ce_daddr e2, ce_dport e2)"
proof -
  have "flow_established (mirror f)" using assms(5) by (auto simp: flow_established_def mirror_def)
  then show ?thesis
    using kretprobe_connect_reports [OF assms(1,2,5)] kretprobe_connect_reports [OF assms(3,4)]
    by (simp add: connection_event_def mirror_def)
qed

theorem connect_accept_same_flow_witness:
  "\<exists>e1 e2. os_connect_events (fst (kretprobe_connect vmlinux_layout rodata_default
       (kernel0\<lparr>k_kern := sample_kern\<rparr>) (X86 regs0) 7 8192 True openssl_init)) = [e1] \<and>
     os_connect_events (fst (kretprobe_connect vmlinux_layout rodata_default
       (kernel0\<lparr>k_kern := sample_peer\<rparr>) (X86 regs0) 5 8192 False openssl_init)) = [e2] \<and>
     (ce_family e1, ce_saddr e1, ce_sport e1, ce_daddr e1, ce_dport e1) =
     (ce_family e2, ce_saddr e2, ce_sport e2, ce_daddr e2, ce_dport e2)"
  using connect_accept_same_flow [where f = sample_flow and ?l1.0 = vmlinux_layout and ?l2.0 = vmlinux_layout
      and ?k1.0 = "kernel0\<lparr>k_kern := sample_kern\<rparr>" and ?k2.0 = "kernel0\<lparr>k_kern := sample_peer\<rparr>"
      and ?sk1.0 = 8192 and ?sk2.0 = 8192 and ?s1.0 = openssl_init and ?s2.0 = openssl_init
      and ?fd1.0 = 7 and ?fd2.0 = 5,
      OF rodata_default_passes _ rodata_default_passes _ sample_flow_established]
    sample_kern_holds sample_peer_holds
  by (simp add: openssl_init_maps)

text \<open>
  When a tracked \<open>accept4\<close> fails, its return hook leaves the thread's record in
  \<open>tcp_fd_infos\<close>: the early return for a negative descriptor comes before the deletion. The
  record stays until the same thread connects or accepts again, so a thread that exits after a
  failed accept occupies one of the 10240 entries for good.
\<close>

theorem accept_error_leaks_record:
  assumes "k_pid_tgid k3 = k_pid_tgid k1"
    and "map_room tcp_fd_infos_max (k_pid_tgid k1) (os_tcp_fd_infos s)"
    and "others (openssl_step tab l c) k_pid_tgid (k_pid_tgid k1) (fst (probe_connect k1 r1 s)) t"
    and "sint (ucast (PT_REGS_RC r3) :: s32) < 0"
    and "others (openssl_step tab l c) k_pid_tgid (k_pid_tgid k1) (fst (retprobe_accept4 l c k3 r3 t)) u"
  shows "map_lookup (os_tcp_fd_infos u) (k_pid_tgid k1) \<noteq> None"
proof -
  have "fst (retprobe_accept4 l c k3 r3 t) = t" using assms(4) by (simp add: retprobe_accept4_def)
  then show ?thesis
    using conn.others_keep [OF assms(5)] fd_info_after_hooks(1) [OF refl assms(2,3)] by simp
qed

theorem accept_error_leaks_record_witness:
  "map_lookup (os_tcp_fd_infos (fst (retprobe_accept4 vmlinux_layout rodata_default kernel0
     (X86 (regs0\<lparr>x_ax := - 11\<rparr>)) (fst (probe_connect kernel0 (X86 regs0) openssl_init))))) (k_pid_tgid kernel0) \<noteq> None"
  by (rule accept_error_leaks_record [where tab = openssl_table0 and l = vmlinux_layout and c = rodata_default,
      OF refl _ others.others_none _ others.others_none])
    (simp_all add: map_room_def openssl_init_maps tcp_fd_infos_max_def)

end
