(* ===== verification/Master_Secret.thy ===== *)
theory Master_Secret
  imports Ecapture_Filter "HOL-Library.Monad_Syntax"
begin

text \<open>
  What the master-key probes of OpenSSL, BoringSSL and GnuTLS share: kern/include/tls_constants.h,
  and reads from user memory into the fields of an event, each followed by an early return when
  it fails. A stage of a probe takes the event and returns \<open>Inr\<close> the event to go on with or
  \<open>Inl\<close> the event as an early return leaves it in its map.
\<close>

definition SSL3_RANDOM_SIZE :: nat where
  "SSL3_RANDOM_SIZE = 32"

definition MASTER_SECRET_MAX_LEN :: nat where
  "MASTER_SECRET_MAX_LEN = 48"

definition EVP_MAX_MD_SIZE :: nat where
  "EVP_MAX_MD_SIZE = 64"

definition TLS1_1_VERSION :: u32 where
  "TLS1_1_VERSION = 0x0302"

definition TLS1_2_VERSION :: u32 where
  "TLS1_2_VERSION = 0x0303"

definition TLS1_3_VERSION :: u32 where
  "TLS1_3_VERSION = 0x0304"

text \<open>Byte ranges (start, length) of an offset table: pairwise disjoint.\<close>

fun ranges_disjoint :: "(u64 \<times> u64) list \<Rightarrow> bool" where
  "ranges_disjoint [] = True"
| "ranges_disjoint ((a, n) # rs) =
     (list_all (\<lambda>(b, m). a + n \<le> b \<or> b + m \<le> a) rs \<and> ranges_disjoint rs)"

definition read_into ::
    "kernel \<Rightarrow> ('e \<Rightarrow> bytes) \<Rightarrow> ((bytes \<Rightarrow> bytes) \<Rightarrow> 'e \<Rightarrow> 'e) \<Rightarrow> u64 \<Rightarrow> 'e \<Rightarrow> 'e + 'e" where
  "read_into k get upd a e =
     (let (ret, bs) = probe_read_user k (get e) a; e = upd (\<lambda>_. bs) e
      in if ret \<noteq> 0 then Inl e else Inr e)"

definition read_word_into ::
    "kernel \<Rightarrow> ('e \<Rightarrow> 'w::len word) \<Rightarrow> (('w word \<Rightarrow> 'w word) \<Rightarrow> 'e \<Rightarrow> 'e) \<Rightarrow> u64 \<Rightarrow> 'e \<Rightarrow> 'e + 'e" where
  "read_word_into k get upd a e =
     (let (ret, w) = probe_user_word k (get e) a; e = upd (\<lambda>_. w) e
      in if ret \<noteq> 0 then Inl e else Inr e)"

text \<open>The event of a stage that went through.\<close>

definition outcome :: "'e + 'e \<Rightarrow> 'e option" where
  "outcome r = (case r of Inl _ \<Rightarrow> None | Inr e \<Rightarrow> Some e)"

lemma outcome_simps [simp]: "outcome (Inl e) = None" "outcome (Inr e) = Some e"
  by (simp_all add: outcome_def)

text \<open>Sequencing stages with early return is the option monad on \<open>outcome\<close>.\<close>

lemma outcome_case: "outcome (case r of Inl e \<Rightarrow> Inl e | Inr e \<Rightarrow> f e) = Option.bind (outcome r) (\<lambda>e. outcome (f e))"
  by (cases r) simp_all

lemma outcome_read_into:
  "outcome (read_into k get upd a e) =
     Option.bind (read_mem (k_user k) (length (get e)) a) (\<lambda>bs. Some (upd (\<lambda>_. bs) e))"
  by (cases "read_mem (k_user k) (length (get e)) a")
    (simp_all add: read_into_def probe_read_user_ok probe_read_user_fail EFAULT_def Let_def)

lemma outcome_read_word_into:
  fixes get :: "'e \<Rightarrow> 'w::len word"
  shows "outcome (read_word_into k get upd a e) =
     Option.bind (read_mem (k_user k) (LENGTH('w) div 8) a) (\<lambda>bs. Some (upd (\<lambda>_. le_word bs) e))"
proof (cases "read_mem (k_user k) (LENGTH('w) div 8) a")
  case None
  then obtain v where "probe_user_word k (get e) a = (- EFAULT, v)"
    using probe_user_word_fail by blast
  with None show ?thesis by (simp add: read_word_into_def EFAULT_def Let_def)
next
  case (Some bs)
  then show ?thesis by (simp add: read_word_into_def probe_user_word_ok Let_def)
qed

text \<open>A word of user memory, as the reference definitions of the probes read it.\<close>

definition user_word :: "kernel \<Rightarrow> u64 \<Rightarrow> 'w::len word option" where
  "user_word k a = map_option le_word (read_mem (k_user k) (LENGTH('w) div 8) a)"

definition user_bytes :: "kernel \<Rightarrow> nat \<Rightarrow> u64 \<Rightarrow> bytes option" where
  "user_bytes k n a = read_mem (k_user k) n a"

lemma user_word_probe:
  "(if fst (probe_user_word k (old :: 'w::len word) a) = 0
    then Some (snd (probe_user_word k old a)) else None) = (user_word k a :: 'w word option)"
  by (cases "read_mem (k_user k) (LENGTH('w) div 8) a")
    (auto simp: user_word_def probe_user_word_ok probe_user_word_ret)

lemma outcome_probe_word:
  "outcome (let (ret, w) = probe_user_word k (old :: 'w::len word) a in if ret \<noteq> 0 then Inl e else f w) =
     Option.bind (user_word k a) (\<lambda>w. outcome (f w))"
  by (auto simp: case_prod_beta user_word_probe [of k old a, symmetric])

lemma user_bytes_probe:
  "(if fst (probe_read_user k old a) = 0 then Some (snd (probe_read_user k old a)) else None) =
     user_bytes k (length old) a"
  by (cases "read_mem (k_user k) (length old) a")
    (auto simp: user_bytes_def probe_read_user_ok probe_read_user_ret)

lemma outcome_probe_bytes:
  "outcome (let (ret, w) = probe_read_user k old a in if ret \<noteq> 0 then Inl e else f w) =
     Option.bind (user_bytes k (length old) a) (\<lambda>w. outcome (f w))"
  by (auto simp: case_prod_beta user_bytes_probe [of k old a, symmetric])

lemma length_user_bytes: "user_bytes k n a = Some bs \<Longrightarrow> length bs = n"
  by (simp add: user_bytes_def length_read_mem)

lemma outcome_read_into':
  "outcome (read_into k get upd a e) =
     Option.bind (user_bytes k (length (get e)) a) (\<lambda>bs. Some (upd (\<lambda>_. bs) e))"
  by (simp add: outcome_read_into user_bytes_def)

lemma outcome_read_word_into':
  "outcome (read_word_into k get upd a e) = Option.bind (user_word k a) (\<lambda>w. Some (upd (\<lambda>_. w) e))"
  by (simp add: outcome_read_word_into user_word_def bind_map_option comp_def)

lemmas outcome_stages = outcome_case outcome_probe_word outcome_probe_bytes outcome_read_into'
  outcome_read_word_into'

text \<open>Words in a memory full of the byte 3, which the witnesses use.\<close>

lemma le_word_threes:
  "le_word (replicate 4 (3 :: u8)) = (0x03030303 :: u32)"
  "le_word (replicate 8 (3 :: u8)) = (0x0303030303030303 :: u64)"
proof -
  have "replicate 4 x = [x, x, x, x]" and "replicate 8 x = [x, x, x, x, x, x, x, x]" for x :: u8
    by (simp_all add: eval_nat_numeral)
  then show "le_word (replicate 4 (3 :: u8)) = (0x03030303 :: u32)"
    and "le_word (replicate 8 (3 :: u8)) = (0x0303030303030303 :: u64)"
    by (simp_all add: le_word_def)
qed

end
