(* ===== verification/Openssl_Offsets.thy ===== *)
theory Openssl_Offsets
  imports Openssl_Probe
begin

text \<open>
  The offset tables of the OpenSSL objects, kern/openssl_*_kern.c: each file defines where the
  fields of one range of OpenSSL versions lie and includes kern/openssl.h and one of the three
  master-key headers. \<open>openssl_mk_table\<close> extends the part kern/openssl.h uses; its fields drop
  the prefixes \<open>SSL_ST_\<close> (1.x to 3.1) and \<open>SSL_CONNECTION_ST_\<close> (3.2 on) of the macros.
  \<open>OT_CLIENT_RANDOM\<close> is relative to the \<open>ssl3_state_st\<close> in 1.x and to the \<open>SSL\<close> itself from
  3.0 on. \<open>OT_QUIC_TLS\<close> and \<open>OT_TYPE\<close> exist from 3.2 on only.
\<close>

record openssl_mk_table = openssl_table +
  OT_SESSION :: u64
  OT_S3 :: u64
  OT_SERVER :: u64
  OT_MASTER_KEY :: u64
  OT_CLIENT_RANDOM :: u64
  OT_CIPHER :: u64
  OT_CIPHER_ID :: u64
  OT_CIPHER_ST_ID :: u64
  OT_EARLY_SECRET :: u64
  OT_HANDSHAKE_SECRET :: u64
  OT_HANDSHAKE_TRAFFIC_HASH :: u64
  OT_CLIENT_APP_TRAFFIC_SECRET :: u64
  OT_SERVER_APP_TRAFFIC_SECRET :: u64
  OT_EXPORTER_MASTER_SECRET :: u64
  OT_TYPE :: "u64 option"
  OT_QUIC_TLS :: "u64 option"

definition openssl_1_0_2a :: openssl_mk_table where
  "openssl_1_0_2a = \<lparr>SSL_ST_VERSION = 0x0, HAS_SSL_ST_VERSION = True, SSL_ST_RBIO = 0x10,
     SSL_ST_WBIO = 0x18, BIO_ST_NUM = 0x28, BIO_ST_METHOD = 0x0,
     BIO_METHOD_ST_TYPE = 0x0, OT_SESSION = 0x130, OT_S3 = 0x80,
     OT_SERVER = 0x38, OT_MASTER_KEY = 0x14, OT_CLIENT_RANDOM = 0xc4,
     OT_CIPHER = 0xe0, OT_CIPHER_ID = 0xe8, OT_CIPHER_ST_ID = 0x10,
     OT_EARLY_SECRET = 0, OT_HANDSHAKE_SECRET = 0, OT_HANDSHAKE_TRAFFIC_HASH = 0,
     OT_CLIENT_APP_TRAFFIC_SECRET = 0, OT_SERVER_APP_TRAFFIC_SECRET = 0, OT_EXPORTER_MASTER_SECRET = 0,
     OT_TYPE = None, OT_QUIC_TLS = None\<rparr>"

definition openssl_1_1_0a :: openssl_mk_table where
  "openssl_1_1_0a = \<lparr>SSL_ST_VERSION = 0x0, HAS_SSL_ST_VERSION = True, SSL_ST_RBIO = 0x10,
     SSL_ST_WBIO = 0x18, BIO_ST_NUM = 0x28, BIO_ST_METHOD = 0x0,
     BIO_METHOD_ST_TYPE = 0x0, OT_SESSION = 0x178, OT_S3 = 0x90,
     OT_SERVER = 0x38, OT_MASTER_KEY = 0x8, OT_CLIENT_RANDOM = 0xb0,
     OT_CIPHER = 0xd8, OT_CIPHER_ID = 0xe0, OT_CIPHER_ST_ID = 0x10,
     OT_EARLY_SECRET = 0, OT_HANDSHAKE_SECRET = 0, OT_HANDSHAKE_TRAFFIC_HASH = 0,
     OT_CLIENT_APP_TRAFFIC_SECRET = 0, OT_SERVER_APP_TRAFFIC_SECRET = 0, OT_EXPORTER_MASTER_SECRET = 0,
     OT_TYPE = None, OT_QUIC_TLS = None\<rparr>"

definition openssl_1_1_1a :: openssl_mk_table where
  "openssl_1_1_1a = \<lparr>SSL_ST_VERSION = 0x0, HAS_SSL_ST_VERSION = True, SSL_ST_RBIO = 0x10,
     SSL_ST_WBIO = 0x18, BIO_ST_NUM = 0x30, BIO_ST_METHOD = 0x0,
     BIO_METHOD_ST_TYPE = 0x0, OT_SESSION = 0x510, OT_S3 = 0xa8,
     OT_SERVER = 0x38, OT_MASTER_KEY = 0x50, OT_CLIENT_RANDOM = 0xb8,
     OT_CIPHER = 0x1f8, OT_CIPHER_ID = 0x200, OT_CIPHER_ST_ID = 0x18,
     OT_EARLY_SECRET = 0x134, OT_HANDSHAKE_SECRET = 0x174, OT_HANDSHAKE_TRAFFIC_HASH = 0x2f4,
     OT_CLIENT_APP_TRAFFIC_SECRET = 0x334, OT_SERVER_APP_TRAFFIC_SECRET = 0x374, OT_EXPORTER_MASTER_SECRET = 0x3b4,
     OT_TYPE = None, OT_QUIC_TLS = None\<rparr>"

definition openssl_1_1_1b :: openssl_mk_table where
  "openssl_1_1_1b = \<lparr>SSL_ST_VERSION = 0x0, HAS_SSL_ST_VERSION = True, SSL_ST_RBIO = 0x10,
     SSL_ST_WBIO = 0x18, BIO_ST_NUM = 0x30, BIO_ST_METHOD = 0x0,
     BIO_METHOD_ST_TYPE = 0x0, OT_SESSION = 0x508, OT_S3 = 0xa8,
     OT_SERVER = 0x38, OT_MASTER_KEY = 0x50, OT_CLIENT_RANDOM = 0xb8,
     OT_CIPHER = 0x1f8, OT_CIPHER_ID = 0x200, OT_CIPHER_ST_ID = 0x18,
     OT_EARLY_SECRET = 0x134, OT_HANDSHAKE_SECRET = 0x174, OT_HANDSHAKE_TRAFFIC_HASH = 0x2f4,
     OT_CLIENT_APP_TRAFFIC_SECRET = 0x334, OT_SERVER_APP_TRAFFIC_SECRET = 0x374, OT_EXPORTER_MASTER_SECRET = 0x3b4,
     OT_TYPE = None, OT_QUIC_TLS = None\<rparr>"

definition openssl_1_1_1d :: openssl_mk_table where
  "openssl_1_1_1d = \<lparr>SSL_ST_VERSION = 0x0, HAS_SSL_ST_VERSION = True, SSL_ST_RBIO = 0x10,
     SSL_ST_WBIO = 0x18, BIO_ST_NUM = 0x30, BIO_ST_METHOD = 0x0,
     BIO_METHOD_ST_TYPE = 0x0, OT_SESSION = 0x510, OT_S3 = 0xa8,
     OT_SERVER = 0x38, OT_MASTER_KEY = 0x50, OT_CLIENT_RANDOM = 0xb8,
     OT_CIPHER = 0x1f8, OT_CIPHER_ID = 0x200, OT_CIPHER_ST_ID = 0x18,
     OT_EARLY_SECRET = 0x13c, OT_HANDSHAKE_SECRET = 0x17c, OT_HANDSHAKE_TRAFFIC_HASH = 0x2fc,
     OT_CLIENT_APP_TRAFFIC_SECRET = 0x33c, OT_SERVER_APP_TRAFFIC_SECRET = 0x37c, OT_EXPORTER_MASTER_SECRET = 0x3bc,
     OT_TYPE = None, OT_QUIC_TLS = None\<rparr>"

definition openssl_1_1_1j :: openssl_mk_table where
  "openssl_1_1_1j = \<lparr>SSL_ST_VERSION = 0x0, HAS_SSL_ST_VERSION = True, SSL_ST_RBIO = 0x10,
     SSL_ST_WBIO = 0x18, BIO_ST_NUM = 0x30, BIO_ST_METHOD = 0x0,
     BIO_METHOD_ST_TYPE = 0x0, OT_SESSION = 0x510, OT_S3 = 0xa8,
     OT_SERVER = 0x38, OT_MASTER_KEY = 0x50, OT_CLIENT_RANDOM = 0xb8,
     OT_CIPHER = 0x1f0, OT_CIPHER_ID = 0x1f8, OT_CIPHER_ST_ID = 0x18,
     OT_EARLY_SECRET = 0x13c, OT_HANDSHAKE_SECRET = 0x17c, OT_HANDSHAKE_TRAFFIC_HASH = 0x2fc,
     OT_CLIENT_APP_TRAFFIC_SECRET = 0x33c, OT_SERVER_APP_TRAFFIC_SECRET = 0x37c, OT_EXPORTER_MASTER_SECRET = 0x3bc,
     OT_TYPE = None, OT_QUIC_TLS = None\<rparr>"

definition openssl_3_0_0 :: openssl_mk_table where
  "openssl_3_0_0 = \<lparr>SSL_ST_VERSION = 0x0, HAS_SSL_ST_VERSION = True, SSL_ST_RBIO = 0x10,
     SSL_ST_WBIO = 0x18, BIO_ST_NUM = 0x38, BIO_ST_METHOD = 0x8,
     BIO_METHOD_ST_TYPE = 0x0, OT_SESSION = 0x918, OT_S3 = 0xa8,
     OT_SERVER = 0x38, OT_MASTER_KEY = 0x50, OT_CLIENT_RANDOM = 0x160,
     OT_CIPHER = 0x2f8, OT_CIPHER_ID = 0x300, OT_CIPHER_ST_ID = 0x18,
     OT_EARLY_SECRET = 0x544, OT_HANDSHAKE_SECRET = 0x584, OT_HANDSHAKE_TRAFFIC_HASH = 0x704,
     OT_CLIENT_APP_TRAFFIC_SECRET = 0x744, OT_SERVER_APP_TRAFFIC_SECRET = 0x784, OT_EXPORTER_MASTER_SECRET = 0x7c4,
     OT_TYPE = None, OT_QUIC_TLS = None\<rparr>"

definition openssl_3_0_12 :: openssl_mk_table where
  "openssl_3_0_12 = \<lparr>SSL_ST_VERSION = 0x0, HAS_SSL_ST_VERSION = True, SSL_ST_RBIO = 0x10,
     SSL_ST_WBIO = 0x18, BIO_ST_NUM = 0x38, BIO_ST_METHOD = 0x8,
     BIO_METHOD_ST_TYPE = 0x0, OT_SESSION = 0x938, OT_S3 = 0xa8,
     OT_SERVER = 0x38, OT_MASTER_KEY = 0x50, OT_CLIENT_RANDOM = 0x160,
     OT_CIPHER = 0x2f8, OT_CIPHER_ID = 0x300, OT_CIPHER_ST_ID = 0x18,
     OT_EARLY_SECRET = 0x544, OT_HANDSHAKE_SECRET = 0x584, OT_HANDSHAKE_TRAFFIC_HASH = 0x704,
     OT_CLIENT_APP_TRAFFIC_SECRET = 0x744, OT_SERVER_APP_TRAFFIC_SECRET = 0x784, OT_EXPORTER_MASTER_SECRET = 0x7c4,
     OT_TYPE = None, OT_QUIC_TLS = None\<rparr>"

definition openssl_3_1_0 :: openssl_mk_table where
  "openssl_3_1_0 = \<lparr>SSL_ST_VERSION = 0x0, HAS_SSL_ST_VERSION = True, SSL_ST_RBIO = 0x10,
     SSL_ST_WBIO = 0x18, BIO_ST_NUM = 0x38, BIO_ST_METHOD = 0x8,
     BIO_METHOD_ST_TYPE = 0x0, OT_SESSION = 0x918, OT_S3 = 0xa8,
     OT_SERVER = 0x38, OT_MASTER_KEY = 0x50, OT_CLIENT_RANDOM = 0x160,
     OT_CIPHER = 0x2f8, OT_CIPHER_ID = 0x300, OT_CIPHER_ST_ID = 0x18,
     OT_EARLY_SECRET = 0x544, OT_HANDSHAKE_SECRET = 0x584, OT_HANDSHAKE_TRAFFIC_HASH = 0x704,
     OT_CLIENT_APP_TRAFFIC_SECRET = 0x744, OT_SERVER_APP_TRAFFIC_SECRET = 0x784, OT_EXPORTER_MASTER_SECRET = 0x7c4,
     OT_TYPE = None, OT_QUIC_TLS = None\<rparr>"

definition openssl_3_2_0 :: openssl_mk_table where
  "openssl_3_2_0 = \<lparr>SSL_ST_VERSION = 0x40, HAS_SSL_ST_VERSION = True, SSL_ST_RBIO = 0x48,
     SSL_ST_WBIO = 0x50, BIO_ST_NUM = 0x38, BIO_ST_METHOD = 0x8,
     BIO_METHOD_ST_TYPE = 0x0, OT_SESSION = 0x880, OT_S3 = 0x118,
     OT_SERVER = 0x70, OT_MASTER_KEY = 0x50, OT_CLIENT_RANDOM = 0x140,
     OT_CIPHER = 0x300, OT_CIPHER_ID = 0x308, OT_CIPHER_ST_ID = 0x18,
     OT_EARLY_SECRET = 0x4fc, OT_HANDSHAKE_SECRET = 0x53c, OT_HANDSHAKE_TRAFFIC_HASH = 0x6bc,
     OT_CLIENT_APP_TRAFFIC_SECRET = 0x6fc, OT_SERVER_APP_TRAFFIC_SECRET = 0x73c, OT_EXPORTER_MASTER_SECRET = 0x77c,
     OT_TYPE = Some 0x0, OT_QUIC_TLS = Some 0x40\<rparr>"

definition openssl_3_2_3 :: openssl_mk_table where
  "openssl_3_2_3 = \<lparr>SSL_ST_VERSION = 0x40, HAS_SSL_ST_VERSION = True, SSL_ST_RBIO = 0x48,
     SSL_ST_WBIO = 0x50, BIO_ST_NUM = 0x38, BIO_ST_METHOD = 0x8,
     BIO_METHOD_ST_TYPE = 0x0, OT_SESSION = 0x880, OT_S3 = 0x118,
     OT_SERVER = 0x70, OT_MASTER_KEY = 0x50, OT_CLIENT_RANDOM = 0x140,
     OT_CIPHER = 0x2f8, OT_CIPHER_ID = 0x300, OT_CIPHER_ST_ID = 0x18,
     OT_EARLY_SECRET = 0x4fc, OT_HANDSHAKE_SECRET = 0x53c, OT_HANDSHAKE_TRAFFIC_HASH = 0x6bc,
     OT_CLIENT_APP_TRAFFIC_SECRET = 0x6fc, OT_SERVER_APP_TRAFFIC_SECRET = 0x73c, OT_EXPORTER_MASTER_SECRET = 0x77c,
     OT_TYPE = Some 0x0, OT_QUIC_TLS = Some 0x40\<rparr>"

definition openssl_3_2_4 :: openssl_mk_table where
  "openssl_3_2_4 = \<lparr>SSL_ST_VERSION = 0x48, HAS_SSL_ST_VERSION = True, SSL_ST_RBIO = 0x50,
     SSL_ST_WBIO = 0x58, BIO_ST_NUM = 0x38, BIO_ST_METHOD = 0x8,
     BIO_METHOD_ST_TYPE = 0x0, OT_SESSION = 0x888, OT_S3 = 0x120,
     OT_SERVER = 0x78, OT_MASTER_KEY = 0x50, OT_CLIENT_RANDOM = 0x148,
     OT_CIPHER = 0x2f8, OT_CIPHER_ID = 0x300, OT_CIPHER_ST_ID = 0x18,
     OT_EARLY_SECRET = 0x504, OT_HANDSHAKE_SECRET = 0x544, OT_HANDSHAKE_TRAFFIC_HASH = 0x6c4,
     OT_CLIENT_APP_TRAFFIC_SECRET = 0x704, OT_SERVER_APP_TRAFFIC_SECRET = 0x744, OT_EXPORTER_MASTER_SECRET = 0x784,
     OT_TYPE = Some 0x0, OT_QUIC_TLS = Some 0x40\<rparr>"

definition openssl_3_3_0 :: openssl_mk_table where
  "openssl_3_3_0 = \<lparr>SSL_ST_VERSION = 0x40, HAS_SSL_ST_VERSION = True, SSL_ST_RBIO = 0x48,
     SSL_ST_WBIO = 0x50, BIO_ST_NUM = 0x38, BIO_ST_METHOD = 0x8,
     BIO_METHOD_ST_TYPE = 0x0, OT_SESSION = 0x880, OT_S3 = 0x118,
     OT_SERVER = 0x70, OT_MASTER_KEY = 0x50, OT_CLIENT_RANDOM = 0x140,
     OT_CIPHER = 0x300, OT_CIPHER_ID = 0x308, OT_CIPHER_ST_ID = 0x18,
     OT_EARLY_SECRET = 0x4fc, OT_HANDSHAKE_SECRET = 0x53c, OT_HANDSHAKE_TRAFFIC_HASH = 0x6bc,
     OT_CLIENT_APP_TRAFFIC_SECRET = 0x6fc, OT_SERVER_APP_TRAFFIC_SECRET = 0x73c, OT_EXPORTER_MASTER_SECRET = 0x77c,
     OT_TYPE = Some 0x0, OT_QUIC_TLS = Some 0x40\<rparr>"

definition openssl_3_3_2 :: openssl_mk_table where
  "openssl_3_3_2 = \<lparr>SSL_ST_VERSION = 0x40, HAS_SSL_ST_VERSION = True, SSL_ST_RBIO = 0x48,
     SSL_ST_WBIO = 0x50, BIO_ST_NUM = 0x38, BIO_ST_METHOD = 0x8,
     BIO_METHOD_ST_TYPE = 0x0, OT_SESSION = 0x880, OT_S3 = 0x118,
     OT_SERVER = 0x70, OT_MASTER_KEY = 0x50, OT_CLIENT_RANDOM = 0x140,
     OT_CIPHER = 0x2f8, OT_CIPHER_ID = 0x300, OT_CIPHER_ST_ID = 0x18,
     OT_EARLY_SECRET = 0x4fc, OT_HANDSHAKE_SECRET = 0x53c, OT_HANDSHAKE_TRAFFIC_HASH = 0x6bc,
     OT_CLIENT_APP_TRAFFIC_SECRET = 0x6fc, OT_SERVER_APP_TRAFFIC_SECRET = 0x73c, OT_EXPORTER_MASTER_SECRET = 0x77c,
     OT_TYPE = Some 0x0, OT_QUIC_TLS = Some 0x40\<rparr>"

definition openssl_3_3_3 :: openssl_mk_table where
  "openssl_3_3_3 = \<lparr>SSL_ST_VERSION = 0x48, HAS_SSL_ST_VERSION = True, SSL_ST_RBIO = 0x50,
     SSL_ST_WBIO = 0x58, BIO_ST_NUM = 0x38, BIO_ST_METHOD = 0x8,
     BIO_METHOD_ST_TYPE = 0x0, OT_SESSION = 0x888, OT_S3 = 0x120,
     OT_SERVER = 0x78, OT_MASTER_KEY = 0x50, OT_CLIENT_RANDOM = 0x148,
     OT_CIPHER = 0x2f8, OT_CIPHER_ID = 0x300, OT_CIPHER_ST_ID = 0x18,
     OT_EARLY_SECRET = 0x504, OT_HANDSHAKE_SECRET = 0x544, OT_HANDSHAKE_TRAFFIC_HASH = 0x6c4,
     OT_CLIENT_APP_TRAFFIC_SECRET = 0x704, OT_SERVER_APP_TRAFFIC_SECRET = 0x744, OT_EXPORTER_MASTER_SECRET = 0x784,
     OT_TYPE = Some 0x0, OT_QUIC_TLS = Some 0x40\<rparr>"

definition openssl_3_4_0 :: openssl_mk_table where
  "openssl_3_4_0 = \<lparr>SSL_ST_VERSION = 0x40, HAS_SSL_ST_VERSION = True, SSL_ST_RBIO = 0x48,
     SSL_ST_WBIO = 0x50, BIO_ST_NUM = 0x38, BIO_ST_METHOD = 0x8,
     BIO_METHOD_ST_TYPE = 0x0, OT_SESSION = 0x880, OT_S3 = 0x118,
     OT_SERVER = 0x70, OT_MASTER_KEY = 0x50, OT_CLIENT_RANDOM = 0x140,
     OT_CIPHER = 0x2f8, OT_CIPHER_ID = 0x300, OT_CIPHER_ST_ID = 0x18,
     OT_EARLY_SECRET = 0x4fc, OT_HANDSHAKE_SECRET = 0x53c, OT_HANDSHAKE_TRAFFIC_HASH = 0x6bc,
     OT_CLIENT_APP_TRAFFIC_SECRET = 0x6fc, OT_SERVER_APP_TRAFFIC_SECRET = 0x73c, OT_EXPORTER_MASTER_SECRET = 0x77c,
     OT_TYPE = Some 0x0, OT_QUIC_TLS = Some 0x40\<rparr>"

definition openssl_3_4_1 :: openssl_mk_table where
  "openssl_3_4_1 = \<lparr>SSL_ST_VERSION = 0x48, HAS_SSL_ST_VERSION = True, SSL_ST_RBIO = 0x50,
     SSL_ST_WBIO = 0x58, BIO_ST_NUM = 0x38, BIO_ST_METHOD = 0x8,
     BIO_METHOD_ST_TYPE = 0x0, OT_SESSION = 0x888, OT_S3 = 0x120,
     OT_SERVER = 0x78, OT_MASTER_KEY = 0x50, OT_CLIENT_RANDOM = 0x148,
     OT_CIPHER = 0x2f8, OT_CIPHER_ID = 0x300, OT_CIPHER_ST_ID = 0x18,
     OT_EARLY_SECRET = 0x504, OT_HANDSHAKE_SECRET = 0x544, OT_HANDSHAKE_TRAFFIC_HASH = 0x6c4,
     OT_CLIENT_APP_TRAFFIC_SECRET = 0x704, OT_SERVER_APP_TRAFFIC_SECRET = 0x744, OT_EXPORTER_MASTER_SECRET = 0x784,
     OT_TYPE = Some 0x0, OT_QUIC_TLS = Some 0x40\<rparr>"

definition openssl_3_5_0 :: openssl_mk_table where
  "openssl_3_5_0 = \<lparr>SSL_ST_VERSION = 0x48, HAS_SSL_ST_VERSION = True, SSL_ST_RBIO = 0x50,
     SSL_ST_WBIO = 0x58, BIO_ST_NUM = 0x38, BIO_ST_METHOD = 0x8,
     BIO_METHOD_ST_TYPE = 0x0, OT_SESSION = 0x900, OT_S3 = 0x160,
     OT_SERVER = 0x78, OT_MASTER_KEY = 0x50, OT_CLIENT_RANDOM = 0x188,
     OT_CIPHER = 0x2f8, OT_CIPHER_ID = 0x300, OT_CIPHER_ST_ID = 0x18,
     OT_EARLY_SECRET = 0x57c, OT_HANDSHAKE_SECRET = 0x5bc, OT_HANDSHAKE_TRAFFIC_HASH = 0x73c,
     OT_CLIENT_APP_TRAFFIC_SECRET = 0x77c, OT_SERVER_APP_TRAFFIC_SECRET = 0x7bc, OT_EXPORTER_MASTER_SECRET = 0x7fc,
     OT_TYPE = Some 0x0, OT_QUIC_TLS = Some 0x78\<rparr>"

lemmas openssl_table_defs [layout_simps] = openssl_1_0_2a_def openssl_1_1_0a_def openssl_1_1_1a_def
    openssl_1_1_1b_def openssl_1_1_1d_def openssl_1_1_1j_def openssl_3_0_0_def openssl_3_0_12_def
    openssl_3_1_0_def openssl_3_2_0_def openssl_3_2_3_def openssl_3_2_4_def openssl_3_3_0_def
    openssl_3_3_2_def openssl_3_3_3_def openssl_3_4_0_def openssl_3_4_1_def openssl_3_5_0_def

end
