(* ===== verification/Openssl_Masterkey.thy ===== *)
theory Openssl_Masterkey
  imports Master_Secret Openssl_Offsets
begin

text \<open>
  kern/openssl_masterkey.h (OpenSSL 1.x), kern/openssl_masterkey_3.0.h (3.0, 3.1) and
  kern/openssl_masterkey_3.2.h (from 3.2 on): the program \<open>probe_ssl_master_key\<close>, which on each
  \<open>SSL_write\<close> reads the TLS secrets out of the \<open>SSL\<close> object and reports them; and
  kern/include/openssl_masterkey_common.h, its maps and \<open>make_event\<close>. The three programs differ
  in where the client random lies and agree, up to the names of the macros, from the session
  pointer on; the common stages are defined once.
\<close>

record mastersecret_t =
  ms_version :: s32
  client_random :: bytes
  master_key :: bytes
  cipher_id :: u32
  early_secret :: bytes
  handshake_secret :: bytes
  handshake_traffic_hash :: bytes
  client_app_traffic_secret :: bytes
  server_app_traffic_secret :: bytes
  exporter_master_secret :: bytes

definition mastersecret_zero :: mastersecret_t where
  "mastersecret_zero = \<lparr>ms_version = 0, client_random = replicate SSL3_RANDOM_SIZE 0,
     master_key = replicate MASTER_SECRET_MAX_LEN 0, cipher_id = 0,
     early_secret = replicate EVP_MAX_MD_SIZE 0, handshake_secret = replicate EVP_MAX_MD_SIZE 0,
     handshake_traffic_hash = replicate EVP_MAX_MD_SIZE 0,
     client_app_traffic_secret = replicate EVP_MAX_MD_SIZE 0,
     server_app_traffic_secret = replicate EVP_MAX_MD_SIZE 0,
     exporter_master_secret = replicate EVP_MAX_MD_SIZE 0\<rparr>"

record mk_state =
  mk_context :: "(u64, mastersecret_t) bmap"
  mk_context_gen :: mastersecret_t
  mk_events :: "mastersecret_t list"

definition bpf_context_max :: nat where
  "bpf_context_max = 2048"

definition mk_init :: mk_state where
  "mk_init = \<lparr>mk_context = [], mk_context_gen = mastersecret_zero, mk_events = []\<rparr>"

definition make_event :: "kernel \<Rightarrow> mk_state \<Rightarrow> mastersecret_t option \<times> mk_state" where
  "make_event k s =
     (case array1_lookup 0 (mk_context_gen s) of
        None \<Rightarrow> (None, s)
      | Some bpf_ctx \<Rightarrow>
          let pid_tgid = k_pid_tgid k;
              s = s\<lparr>mk_context := lru_update bpf_context_max (k_victim k) pid_tgid bpf_ctx (mk_context s)\<rparr>
          in (map_lookup (mk_context s) pid_tgid, s))"

text \<open>
  \<open>mastersecret\<close> points into \<open>bpf_context\<close>: whatever a run stored through it stays there; a run
  that went through also sends the event.
\<close>

definition mk_leave :: "kernel \<Rightarrow> mk_state \<Rightarrow> mastersecret_t + mastersecret_t \<Rightarrow> mk_state" where
  "mk_leave k s r =
     (case r of
        Inl e \<Rightarrow> s\<lparr>mk_context := map_modify (k_pid_tgid k) (\<lambda>_. e) (mk_context s)\<rparr>
      | Inr e \<Rightarrow> s\<lparr>mk_context := map_modify (k_pid_tgid k) (\<lambda>_. e) (mk_context s),
                   mk_events := mk_events s @ [e]\<rparr>)"

section \<open>The stages\<close>

definition mk_read_version ::
    "openssl_mk_table \<Rightarrow> kernel \<Rightarrow> u64 \<Rightarrow> mastersecret_t \<Rightarrow> mastersecret_t + mastersecret_t" where
  "mk_read_version tab k ssl_st_ptr mastersecret =
     (let (ret, version) = probe_user_word k (uninit_word k ''version'' :: s32)
            (ssl_st_ptr + SSL_ST_VERSION tab)
      in if ret \<noteq> 0 then Inl mastersecret else Inr (mastersecret\<lparr>ms_version := version\<rparr>))"

definition mk_read_cipher_id ::
    "openssl_mk_table \<Rightarrow> kernel \<Rightarrow> u64 \<Rightarrow> u64 \<Rightarrow> mastersecret_t \<Rightarrow> mastersecret_t + mastersecret_t" where
  "mk_read_cipher_id tab k ssl_session_st_addr address mastersecret =
     (let (ret, address) = probe_user_word k address (ssl_session_st_addr + OT_CIPHER tab)
      in if ret \<noteq> 0 \<or> address = 0
         then read_word_into k cipher_id cipher_id_update (ssl_session_st_addr + OT_CIPHER_ID tab) mastersecret
         else read_word_into k cipher_id cipher_id_update (address + OT_CIPHER_ST_ID tab) mastersecret)"

definition mk_read_tls13 ::
    "openssl_mk_table \<Rightarrow> kernel \<Rightarrow> u64 \<Rightarrow> mastersecret_t \<Rightarrow> mastersecret_t + mastersecret_t" where
  "mk_read_tls13 tab k ssl_st_ptr e =
     (let e = e\<lparr>early_secret :=
            snd (probe_read_user k (early_secret e) (ssl_st_ptr + OT_EARLY_SECRET tab))\<rparr> in
      case read_into k handshake_secret handshake_secret_update (ssl_st_ptr + OT_HANDSHAKE_SECRET tab) e of
        Inl e \<Rightarrow> Inl e | Inr e \<Rightarrow>
      (case read_into k handshake_traffic_hash handshake_traffic_hash_update
              (ssl_st_ptr + OT_HANDSHAKE_TRAFFIC_HASH tab) e of
        Inl e \<Rightarrow> Inl e | Inr e \<Rightarrow>
      (case read_into k client_app_traffic_secret client_app_traffic_secret_update
              (ssl_st_ptr + OT_CLIENT_APP_TRAFFIC_SECRET tab) e of
        Inl e \<Rightarrow> Inl e | Inr e \<Rightarrow>
      (case read_into k server_app_traffic_secret server_app_traffic_secret_update
              (ssl_st_ptr + OT_SERVER_APP_TRAFFIC_SECRET tab) e of
        Inl e \<Rightarrow> Inl e | Inr e \<Rightarrow>
      read_into k exporter_master_secret exporter_master_secret_update
              (ssl_st_ptr + OT_EXPORTER_MASTER_SECRET tab) e))))"

text \<open>From the session pointer on: one secret before TLS 1.3, the schedule's secrets in TLS 1.3.\<close>

definition mk_read_session ::
    "openssl_mk_table \<Rightarrow> kernel \<Rightarrow> u64 \<Rightarrow> u64 \<Rightarrow> mastersecret_t \<Rightarrow> mastersecret_t + mastersecret_t" where
  "mk_read_session tab k ssl_st_ptr address mastersecret =
     (let (ret, ssl_session_st_addr) = probe_user_word k (uninit_word k ''ssl_session_st_addr'' :: u64)
            (ssl_st_ptr + OT_SESSION tab)
      in if ret \<noteq> 0 then Inl mastersecret
      else if ms_version mastersecret \<noteq> TLS1_3_VERSION
      then read_into k master_key master_key_update (ssl_session_st_addr + OT_MASTER_KEY tab) mastersecret
      else
      case mk_read_cipher_id tab k ssl_session_st_addr address mastersecret of
        Inl e \<Rightarrow> Inl e
      | Inr e \<Rightarrow> mk_read_tls13 tab k ssl_st_ptr e)"

section \<open>The three programs\<close>

text \<open>OpenSSL 1.x: the client random lies in the \<open>ssl3_state_st\<close> that \<open>SSL->s3\<close> points to.\<close>

definition mk_body_1x ::
    "openssl_mk_table \<Rightarrow> kernel \<Rightarrow> u64 \<Rightarrow> mastersecret_t \<Rightarrow> mastersecret_t + mastersecret_t" where
  "mk_body_1x tab k ssl_st_ptr mastersecret =
     (case mk_read_version tab k ssl_st_ptr mastersecret of
        Inl e \<Rightarrow> Inl e
      | Inr e \<Rightarrow>
          let (ret, address) = probe_user_word k (uninit_word k ''address'' :: u64) (ssl_st_ptr + OT_S3 tab)
          in if ret \<noteq> 0 then Inl e
          else
          case read_into k client_random client_random_update (address + OT_CLIENT_RANDOM tab) e of
            Inl e \<Rightarrow> Inl e
          | Inr e \<Rightarrow> mk_read_session tab k ssl_st_ptr address e)"

text \<open>
  From 3.0 on it lies in the \<open>SSL\<close> and is read into a stack buffer first; the copy from there
  with \<open>bpf_probe_read_kernel\<close> reads the program's own stack and cannot fail.
\<close>

definition mk_body_3x ::
    "openssl_mk_table \<Rightarrow> kernel \<Rightarrow> u64 \<Rightarrow> mastersecret_t \<Rightarrow> mastersecret_t + mastersecret_t" where
  "mk_body_3x tab k ssl_st_ptr mastersecret =
     (case mk_read_version tab k ssl_st_ptr mastersecret of
        Inl e \<Rightarrow> Inl e
      | Inr e \<Rightarrow>
          let (ret, random) = probe_read_user k (uninit_bytes k ''client_random'' SSL3_RANDOM_SIZE)
                (ssl_st_ptr + OT_CLIENT_RANDOM tab)
          in if ret \<noteq> 0 then Inl e
          else mk_read_session tab k ssl_st_ptr (uninit_word k ''address'') (e\<lparr>client_random := random\<rparr>))"

definition probe_ssl_master_key_1x ::
    "openssl_mk_table \<Rightarrow> rodata \<Rightarrow> kernel \<Rightarrow> pt_regs \<Rightarrow> mk_state \<Rightarrow> mk_state \<times> int" where
  "probe_ssl_master_key_1x tab c k ctx s =
     (if \<not> passes_filter c k (Some ctx) then (s, 0)
      else
      let (mastersecret, s) = make_event k s; ssl_st_ptr = PT_REGS_PARM1 ctx
      in case mastersecret of
           None \<Rightarrow> (s, 0)
         | Some e \<Rightarrow> (mk_leave k s (mk_body_1x tab k ssl_st_ptr e), 0))"

definition probe_ssl_master_key_30 ::
    "openssl_mk_table \<Rightarrow> rodata \<Rightarrow> kernel \<Rightarrow> pt_regs \<Rightarrow> mk_state \<Rightarrow> mk_state \<times> int" where
  "probe_ssl_master_key_30 tab c k ctx s =
     (if \<not> passes_filter c k (Some ctx) then (s, 0)
      else
      let (mastersecret, s) = make_event k s; ssl_st_ptr = PT_REGS_PARM1 ctx
      in case mastersecret of
           None \<Rightarrow> (s, 0)
         | Some e \<Rightarrow> (mk_leave k s (mk_body_3x tab k ssl_st_ptr e), 0))"

definition SSL_TYPE_QUIC_CONNECTION :: int where
  "SSL_TYPE_QUIC_CONNECTION = 1"

text \<open>From 3.2 on the type of the object is not read yet: the variable is the constant 0.\<close>

definition probe_ssl_master_key_32 ::
    "openssl_mk_table \<Rightarrow> rodata \<Rightarrow> kernel \<Rightarrow> pt_regs \<Rightarrow> mk_state \<Rightarrow> mk_state \<times> int" where
  "probe_ssl_master_key_32 tab c k ctx s =
     (if \<not> passes_filter c k (Some ctx) then (s, 0)
      else
      let (mastersecret, s) = make_event k s; ssl_st_ptr = PT_REGS_PARM1 ctx
      in case mastersecret of
           None \<Rightarrow> (s, 0)
         | Some e \<Rightarrow>
             let type = 0 in
             if type = SSL_TYPE_QUIC_CONNECTION then (s, 0)
             else (mk_leave k s (mk_body_3x tab k ssl_st_ptr e), 0))"

section \<open>The reference: secrets as a function of memory\<close>

text \<open>
  What a run should report, read declaratively from the \<open>SSL\<close> at \<open>ssl\<close> with the client random at
  \<open>cr\<close>: nothing when a needed field is unreadable. The early secret may be missing; then its field
  is what the failed read leaves of a zeroed buffer.
\<close>

definition cipher_id_of :: "openssl_mk_table \<Rightarrow> kernel \<Rightarrow> u64 \<Rightarrow> u32 option" where
  "cipher_id_of tab k session =
     (case user_word k (session + OT_CIPHER tab) of
        None \<Rightarrow> user_word k (session + OT_CIPHER_ID tab)
      | Some cipher \<Rightarrow>
          if cipher = 0 then user_word k (session + OT_CIPHER_ID tab)
          else user_word k (cipher + OT_CIPHER_ST_ID tab))"

definition tls13_secrets :: "openssl_mk_table \<Rightarrow> kernel \<Rightarrow> u64 \<Rightarrow> mastersecret_t \<Rightarrow> mastersecret_t option" where
  "tls13_secrets tab k ssl e = do {
     hs \<leftarrow> user_bytes k 64 (ssl + OT_HANDSHAKE_SECRET tab);
     hth \<leftarrow> user_bytes k 64 (ssl + OT_HANDSHAKE_TRAFFIC_HASH tab);
     cats \<leftarrow> user_bytes k 64 (ssl + OT_CLIENT_APP_TRAFFIC_SECRET tab);
     sats \<leftarrow> user_bytes k 64 (ssl + OT_SERVER_APP_TRAFFIC_SECRET tab);
     ems \<leftarrow> user_bytes k 64 (ssl + OT_EXPORTER_MASTER_SECRET tab);
     Some (e\<lparr>early_secret := (case user_bytes k 64 (ssl + OT_EARLY_SECRET tab) of
               Some es \<Rightarrow> es | None \<Rightarrow> replicate 64 (k_on_fault k 0)),
       handshake_secret := hs, handshake_traffic_hash := hth, client_app_traffic_secret := cats,
       server_app_traffic_secret := sats, exporter_master_secret := ems\<rparr>)
   }"

definition tls_secrets :: "openssl_mk_table \<Rightarrow> kernel \<Rightarrow> u64 \<Rightarrow> u64 \<Rightarrow> mastersecret_t option" where
  "tls_secrets tab k ssl cr = do {
     version \<leftarrow> user_word k (ssl + SSL_ST_VERSION tab);
     random \<leftarrow> user_bytes k 32 cr;
     session \<leftarrow> user_word k (ssl + OT_SESSION tab);
     let e = mastersecret_zero\<lparr>ms_version := version, client_random := random\<rparr>;
     if version \<noteq> TLS1_3_VERSION then do {
       key \<leftarrow> user_bytes k 48 (session + OT_MASTER_KEY tab);
       Some (e\<lparr>master_key := key\<rparr>)
     } else do {
       cid \<leftarrow> cipher_id_of tab k session;
       tls13_secrets tab k ssl (e\<lparr>cipher_id := cid\<rparr>)
     }
   }"

definition tls_secrets_1x :: "openssl_mk_table \<Rightarrow> kernel \<Rightarrow> u64 \<Rightarrow> mastersecret_t option" where
  "tls_secrets_1x tab k ssl =
     do { s3 \<leftarrow> user_word k (ssl + OT_S3 tab); tls_secrets tab k ssl (s3 + OT_CLIENT_RANDOM tab) }"

lemma outcome_cipher_id:
  "outcome (mk_read_cipher_id tab k session address e) =
     Option.bind (cipher_id_of tab k session) (\<lambda>c. Some (e\<lparr>cipher_id := c\<rparr>))"
  using user_word_probe [of k address "session + OT_CIPHER tab"]
  by (auto simp: mk_read_cipher_id_def cipher_id_of_def case_prod_beta outcome_stages split: option.split if_splits)

lemma outcome_tls13:
  assumes "length (early_secret e) = 64" "early_secret e = replicate 64 0" "length (handshake_secret e) = 64"
    "length (handshake_traffic_hash e) = 64" "length (client_app_traffic_secret e) = 64"
    "length (server_app_traffic_secret e) = 64" "length (exporter_master_secret e) = 64"
  shows "outcome (mk_read_tls13 tab k ssl e) = tls13_secrets tab k ssl e"
proof -
  have early: "snd (probe_read_user k (replicate 64 0) a) =
      (case user_bytes k 64 a of Some es \<Rightarrow> es | None \<Rightarrow> replicate 64 (k_on_fault k 0))" for a
    by (cases "read_mem (k_user k) 64 a") (simp_all add: user_bytes_def probe_read_user_ok probe_read_user_fail)
  show ?thesis
    unfolding mk_read_tls13_def tls13_secrets_def Let_def
    by (simp add: outcome_stages assms early)
qed

text \<open>An event as \<open>make_event\<close> hands it out, possibly with a version and a client random.\<close>

definition ms_started :: "s32 \<Rightarrow> bytes \<Rightarrow> mastersecret_t" where
  "ms_started v r = mastersecret_zero\<lparr>ms_version := v, client_random := r\<rparr>"

lemma outcome_session:
  "outcome (mk_read_session tab k ssl address (ms_started v r)) = do {
     session \<leftarrow> user_word k (ssl + OT_SESSION tab);
     if v \<noteq> TLS1_3_VERSION
     then Option.bind (user_bytes k 48 (session + OT_MASTER_KEY tab))
            (\<lambda>key. Some ((ms_started v r)\<lparr>master_key := key\<rparr>))
     else Option.bind (cipher_id_of tab k session)
            (\<lambda>cid. tls13_secrets tab k ssl ((ms_started v r)\<lparr>cipher_id := cid\<rparr>)) }"
proof -
  have "outcome (mk_read_tls13 tab k ssl ((ms_started v r)\<lparr>cipher_id := cid\<rparr>)) =
      tls13_secrets tab k ssl ((ms_started v r)\<lparr>cipher_id := cid\<rparr>)" for cid v
    by (rule outcome_tls13) (simp_all add: ms_started_def mastersecret_zero_def EVP_MAX_MD_SIZE_def)
  moreover have "length (master_key (ms_started v r)) = 48" "ms_version (ms_started v r) = v"
    by (simp_all add: ms_started_def mastersecret_zero_def MASTER_SECRET_MAX_LEN_def)
  ultimately show ?thesis
    unfolding mk_read_session_def outcome_probe_word
    by (intro arg_cong2 [where f = Option.bind] refl ext) (simp add: outcome_stages outcome_cipher_id)
qed

lemma outcome_version:
  "outcome (mk_read_version tab k ssl e) =
     Option.bind (user_word k (ssl + SSL_ST_VERSION tab)) (\<lambda>v. Some (e\<lparr>ms_version := v\<rparr>))"
  unfolding mk_read_version_def outcome_probe_word by simp

lemma outcome_body_3x:
  "outcome (mk_body_3x tab k ssl mastersecret_zero) = tls_secrets tab k ssl (ssl + OT_CLIENT_RANDOM tab)"
proof -
  have started: "mastersecret_zero\<lparr>ms_version := v, client_random := r\<rparr> = ms_started v r" for v r
    by (simp add: ms_started_def)
  show ?thesis
    unfolding mk_body_3x_def outcome_case outcome_version outcome_probe_bytes tls_secrets_def
    by (simp add: started outcome_session uninit_bytes_def SSL3_RANDOM_SIZE_def Let_def cong: if_cong)
qed

lemma option_bind_commute:
  "Option.bind m (\<lambda>x. Option.bind n (\<lambda>y. f x y)) = Option.bind n (\<lambda>y. Option.bind m (\<lambda>x. f x y))"
  by (cases m; cases n) simp_all

lemma outcome_body_1x:
  "outcome (mk_body_1x tab k ssl mastersecret_zero) = tls_secrets_1x tab k ssl"
proof -
  have started: "mastersecret_zero\<lparr>ms_version := v, client_random := r\<rparr> = ms_started v r" for v r
    by (simp add: ms_started_def)
  have len: "length (client_random mastersecret_zero) = 32"
    by (simp add: mastersecret_zero_def SSL3_RANDOM_SIZE_def)
  show ?thesis
    unfolding mk_body_1x_def outcome_case outcome_version outcome_probe_word tls_secrets_1x_def tls_secrets_def
    by (subst option_bind_commute) (simp add: started outcome_session outcome_stages len Let_def cong: if_cong)
qed

section \<open>Runs\<close>

text \<open>The frame the three programs share.\<close>

definition mk_run ::
    "(kernel \<Rightarrow> u64 \<Rightarrow> mastersecret_t \<Rightarrow> mastersecret_t + mastersecret_t) \<Rightarrow> rodata \<Rightarrow> kernel \<Rightarrow> pt_regs \<Rightarrow>
     mk_state \<Rightarrow> mk_state \<times> int" where
  "mk_run body c k ctx s =
     (if \<not> passes_filter c k (Some ctx) then (s, 0)
      else let (mastersecret, s) = make_event k s
           in case mastersecret of None \<Rightarrow> (s, 0)
              | Some e \<Rightarrow> (mk_leave k s (body k (PT_REGS_PARM1 ctx) e), 0))"

lemma mk_programs:
  "probe_ssl_master_key_1x tab = mk_run (mk_body_1x tab)"
  "probe_ssl_master_key_30 tab = mk_run (mk_body_3x tab)"
  "probe_ssl_master_key_32 tab = mk_run (mk_body_3x tab)"
  by (auto simp: fun_eq_iff mk_run_def probe_ssl_master_key_1x_def probe_ssl_master_key_30_def
      probe_ssl_master_key_32_def SSL_TYPE_QUIC_CONNECTION_def Let_def split: prod.split option.split)

definition mk_event_ok :: "mastersecret_t \<Rightarrow> bool" where
  "mk_event_ok e \<longleftrightarrow>
     length (client_random e) = 32 \<and> length (master_key e) = 48 \<and> length (early_secret e) = 64 \<and>
     length (handshake_secret e) = 64 \<and> length (handshake_traffic_hash e) = 64 \<and>
     length (client_app_traffic_secret e) = 64 \<and> length (server_app_traffic_secret e) = 64 \<and>
     length (exporter_master_secret e) = 64 \<and>
     (ms_version e \<noteq> TLS1_3_VERSION \<longrightarrow> e = mastersecret_zero\<lparr>ms_version := ms_version e,
        client_random := client_random e, master_key := master_key e\<rparr>) \<and>
     (ms_version e = TLS1_3_VERSION \<longrightarrow> master_key e = replicate 48 0)"

definition mk_inv :: "mk_state \<Rightarrow> bool" where
  "mk_inv s \<longleftrightarrow> mk_context_gen s = mastersecret_zero \<and> map_wf bpf_context_max (mk_context s) \<and>
     (\<forall>e \<in> set (mk_events s). mk_event_ok e)"

lemma mk_run_events:
  assumes "mk_inv s" and "passes_filter c k (Some ctx)"
  shows "mk_events (fst (mk_run body c k ctx s)) =
     mk_events s @ (case outcome (body k (PT_REGS_PARM1 ctx) mastersecret_zero) of None \<Rightarrow> [] | Some e \<Rightarrow> [e])"
    and "mk_context_gen (fst (mk_run body c k ctx s)) = mastersecret_zero"
    and "map_wf bpf_context_max (mk_context (fst (mk_run body c k ctx s)))"
proof -
  have "make_event k s = (Some mastersecret_zero, s\<lparr>mk_context :=
      lru_update bpf_context_max (k_victim k) (k_pid_tgid k) mastersecret_zero (mk_context s)\<rparr>)"
    using assms(1) by (simp add: make_event_def mk_inv_def Let_def)
  moreover have "map_wf bpf_context_max (lru_update bpf_context_max (k_victim k) (k_pid_tgid k) mastersecret_zero (mk_context s))"
    using assms(1) by (intro map_wf_lru_update) (simp_all add: mk_inv_def bpf_context_max_def)
  ultimately show "mk_events (fst (mk_run body c k ctx s)) =
     mk_events s @ (case outcome (body k (PT_REGS_PARM1 ctx) mastersecret_zero) of None \<Rightarrow> [] | Some e \<Rightarrow> [e])"
    and "mk_context_gen (fst (mk_run body c k ctx s)) = mastersecret_zero"
    and "map_wf bpf_context_max (mk_context (fst (mk_run body c k ctx s)))"
    using assms by (auto simp: mk_run_def mk_leave_def mk_inv_def split: sum.split)
qed

lemma tls13_secrets_shape:
  assumes "tls13_secrets tab k ssl e0 = Some e" and "length (client_random e0) = 32"
    and "length (master_key e0) = 48"
  shows "ms_version e = ms_version e0 \<and> master_key e = master_key e0 \<and> length (client_random e) = 32 \<and>
     length (early_secret e) = 64 \<and> length (handshake_secret e) = 64 \<and> length (handshake_traffic_hash e) = 64 \<and>
     length (client_app_traffic_secret e) = 64 \<and> length (server_app_traffic_secret e) = 64 \<and>
     length (exporter_master_secret e) = 64"
  using assms
  by (auto simp: tls13_secrets_def bind_eq_Some_conv length_user_bytes split: option.split)

lemma tls_secrets_ok:
  assumes "tls_secrets tab k ssl cr = Some e"
  shows "mk_event_ok e"
proof -
  obtain v :: s32 and r and session :: u64 where vr: "user_word k (ssl + SSL_ST_VERSION tab) = Some v" "user_bytes k 32 cr = Some r"
      "user_word k (ssl + OT_SESSION tab) = Some session"
    using assms by (auto simp: tls_secrets_def bind_eq_Some_conv)
  have r: "length r = 32" using vr(2) by (rule length_user_bytes)
  show ?thesis
  proof (cases "v = TLS1_3_VERSION")
    case True
    then obtain cid where "tls13_secrets tab k ssl
        (mastersecret_zero\<lparr>ms_version := v, client_random := r, cipher_id := cid\<rparr>) = Some e"
      using assms vr by (auto simp: tls_secrets_def bind_eq_Some_conv)
    from tls13_secrets_shape [OF this] True show ?thesis
      by (simp add: mk_event_ok_def mastersecret_zero_def MASTER_SECRET_MAX_LEN_def r)
  next
    case False
    then obtain key where "user_bytes k 48 (session + OT_MASTER_KEY tab) = Some key"
        "e = mastersecret_zero\<lparr>ms_version := v, client_random := r, master_key := key\<rparr>"
      using assms vr by (auto simp: tls_secrets_def bind_eq_Some_conv)
    with False r show ?thesis
      by (simp add: mk_event_ok_def mastersecret_zero_def EVP_MAX_MD_SIZE_def length_user_bytes)
  qed
qed

lemma mk_inv_run:
  assumes "mk_inv s" and "\<And>e. outcome (body k (PT_REGS_PARM1 ctx) mastersecret_zero) = Some e \<Longrightarrow> mk_event_ok e"
  shows "mk_inv (fst (mk_run body c k ctx s))"
proof (cases "passes_filter c k (Some ctx)")
  case True
  have "mk_event_ok e" if "e \<in> set (mk_events (fst (mk_run body c k ctx s)))" for e
    using that assms unfolding mk_run_events(1) [OF assms(1) True] by (auto simp: mk_inv_def split: option.splits)
  then show ?thesis using mk_run_events(2,3) [OF assms(1) True] by (simp add: mk_inv_def)
next
  case False
  with assms(1) show ?thesis by (simp add: mk_run_def)
qed

text \<open>An object holds one of the programs with one table; its states are those its runs reach.\<close>

inductive mk_reachable ::
    "(rodata \<Rightarrow> kernel \<Rightarrow> pt_regs \<Rightarrow> mk_state \<Rightarrow> mk_state \<times> int) \<Rightarrow> rodata \<Rightarrow> mk_state \<Rightarrow> bool" for prog c where
  mk_start: "mk_reachable prog c mk_init"
| mk_more: "mk_reachable prog c s \<Longrightarrow> mk_reachable prog c (fst (prog c k ctx s))"

definition mk_program :: "(rodata \<Rightarrow> kernel \<Rightarrow> pt_regs \<Rightarrow> mk_state \<Rightarrow> mk_state \<times> int) \<Rightarrow> bool" where
  "mk_program prog \<longleftrightarrow> (\<exists>tab. prog = probe_ssl_master_key_1x tab \<or> prog = probe_ssl_master_key_30 tab \<or>
     prog = probe_ssl_master_key_32 tab)"

lemma mk_inv_init: "mk_inv mk_init"
  by (simp add: mk_inv_def mk_init_def)

lemma tls_secrets_1x_ok: "tls_secrets_1x tab k ssl = Some e \<Longrightarrow> mk_event_ok e"
  by (auto simp: tls_secrets_1x_def bind_eq_Some_conv intro: tls_secrets_ok)

lemma mk_inv_program: "mk_program prog \<Longrightarrow> mk_inv s \<Longrightarrow> mk_inv (fst (prog c k ctx s))"
  by (auto simp: mk_program_def mk_programs outcome_body_1x outcome_body_3x
      intro!: mk_inv_run intro: tls_secrets_ok tls_secrets_1x_ok)

lemma mk_reachable_inv: "mk_reachable prog c s \<Longrightarrow> mk_program prog \<Longrightarrow> mk_inv s"
  by (induction rule: mk_reachable.induct) (auto intro: mk_inv_init mk_inv_program)

section \<open>Inputs of the witnesses\<close>

text \<open>
  Memory full of the byte 3, once with an \<open>SSL\<close> at 4096 whose version is
  TLS 1.3.
\<close>

definition mk_user12 :: kernel where
  "mk_user12 = kernel0\<lparr>k_user := (\<lambda>_. Some 3)\<rparr>"

definition mk_user13 :: kernel where
  "mk_user13 = kernel0\<lparr>k_user := poke 4096 (le_enc 4 TLS1_3_VERSION) (\<lambda>_. Some 3)\<rparr>"

definition mk_secret13 :: mastersecret_t where
  "mk_secret13 = \<lparr>ms_version = TLS1_3_VERSION, client_random = replicate 32 3, master_key = replicate 48 0,
     cipher_id = 0x03030303, early_secret = replicate 64 3, handshake_secret = replicate 64 3,
     handshake_traffic_hash = replicate 64 3, client_app_traffic_secret = replicate 64 3,
     server_app_traffic_secret = replicate 64 3, exporter_master_secret = replicate 64 3\<rparr>"

lemma mk_user13_secrets:
  "tls_secrets openssl_3_0_0 mk_user13 4096 (4096 + OT_CLIENT_RANDOM openssl_3_0_0) = Some mk_secret13"
  by (simp add: tls_secrets_def tls13_secrets_def cipher_id_of_def user_word_def user_bytes_def mk_user13_def
      mk_secret13_def mastersecret_zero_def openssl_3_0_0_def read_mem_pokes le_word_threes
      MASTER_SECRET_MAX_LEN_def)

section \<open>Properties\<close>

text \<open>
  C12: On OpenSSL 1.x, a run of the master-key program for an accepted process reports exactly the
  secrets that \<open>tls_secrets_1x\<close> reads from the process's memory, and nothing when a needed field
  cannot be read: the master key before TLS 1.3, the cipher and the secrets of the key schedule in
  TLS 1.3, all unused fields zero. Nothing an earlier run left in the maps shows in the event.
\<close>

theorem master_key_1x_reports:
  assumes "mk_inv s" and "passes_filter c k (Some ctx)"
  shows "mk_events (fst (probe_ssl_master_key_1x tab c k ctx s)) = mk_events s @
     (case tls_secrets_1x tab k (PT_REGS_PARM1 ctx) of None \<Rightarrow> [] | Some e \<Rightarrow> [e])"
  by (simp add: mk_programs mk_run_events [OF assms] outcome_body_1x)

theorem master_key_1x_reports_witness:
  "mk_events (fst (probe_ssl_master_key_1x openssl_1_1_1j rodata_default mk_user12 (X86 regs0) mk_init)) =
     [mastersecret_zero\<lparr>ms_version := 0x03030303, client_random := replicate 32 3, master_key := replicate 48 3\<rparr>]"
proof -
  have "tls_secrets_1x openssl_1_1_1j mk_user12 0 =
      Some (mastersecret_zero\<lparr>ms_version := 0x03030303, client_random := replicate 32 3, master_key := replicate 48 3\<rparr>)"
    by (simp add: tls_secrets_1x_def tls_secrets_def user_word_def user_bytes_def mk_user12_def le_word_threes(1) TLS1_3_VERSION_def)
  then show ?thesis
    using master_key_1x_reports [OF mk_inv_init, of rodata_default mk_user12 "X86 regs0" openssl_1_1_1j]
    by (simp add: passes_filter_def rodata_default_def mk_init_def regs0_def)
qed

text \<open>
  C11: On OpenSSL 3.0 and 3.1, and on 3.2 and later, the two programs report exactly the secrets that
  \<open>tls_secrets\<close> reads from the process's memory with the client random inside the \<open>SSL\<close> object,
  and nothing when a needed field cannot be read.
\<close>

theorem master_key_3x_reports:
  assumes "mk_inv s" and "passes_filter c k (Some ctx)"
    and "prog = probe_ssl_master_key_30 tab \<or> prog = probe_ssl_master_key_32 tab"
  shows "mk_events (fst (prog c k ctx s)) = mk_events s @
     (case tls_secrets tab k (PT_REGS_PARM1 ctx) (PT_REGS_PARM1 ctx + OT_CLIENT_RANDOM tab) of
        None \<Rightarrow> [] | Some e \<Rightarrow> [e])"
  using assms(3) by (auto simp: mk_programs mk_run_events [OF assms(1,2)] outcome_body_3x)

theorem master_key_3x_reports_witness:
  "mk_events (fst (probe_ssl_master_key_30 openssl_3_0_0 rodata_default mk_user13 (X86 (regs0\<lparr>x_di := 4096\<rparr>)) mk_init)) =
     [mk_secret13]"
  using master_key_3x_reports [OF mk_inv_init, of rodata_default mk_user13 "X86 (regs0\<lparr>x_di := 4096\<rparr>)"
      "probe_ssl_master_key_30 openssl_3_0_0" openssl_3_0_0] mk_user13_secrets
  by (simp add: passes_filter_def rodata_default_def mk_init_def)

text \<open>
  In every state a master-key object can reach, the template event is still all zero, the
  context map holds at most 2048 entries with distinct threads, and every reported event has fields
  of exactly the struct's sizes; an event of TLS 1.2 or older carries nothing but version, client
  random and master key, and a TLS 1.3 event carries no master key.
\<close>

theorem mk_reachable_invariant: "mk_program prog \<Longrightarrow> mk_reachable prog c s \<Longrightarrow> mk_inv s"
  by (rule mk_reachable_inv)

theorem mk_reachable_invariant_witness:
  "mk_inv (fst (probe_ssl_master_key_32 openssl_3_5_0 rodata_default mk_user12 (X86 regs0) mk_init))"
  by (rule mk_reachable_invariant [where prog = "probe_ssl_master_key_32 openssl_3_5_0"])
    (auto simp: mk_program_def intro: mk_reachable.intros)

end
