(* ===== verification/Gnutls_Offsets.thy ===== *)
theory Gnutls_Offsets
  imports Prelude
begin

text \<open>
  The offset tables of the GnuTLS objects, kern/gnutls_*_kern.c. The field names drop the prefix
  \<open>GNUTLS_SESSION_INT_\<close> of the macros and shorten \<open>SECURITY_PARAMETERS_\<close> to \<open>SP_\<close> and
  \<open>KEY_PROTO_TLS13_\<close> to \<open>TLS13_\<close>.
\<close>

record gnutls_table =
  GT_SECURITY_PARAMETERS :: u64
  GT_SP_PRF :: u64
  GT_MAC_ENTRY_ST_ID :: u64
  GT_SP_CLIENT_RANDOM :: u64
  GT_SP_MASTER_SECRET :: u64
  GT_TLS13_E_CKEY :: u64
  GT_TLS13_HS_CKEY :: u64
  GT_TLS13_HS_SKEY :: u64
  GT_TLS13_AP_CKEY :: u64
  GT_TLS13_AP_SKEY :: u64
  GT_TLS13_AP_EXPKEY :: u64
  GT_SP_ST_PVERSION :: u64
  GT_VERSION_ENTRY_ST_ID :: u64

definition gnutls_3_6_12 :: gnutls_table where
  "gnutls_3_6_12 = \<lparr>GT_SECURITY_PARAMETERS = 0x0, GT_SP_PRF = 0x18, GT_MAC_ENTRY_ST_ID = 0x18,
     GT_SP_CLIENT_RANDOM = 0x50, GT_SP_MASTER_SECRET = 0x20, GT_TLS13_E_CKEY = 0x1494,
     GT_TLS13_HS_CKEY = 0x14d4, GT_TLS13_HS_SKEY = 0x1514, GT_TLS13_AP_CKEY = 0x1554,
     GT_TLS13_AP_SKEY = 0x1594, GT_TLS13_AP_EXPKEY = 0x15d4, GT_SP_ST_PVERSION = 0xf8,
     GT_VERSION_ENTRY_ST_ID = 0x8\<rparr>"

definition gnutls_3_6_13 :: gnutls_table where
  "gnutls_3_6_13 = \<lparr>GT_SECURITY_PARAMETERS = 0x0, GT_SP_PRF = 0x18, GT_MAC_ENTRY_ST_ID = 0x18,
     GT_SP_CLIENT_RANDOM = 0x50, GT_SP_MASTER_SECRET = 0x20, GT_TLS13_E_CKEY = 0x17a4,
     GT_TLS13_HS_CKEY = 0x17e4, GT_TLS13_HS_SKEY = 0x1824, GT_TLS13_AP_CKEY = 0x1864,
     GT_TLS13_AP_SKEY = 0x18a4, GT_TLS13_AP_EXPKEY = 0x18e4, GT_SP_ST_PVERSION = 0xf8,
     GT_VERSION_ENTRY_ST_ID = 0x8\<rparr>"

definition gnutls_3_7_0 :: gnutls_table where
  "gnutls_3_7_0 = \<lparr>GT_SECURITY_PARAMETERS = 0x0, GT_SP_PRF = 0x18, GT_MAC_ENTRY_ST_ID = 0x18,
     GT_SP_CLIENT_RANDOM = 0x50, GT_SP_MASTER_SECRET = 0x20, GT_TLS13_E_CKEY = 0x17c4,
     GT_TLS13_HS_CKEY = 0x1804, GT_TLS13_HS_SKEY = 0x1844, GT_TLS13_AP_CKEY = 0x1884,
     GT_TLS13_AP_SKEY = 0x18c4, GT_TLS13_AP_EXPKEY = 0x1904, GT_SP_ST_PVERSION = 0xf8,
     GT_VERSION_ENTRY_ST_ID = 0x8\<rparr>"

definition gnutls_3_7_3 :: gnutls_table where
  "gnutls_3_7_3 = \<lparr>GT_SECURITY_PARAMETERS = 0x0, GT_SP_PRF = 0x18, GT_MAC_ENTRY_ST_ID = 0x18,
     GT_SP_CLIENT_RANDOM = 0x50, GT_SP_MASTER_SECRET = 0x20, GT_TLS13_E_CKEY = 0x17cc,
     GT_TLS13_HS_CKEY = 0x180c, GT_TLS13_HS_SKEY = 0x184c, GT_TLS13_AP_CKEY = 0x188c,
     GT_TLS13_AP_SKEY = 0x18cc, GT_TLS13_AP_EXPKEY = 0x190c, GT_SP_ST_PVERSION = 0xf8,
     GT_VERSION_ENTRY_ST_ID = 0x8\<rparr>"

definition gnutls_3_7_7 :: gnutls_table where
  "gnutls_3_7_7 = \<lparr>GT_SECURITY_PARAMETERS = 0x0, GT_SP_PRF = 0x18, GT_MAC_ENTRY_ST_ID = 0x18,
     GT_SP_CLIENT_RANDOM = 0x50, GT_SP_MASTER_SECRET = 0x20, GT_TLS13_E_CKEY = 0x1754,
     GT_TLS13_HS_CKEY = 0x1794, GT_TLS13_HS_SKEY = 0x17d4, GT_TLS13_AP_CKEY = 0x1814,
     GT_TLS13_AP_SKEY = 0x1854, GT_TLS13_AP_EXPKEY = 0x1894, GT_SP_ST_PVERSION = 0xf8,
     GT_VERSION_ENTRY_ST_ID = 0x8\<rparr>"

definition gnutls_3_8_4 :: gnutls_table where
  "gnutls_3_8_4 = \<lparr>GT_SECURITY_PARAMETERS = 0x0, GT_SP_PRF = 0x18, GT_MAC_ENTRY_ST_ID = 0x18,
     GT_SP_CLIENT_RANDOM = 0x50, GT_SP_MASTER_SECRET = 0x20, GT_TLS13_E_CKEY = 0x179c,
     GT_TLS13_HS_CKEY = 0x17dc, GT_TLS13_HS_SKEY = 0x181c, GT_TLS13_AP_CKEY = 0x185c,
     GT_TLS13_AP_SKEY = 0x189c, GT_TLS13_AP_EXPKEY = 0x18dc, GT_SP_ST_PVERSION = 0xf8,
     GT_VERSION_ENTRY_ST_ID = 0x8\<rparr>"

definition gnutls_3_8_7 :: gnutls_table where
  "gnutls_3_8_7 = \<lparr>GT_SECURITY_PARAMETERS = 0x0, GT_SP_PRF = 0x18, GT_MAC_ENTRY_ST_ID = 0x18,
     GT_SP_CLIENT_RANDOM = 0x50, GT_SP_MASTER_SECRET = 0x20, GT_TLS13_E_CKEY = 0x1994,
     GT_TLS13_HS_CKEY = 0x19d4, GT_TLS13_HS_SKEY = 0x1a14, GT_TLS13_AP_CKEY = 0x1a54,
     GT_TLS13_AP_SKEY = 0x1a94, GT_TLS13_AP_EXPKEY = 0x1ad4, GT_SP_ST_PVERSION = 0xf8,
     GT_VERSION_ENTRY_ST_ID = 0x8\<rparr>"

lemmas gnutls_table_defs [layout_simps] = gnutls_3_6_12_def gnutls_3_6_13_def gnutls_3_7_0_def gnutls_3_7_3_def
  gnutls_3_7_7_def gnutls_3_8_4_def gnutls_3_8_7_def

end
