(* ===== verification/Gnutls_Masterkey.thy ===== *)
theory Gnutls_Masterkey
  imports Master_Secret Gnutls_Offsets
begin

text \<open>
  kern/gnutls_masterkey.h: the entry hook of \<open>gnutls_handshake\<close> remembers the session of the
  calling thread, the return hook of a successful handshake reads the secrets out of the session
  object. Both maps are \<open>LRU_HASH\<close> maps: other threads may evict a remembered session, so a
  handshake may go unreported, but it is never reported with another thread's session.
\<close>

definition GNUTLS_RANDOM_SIZE :: nat where
  "GNUTLS_RANDOM_SIZE = 32"

definition GNUTLS_MASTER_SIZE :: nat where
  "GNUTLS_MASTER_SIZE = 48"

definition MAX_HASH_SIZE :: nat where
  "MAX_HASH_SIZE = 64"

record gnutls_mastersecret_st =
  gs_version :: u32
  gs_client_random :: bytes
  gs_master_secret :: bytes
  gs_cipher_id :: u32
  gs_client_early_traffic_secret :: bytes
  gs_client_handshake_secret :: bytes
  gs_server_handshake_secret :: bytes
  gs_client_traffic_secret :: bytes
  gs_server_traffic_secret :: bytes
  gs_exporter_master_secret :: bytes

definition gs_zero :: gnutls_mastersecret_st where
  "gs_zero = \<lparr>gs_version = 0, gs_client_random = replicate GNUTLS_RANDOM_SIZE 0,
     gs_master_secret = replicate GNUTLS_MASTER_SIZE 0, gs_cipher_id = 0,
     gs_client_early_traffic_secret = replicate MAX_HASH_SIZE 0,
     gs_client_handshake_secret = replicate MAX_HASH_SIZE 0,
     gs_server_handshake_secret = replicate MAX_HASH_SIZE 0,
     gs_client_traffic_secret = replicate MAX_HASH_SIZE 0,
     gs_server_traffic_secret = replicate MAX_HASH_SIZE 0,
     gs_exporter_master_secret = replicate MAX_HASH_SIZE 0\<rparr>"

definition GNUTLS_SSL3 :: int where
  "GNUTLS_SSL3 = 1"

definition GNUTLS_TLS1_2 :: int where
  "GNUTLS_TLS1_2 = 4"

definition GNUTLS_TLS1_3 :: int where
  "GNUTLS_TLS1_3 = 5"

definition GNUTLS_DTLS1_0 :: int where
  "GNUTLS_DTLS1_0 = 201"

definition GNUTLS_DTLS1_2 :: int where
  "GNUTLS_DTLS1_2 = 202"

record gm_state =
  gm_sessions :: "(u64, u64) bmap"
  gm_context :: "(u64, gnutls_mastersecret_st) bmap"
  gm_context_gen :: gnutls_mastersecret_st
  gm_events :: "gnutls_mastersecret_st list"

definition gnutls_session_max :: nat where
  "gnutls_session_max = 1024"

definition gm_context_max :: nat where
  "gm_context_max = 2048"

definition gm_init :: gm_state where
  "gm_init = \<lparr>gm_sessions = [], gm_context = [], gm_context_gen = gs_zero, gm_events = []\<rparr>"

definition gm_make_event :: "kernel \<Rightarrow> gm_state \<Rightarrow> gnutls_mastersecret_st option \<times> gm_state" where
  "gm_make_event k s =
     (case array1_lookup 0 (gm_context_gen s) of
        None \<Rightarrow> (None, s)
      | Some bpf_ctx \<Rightarrow>
          let pid_tgid = k_pid_tgid k;
              s = s\<lparr>gm_context := lru_update gm_context_max (k_victim k) pid_tgid bpf_ctx (gm_context s)\<rparr>
          in (map_lookup (gm_context s) pid_tgid, s))"

definition gm_leave ::
    "kernel \<Rightarrow> gm_state \<Rightarrow> gnutls_mastersecret_st + gnutls_mastersecret_st \<Rightarrow> gm_state" where
  "gm_leave k s r =
     (case r of
        Inl e \<Rightarrow> s\<lparr>gm_context := map_modify (k_pid_tgid k) (\<lambda>_. e) (gm_context s)\<rparr>
      | Inr e \<Rightarrow> s\<lparr>gm_context := map_modify (k_pid_tgid k) (\<lambda>_. e) (gm_context s),
                   gm_events := gm_events s @ [e]\<rparr>)"

definition uprobe_gnutls_master_key ::
    "rodata \<Rightarrow> kernel \<Rightarrow> pt_regs \<Rightarrow> gm_state \<Rightarrow> gm_state \<times> int" where
  "uprobe_gnutls_master_key c k ctx s =
     (let current_pid_tgid = k_pid_tgid k in
      if \<not> passes_filter c k (Some ctx) then (s, 0)
      else
      let gnutls_session_addr = PT_REGS_PARM1 ctx
      in (s\<lparr>gm_sessions :=
            lru_update gnutls_session_max (k_victim k) current_pid_tgid gnutls_session_addr (gm_sessions s)\<rparr>, 0))"

text \<open>The block for SSL 3.0 to TLS 1.2 and DTLS, from the fresh event on.\<close>

definition gm_read_legacy ::
    "gnutls_table \<Rightarrow> kernel \<Rightarrow> u64 \<Rightarrow> u32 \<Rightarrow> gnutls_mastersecret_st \<Rightarrow>
     gnutls_mastersecret_st + gnutls_mastersecret_st" where
  "gm_read_legacy tab k addr ssl_version e =
     (let e = e\<lparr>gs_version := ssl_version\<rparr> in
      case read_into k gs_client_random gs_client_random_update (addr + GT_SP_CLIENT_RANDOM tab) e of
        Inl e \<Rightarrow> Inl e
      | Inr e \<Rightarrow> read_into k gs_master_secret gs_master_secret_update (addr + GT_SP_MASTER_SECRET tab) e)"

text \<open>The block for TLS 1.3.\<close>

definition gm_read_keys ::
    "gnutls_table \<Rightarrow> kernel \<Rightarrow> u64 \<Rightarrow> gnutls_mastersecret_st \<Rightarrow>
     gnutls_mastersecret_st + gnutls_mastersecret_st" where
  "gm_read_keys tab k addr e =
     (case read_into k gs_client_early_traffic_secret gs_client_early_traffic_secret_update
             (addr + GT_TLS13_E_CKEY tab) e of
        Inl e \<Rightarrow> Inl e | Inr e \<Rightarrow>
      (case read_into k gs_client_handshake_secret gs_client_handshake_secret_update
             (addr + GT_TLS13_HS_CKEY tab) e of
        Inl e \<Rightarrow> Inl e | Inr e \<Rightarrow>
      (case read_into k gs_server_handshake_secret gs_server_handshake_secret_update
             (addr + GT_TLS13_HS_SKEY tab) e of
        Inl e \<Rightarrow> Inl e | Inr e \<Rightarrow>
      (case read_into k gs_client_traffic_secret gs_client_traffic_secret_update
             (addr + GT_TLS13_AP_CKEY tab) e of
        Inl e \<Rightarrow> Inl e | Inr e \<Rightarrow>
      (case read_into k gs_server_traffic_secret gs_server_traffic_secret_update
             (addr + GT_TLS13_AP_SKEY tab) e of
        Inl e \<Rightarrow> Inl e | Inr e \<Rightarrow>
      read_into k gs_exporter_master_secret gs_exporter_master_secret_update
             (addr + GT_TLS13_AP_EXPKEY tab) e)))))"

definition gm_read_tls13 ::
    "gnutls_table \<Rightarrow> kernel \<Rightarrow> u64 \<Rightarrow> u32 \<Rightarrow> gnutls_mastersecret_st \<Rightarrow>
     gnutls_mastersecret_st + gnutls_mastersecret_st" where
  "gm_read_tls13 tab k addr ssl_version e =
     (let e = e\<lparr>gs_version := ssl_version\<rparr>;
          (ret, prf_addr) = probe_user_word k (uninit_word k ''prf_addr'' :: u64) (addr + GT_SP_PRF tab)
      in if ret \<noteq> 0 then Inl e
      else
      let (ret, mac_cipher_id) = probe_user_word k (uninit_word k ''mac_cipher_id'' :: u32)
            (prf_addr + GT_MAC_ENTRY_ST_ID tab)
      in if ret \<noteq> 0 then Inl e
      else
      case read_into k gs_client_random gs_client_random_update (addr + GT_SP_CLIENT_RANDOM tab)
             (e\<lparr>gs_cipher_id := mac_cipher_id\<rparr>) of
        Inl e \<Rightarrow> Inl e
      | Inr e \<Rightarrow> gm_read_keys tab k addr e)"

definition gm_block ::
    "kernel \<Rightarrow> (gnutls_mastersecret_st \<Rightarrow> gnutls_mastersecret_st + gnutls_mastersecret_st) \<Rightarrow> gm_state \<Rightarrow> gm_state" where
  "gm_block k body s =
     (let (mastersecret, s) = gm_make_event k s
      in case mastersecret of None \<Rightarrow> s | Some e \<Rightarrow> gm_leave k s (body e))"

definition gm_legacy_version :: "u32 \<Rightarrow> bool" where
  "gm_legacy_version ssl_version \<longleftrightarrow>
     GNUTLS_SSL3 \<le> sint ssl_version \<and> sint ssl_version \<le> GNUTLS_TLS1_2 \<or>
     GNUTLS_DTLS1_0 \<le> sint ssl_version \<and> sint ssl_version \<le> GNUTLS_DTLS1_2"

text \<open>The two version tests exclude each other, so at most one of the blocks runs.\<close>

definition uretprobe_gnutls_master_key ::
    "gnutls_table \<Rightarrow> rodata \<Rightarrow> kernel \<Rightarrow> pt_regs \<Rightarrow> gm_state \<Rightarrow> gm_state \<times> int" where
  "uretprobe_gnutls_master_key tab c k ctx s =
     (let current_pid_tgid = k_pid_tgid k in
      if \<not> passes_filter c k (Some ctx) then (s, 0)
      else
      let handshake_return = (ucast (PT_REGS_RC ctx) :: u8) in
      if handshake_return \<noteq> 0 then (s, 0)
      else
      case map_lookup (gm_sessions s) current_pid_tgid of
        None \<Rightarrow> (s, 0)
      | Some gnutls_session_addr \<Rightarrow>
          let (ret, pversion_addr) = probe_user_word k (uninit_word k ''pversion_addr'' :: u64)
                (gnutls_session_addr + GT_SECURITY_PARAMETERS tab + GT_SP_ST_PVERSION tab)
          in if ret \<noteq> 0 then (s, 0)
          else
          let (ret, ssl_version) = probe_user_word k (uninit_word k ''ssl_version'' :: u32)
                (pversion_addr + GT_VERSION_ENTRY_ST_ID tab)
          in if ret \<noteq> 0 then (s, 0)
          else if gm_legacy_version ssl_version
          then (gm_block k (gm_read_legacy tab k gnutls_session_addr ssl_version) s, 0)
          else if sint ssl_version = GNUTLS_TLS1_3
          then (gm_block k (gm_read_tls13 tab k gnutls_session_addr ssl_version) s, 0)
          else (s, 0))"

section \<open>The reference: secrets as a function of memory\<close>

definition gnutls_tls13_secrets :: "gnutls_table \<Rightarrow> kernel \<Rightarrow> u64 \<Rightarrow> u32 \<Rightarrow> gnutls_mastersecret_st option" where
  "gnutls_tls13_secrets tab k a v = do {
     prf \<leftarrow> user_word k (a + GT_SP_PRF tab);
     cid \<leftarrow> user_word k (prf + GT_MAC_ENTRY_ST_ID tab);
     r \<leftarrow> user_bytes k 32 (a + GT_SP_CLIENT_RANDOM tab);
     e \<leftarrow> user_bytes k 64 (a + GT_TLS13_E_CKEY tab);
     hc \<leftarrow> user_bytes k 64 (a + GT_TLS13_HS_CKEY tab);
     hs \<leftarrow> user_bytes k 64 (a + GT_TLS13_HS_SKEY tab);
     ac \<leftarrow> user_bytes k 64 (a + GT_TLS13_AP_CKEY tab);
     as \<leftarrow> user_bytes k 64 (a + GT_TLS13_AP_SKEY tab);
     ex \<leftarrow> user_bytes k 64 (a + GT_TLS13_AP_EXPKEY tab);
     Some \<lparr>gs_version = v, gs_client_random = r, gs_master_secret = replicate 48 0, gs_cipher_id = cid,
       gs_client_early_traffic_secret = e, gs_client_handshake_secret = hc, gs_server_handshake_secret = hs,
       gs_client_traffic_secret = ac, gs_server_traffic_secret = as, gs_exporter_master_secret = ex\<rparr>
   }"

definition gnutls_secrets :: "gnutls_table \<Rightarrow> kernel \<Rightarrow> u64 \<Rightarrow> gnutls_mastersecret_st option" where
  "gnutls_secrets tab k a = do {
     pversion \<leftarrow> user_word k (a + GT_SECURITY_PARAMETERS tab + GT_SP_ST_PVERSION tab);
     v \<leftarrow> user_word k (pversion + GT_VERSION_ENTRY_ST_ID tab);
     if gm_legacy_version v then do {
       r \<leftarrow> user_bytes k 32 (a + GT_SP_CLIENT_RANDOM tab);
       m \<leftarrow> user_bytes k 48 (a + GT_SP_MASTER_SECRET tab);
       Some (gs_zero\<lparr>gs_version := v, gs_client_random := r, gs_master_secret := m\<rparr>)
     } else if sint v = GNUTLS_TLS1_3 then gnutls_tls13_secrets tab k a v else None
   }"

lemma gs_zero_lengths [simp]:
  "length (gs_client_random gs_zero) = 32" "length (gs_master_secret gs_zero) = 48"
  "length (gs_client_early_traffic_secret gs_zero) = 64" "length (gs_client_handshake_secret gs_zero) = 64"
  "length (gs_server_handshake_secret gs_zero) = 64" "length (gs_client_traffic_secret gs_zero) = 64"
  "length (gs_server_traffic_secret gs_zero) = 64" "length (gs_exporter_master_secret gs_zero) = 64"
  by (simp_all add: gs_zero_def GNUTLS_RANDOM_SIZE_def GNUTLS_MASTER_SIZE_def MAX_HASH_SIZE_def)

lemma outcome_legacy:
  "outcome (gm_read_legacy tab k a v gs_zero) = do {
     r \<leftarrow> user_bytes k 32 (a + GT_SP_CLIENT_RANDOM tab);
     m \<leftarrow> user_bytes k 48 (a + GT_SP_MASTER_SECRET tab);
     Some (gs_zero\<lparr>gs_version := v, gs_client_random := r, gs_master_secret := m\<rparr>) }"
  by (simp add: gm_read_legacy_def Let_def outcome_stages)

lemma outcome_gm_tls13: "outcome (gm_read_tls13 tab k a v gs_zero) = gnutls_tls13_secrets tab k a v"
  unfolding gm_read_tls13_def Let_def [of "gs_zero\<lparr>gs_version := v\<rparr>"] outcome_probe_word gm_read_keys_def
    gnutls_tls13_secrets_def
  by (simp add: outcome_stages) (simp add: gs_zero_def GNUTLS_MASTER_SIZE_def)

section \<open>Invariant and runs\<close>

definition gs_ok :: "gnutls_mastersecret_st \<Rightarrow> bool" where
  "gs_ok e \<longleftrightarrow> length (gs_client_random e) = 32 \<and> length (gs_master_secret e) = 48 \<and>
     (sint (gs_version e) \<noteq> GNUTLS_TLS1_3 \<longrightarrow> e = gs_zero\<lparr>gs_version := gs_version e,
        gs_client_random := gs_client_random e, gs_master_secret := gs_master_secret e\<rparr>) \<and>
     (sint (gs_version e) = GNUTLS_TLS1_3 \<longrightarrow> gs_master_secret e = replicate 48 0 \<and>
        length (gs_client_early_traffic_secret e) = 64 \<and> length (gs_client_handshake_secret e) = 64 \<and>
        length (gs_server_handshake_secret e) = 64 \<and> length (gs_client_traffic_secret e) = 64 \<and>
        length (gs_server_traffic_secret e) = 64 \<and> length (gs_exporter_master_secret e) = 64)"

definition gm_inv :: "gm_state \<Rightarrow> bool" where
  "gm_inv s \<longleftrightarrow> map_wf gnutls_session_max (gm_sessions s) \<and> map_wf gm_context_max (gm_context s) \<and>
     gm_context_gen s = gs_zero \<and> (\<forall>e \<in> set (gm_events s). gs_ok e)"

lemma gnutls_secrets_ok: "gnutls_secrets tab k a = Some e \<Longrightarrow> gs_ok e"
  by (auto simp: gnutls_secrets_def gnutls_tls13_secrets_def bind_eq_Some_conv gs_ok_def length_user_bytes
      gm_legacy_version_def GNUTLS_TLS1_3_def GNUTLS_TLS1_2_def GNUTLS_DTLS1_0_def split: if_splits)

lemma gm_block_run:
  assumes "gm_inv s"
  shows "gm_events (gm_block k body s) =
      gm_events s @ (case outcome (body gs_zero) of None \<Rightarrow> [] | Some e \<Rightarrow> [e])"
    and "gm_sessions (gm_block k body s) = gm_sessions s"
    and "(\<And>e. outcome (body gs_zero) = Some e \<Longrightarrow> gs_ok e) \<Longrightarrow> gm_inv (gm_block k body s)"
proof -
  have "gm_make_event k s = (Some gs_zero, s\<lparr>gm_context :=
      lru_update gm_context_max (k_victim k) (k_pid_tgid k) gs_zero (gm_context s)\<rparr>)"
    using assms by (simp add: gm_make_event_def gm_inv_def Let_def)
  moreover have "map_wf gm_context_max (lru_update gm_context_max (k_victim k) (k_pid_tgid k) gs_zero (gm_context s))"
    using assms by (intro map_wf_lru_update) (simp_all add: gm_inv_def gm_context_max_def)
  ultimately show "gm_events (gm_block k body s) =
      gm_events s @ (case outcome (body gs_zero) of None \<Rightarrow> [] | Some e \<Rightarrow> [e])"
    and "gm_sessions (gm_block k body s) = gm_sessions s"
    and "(\<And>e. outcome (body gs_zero) = Some e \<Longrightarrow> gs_ok e) \<Longrightarrow> gm_inv (gm_block k body s)"
    using assms by (auto simp: gm_block_def gm_leave_def gm_inv_def split: sum.split)
qed

text \<open>One run of the return hook: nothing, or the secrets of the remembered session.\<close>

definition gm_pending :: "gm_state \<Rightarrow> kernel \<Rightarrow> pt_regs \<Rightarrow> u64 option" where
  "gm_pending s k ctx =
     (if (ucast (PT_REGS_RC ctx) :: u8) = 0 then map_lookup (gm_sessions s) (k_pid_tgid k) else None)"

definition gnutls_version :: "gnutls_table \<Rightarrow> kernel \<Rightarrow> u64 \<Rightarrow> u32 option" where
  "gnutls_version tab k a = do {
     pversion \<leftarrow> user_word k (a + GT_SECURITY_PARAMETERS tab + GT_SP_ST_PVERSION tab);
     user_word k (pversion + GT_VERSION_ENTRY_ST_ID tab) }"

lemma gnutls_secrets_version:
  "gnutls_secrets tab k a = Option.bind (gnutls_version tab k a) (\<lambda>v.
     if gm_legacy_version v then outcome (gm_read_legacy tab k a v gs_zero)
     else if sint v = GNUTLS_TLS1_3 then outcome (gm_read_tls13 tab k a v gs_zero) else None)"
  by (simp add: gnutls_secrets_def gnutls_version_def outcome_legacy outcome_gm_tls13 cong: if_cong)

lemma gm_ret_eq:
  "fst (uretprobe_gnutls_master_key tab c k ctx s) =
     (if passes_filter c k (Some ctx)
      then case gm_pending s k ctx of
             None \<Rightarrow> s
           | Some a \<Rightarrow> (case gnutls_version tab k a of
               None \<Rightarrow> s
             | Some v \<Rightarrow> if gm_legacy_version v then gm_block k (gm_read_legacy tab k a v) s
                 else if sint v = GNUTLS_TLS1_3 then gm_block k (gm_read_tls13 tab k a v) s else s)
      else s)"
proof -
  let ?pa = "\<lambda>a. a + GT_SECURITY_PARAMETERS tab + GT_SP_ST_PVERSION tab"
  let ?u = "uninit_word k ''pversion_addr'' :: u64" and ?w = "uninit_word k ''ssl_version'' :: u32"
  have v: "gnutls_version tab k a =
      (if fst (probe_user_word k ?u (?pa a)) = 0 then
        let b = snd (probe_user_word k ?u (?pa a)) + GT_VERSION_ENTRY_ST_ID tab
        in if fst (probe_user_word k ?w b) = 0 then Some (snd (probe_user_word k ?w b)) else None
       else None)" for a
    by (simp add: gnutls_version_def user_word_probe [of k ?u "?pa a", symmetric] Let_def
        user_word_probe [of k ?w _, symmetric])
  show ?thesis
    by (auto simp: uretprobe_gnutls_master_key_def gm_pending_def case_prod_beta Let_def v split: option.split)
qed

lemma gm_ret_run:
  assumes inv: "gm_inv s"
  shows "gm_sessions (fst (uretprobe_gnutls_master_key tab c k ctx s)) = gm_sessions s"
    and "gm_inv (fst (uretprobe_gnutls_master_key tab c k ctx s))"
    and "passes_filter c k (Some ctx) \<Longrightarrow> gm_events (fst (uretprobe_gnutls_master_key tab c k ctx s)) = gm_events s @
      (case Option.bind (gm_pending s k ctx) (gnutls_secrets tab k) of None \<Rightarrow> [] | Some e \<Rightarrow> [e])"
proof -
  have ok: "gs_ok e" if "gnutls_version tab k a = Some v" and
      "gm_legacy_version v \<and> outcome (gm_read_legacy tab k a v gs_zero) = Some e \<or>
       \<not> gm_legacy_version v \<and> sint v = GNUTLS_TLS1_3 \<and> outcome (gm_read_tls13 tab k a v gs_zero) = Some e" for a v e
    using that by (intro gnutls_secrets_ok [of tab k a]) (auto simp: gnutls_secrets_version)
  show "gm_sessions (fst (uretprobe_gnutls_master_key tab c k ctx s)) = gm_sessions s"
    by (simp add: gm_ret_eq gm_block_run(2) [OF inv] split: option.split)
  show "gm_inv (fst (uretprobe_gnutls_master_key tab c k ctx s))"
    using inv by (auto simp: gm_ret_eq intro!: gm_block_run(3) [OF inv] intro: ok split: option.split)
  show "gm_events (fst (uretprobe_gnutls_master_key tab c k ctx s)) = gm_events s @
      (case Option.bind (gm_pending s k ctx) (gnutls_secrets tab k) of None \<Rightarrow> [] | Some e \<Rightarrow> [e])"
    if "passes_filter c k (Some ctx)"
    using that by (simp add: gm_ret_eq gm_block_run(1) [OF inv] gnutls_secrets_version split: option.split)
qed

inductive gm_step :: "gnutls_table \<Rightarrow> rodata \<Rightarrow> kernel \<Rightarrow> gm_state \<Rightarrow> gm_state \<Rightarrow> bool" for tab c where
  gm_enter: "gm_step tab c k s (fst (uprobe_gnutls_master_key c k ctx s))"
| gm_return: "gm_step tab c k s (fst (uretprobe_gnutls_master_key tab c k ctx s))"

inductive gm_reachable :: "gnutls_table \<Rightarrow> rodata \<Rightarrow> gm_state \<Rightarrow> bool" for tab c where
  gm_start: "gm_reachable tab c gm_init"
| gm_more: "gm_reachable tab c s \<Longrightarrow> gm_step tab c k s t \<Longrightarrow> gm_reachable tab c t"

lemma gm_enter_inv: "gm_inv s \<Longrightarrow> gm_inv (fst (uprobe_gnutls_master_key c k ctx s))"
  by (simp add: uprobe_gnutls_master_key_def gm_inv_def gnutls_session_max_def Let_def)

lemma gm_inv_step: "gm_step tab c k s t \<Longrightarrow> gm_inv s \<Longrightarrow> gm_inv t"
  by (auto elim!: gm_step.cases intro: gm_enter_inv gm_ret_run(2))

lemma gm_inv_init: "gm_inv gm_init"
  by (simp add: gm_inv_def gm_init_def)

interpretation gm: task_lossy "gm_step tab c" k_pid_tgid "\<lambda>s. map_lookup (gm_sessions s)" gm_inv for tab c
proof unfold_locales
  show "gm_step tab c k s t \<Longrightarrow> gm_inv s \<Longrightarrow> gm_inv t" for k s t by (rule gm_inv_step)
  show "map_lookup (gm_sessions t) p = None \<or> map_lookup (gm_sessions t) p = map_lookup (gm_sessions s) p"
    if "gm_step tab c k s t" and "gm_inv s" and "k_pid_tgid k \<noteq> p" for k s t p
    using that(1)
  proof cases
    case (gm_enter ctx)
    have "map_wf (Suc 1023) (gm_sessions s)"
      using that(2) by (simp add: gm_inv_def gnutls_session_max_def)
    from lru_map.update_other [OF this, of p "k_pid_tgid k"] that(3) show ?thesis
      by (auto simp: gm_enter uprobe_gnutls_master_key_def gnutls_session_max_def Let_def)
  next
    case (gm_return ctx)
    then show ?thesis using gm_ret_run(1) [OF that(2)] by simp
  qed
qed

lemma gm_reachable_inv: "gm_reachable tab c s \<Longrightarrow> gm_inv s"
  by (induction rule: gm_reachable.induct) (auto intro: gm_inv_init gm_inv_step)

lemma gm_enter_session:
  "passes_filter c k (Some ctx) \<Longrightarrow>
   map_lookup (gm_sessions (fst (uprobe_gnutls_master_key c k ctx s))) (k_pid_tgid k) = Some (PT_REGS_PARM1 ctx)"
  by (simp add: uprobe_gnutls_master_key_def Let_def)

text \<open>The input of the witness: a TLS 1.2 session at 4096 in memory full of the byte 3.\<close>

definition gm_kernel :: kernel where
  "gm_kernel = kernel0\<lparr>k_user := poke 4344 (le_enc 8 (8192 :: u64)) (poke 8200 (le_enc 4 (4 :: u32)) (\<lambda>_. Some 3))\<rparr>"

lemma gm_kernel_secrets: "gnutls_secrets gnutls_3_8_7 gm_kernel 4096 =
    Some (gs_zero\<lparr>gs_version := 4, gs_client_random := replicate 32 3, gs_master_secret := replicate 48 3\<rparr>)"
  by (simp add: gnutls_secrets_def user_word_def user_bytes_def gm_kernel_def gnutls_3_8_7_def read_mem_pokes
      gm_legacy_version_def GNUTLS_SSL3_def GNUTLS_TLS1_2_def)

section \<open>Properties\<close>

text \<open>
  C8: A thread that passes the filter enters \<open>gnutls_handshake\<close> with a session, then the object runs
  any number of times for other threads, then the call returns in a state the filter accepts. The
  return hook reports either nothing or exactly the secrets of the session this thread entered with:
  never another thread's session, never leftovers of an earlier event. When the low byte of the
  return value is not 0 it reports nothing, and when the session was not evicted in between (in
  particular when nothing ran in between) and the handshake returned 0 it reports exactly what
  \<open>gnutls_secrets\<close> reads.
\<close>

theorem gnutls_handshake_reported:
  assumes "gm_inv s" and "passes_filter c k1 (Some r1)" and "passes_filter c k2 (Some r2)"
    and "k_pid_tgid k2 = k_pid_tgid k1"
    and "others (gm_step tab c) k_pid_tgid (k_pid_tgid k1) (fst (uprobe_gnutls_master_key c k1 r1 s)) t"
  shows "\<exists>new. gm_events (fst (uretprobe_gnutls_master_key tab c k2 r2 t)) = gm_events t @ new \<and>
     (new \<noteq> [] \<longrightarrow> (ucast (PT_REGS_RC r2) :: u8) = 0 \<and>
        (\<exists>e. gnutls_secrets tab k2 (PT_REGS_PARM1 r1) = Some e \<and> new = [e])) \<and>
     ((ucast (PT_REGS_RC r2) :: u8) = 0 \<and> map_lookup (gm_sessions t) (k_pid_tgid k1) \<noteq> None \<longrightarrow>
        new = (case gnutls_secrets tab k2 (PT_REGS_PARM1 r1) of None \<Rightarrow> [] | Some e \<Rightarrow> [e]))"
proof -
  have inv1: "gm_inv (fst (uprobe_gnutls_master_key c k1 r1 s))" using assms(1) by (rule gm_enter_inv)
  have inv: "gm_inv t" using gm.others_invar [OF assms(5) inv1] .
  have "map_lookup (gm_sessions t) (k_pid_tgid k2) = None \<or>
      map_lookup (gm_sessions t) (k_pid_tgid k2) = Some (PT_REGS_PARM1 r1)"
    using gm.others_lossy [OF assms(5) inv1] gm_enter_session [OF assms(2)] assms(4) by simp
  then show ?thesis
    using gm_ret_run(3) [OF inv assms(3)] assms(4) by (auto simp: gm_pending_def split: option.splits)
qed

theorem gnutls_handshake_reported_witness:
  "gm_events (fst (uretprobe_gnutls_master_key gnutls_3_8_7 rodata_default gm_kernel (X86 regs0)
     (fst (uprobe_gnutls_master_key rodata_default gm_kernel (X86 (regs0\<lparr>x_di := 4096\<rparr>)) gm_init)))) =
   [gs_zero\<lparr>gs_version := 4, gs_client_random := replicate 32 3, gs_master_secret := replicate 48 3\<rparr>]"
proof -
  have pf: "passes_filter rodata_default gm_kernel (Some r)" for r
    by (simp add: passes_filter_def rodata_default_def)
  let ?r = "X86 (regs0\<lparr>x_di := 4096\<rparr>)"
  let ?t = "fst (uprobe_gnutls_master_key rodata_default gm_kernel ?r gm_init)"
  have ev: "gm_events ?t = []" by (simp add: uprobe_gnutls_master_key_def Let_def gm_init_def)
  have pend: "(ucast (PT_REGS_RC (X86 regs0)) :: u8) = 0 \<and> map_lookup (gm_sessions ?t) (k_pid_tgid gm_kernel) \<noteq> None"
    using gm_enter_session [OF pf, of ?r gm_init] by (simp add: regs0_def)
  obtain new where "gm_events (fst (uretprobe_gnutls_master_key gnutls_3_8_7 rodata_default gm_kernel (X86 regs0) ?t)) =
        gm_events ?t @ new"
      and "(ucast (PT_REGS_RC (X86 regs0)) :: u8) = 0 \<and> map_lookup (gm_sessions ?t) (k_pid_tgid gm_kernel) \<noteq> None \<longrightarrow>
        new = (case gnutls_secrets gnutls_3_8_7 gm_kernel (PT_REGS_PARM1 ?r) of None \<Rightarrow> [] | Some e \<Rightarrow> [e])"
    using gnutls_handshake_reported [OF gm_inv_init pf pf refl
        others.others_none [where step = "gm_step gnutls_3_8_7 rodata_default"], where ?r1.0 = ?r and ?r2.0 = "X86 regs0"]
    by (elim exE conjE)
  with ev pend show ?thesis using gm_kernel_secrets by (simp only: mp) simp
qed

text \<open>
  In every state the GnuTLS master-key object can reach, the session map holds at most 1024 and the
  context map at most 2048 entries with distinct threads, the template event is still all zero, and
  every reported event has fields of the struct's sizes: before TLS 1.3 nothing but version, client
  random and master secret, in TLS 1.3 no master secret.
\<close>

theorem gnutls_mk_reachable_invariant: "gm_reachable tab c s \<Longrightarrow> gm_inv s"
  by (rule gm_reachable_inv)

theorem gnutls_mk_reachable_invariant_witness:
  "gm_inv (fst (uprobe_gnutls_master_key rodata_default kernel0 (X86 regs0) gm_init))"
  by (rule gnutls_mk_reachable_invariant [OF gm_reachable.gm_more [OF gm_reachable.gm_start
      gm_step.gm_enter [where tab = gnutls_3_8_7]]])

end
