(* ===== verification/Boringssl_Offsets.thy ===== *)
theory Boringssl_Offsets
  imports Openssl_Probe
begin

text \<open>
  The offset tables of the BoringSSL objects (kern/boringssl_a_13_kern.c to a_16, and na for builds
  that are not Android's), kern/boringssl_const.h, which derives the offsets of the TLS 1.3 secrets in
  \<open>SSL_HANDSHAKE\<close> from \<open>max_version\<close>, and the defaults kern/boringssl_masterkey.h gives macros a
  table leaves undefined. A macro that only some tables define is an option here;
  \<open>SSL_SESSION_ST_SSL_VERSION\<close> (\<open>BT_SESSION_VERSION\<close>) is the feature flag of Android 16.
\<close>

record bssl_table = openssl_table +
  BT_SESSION :: u64
  BT_S3 :: u64
  BT_SECRET_LENGTH :: u64
  BT_SECRET :: u64
  BT_CIPHER :: u64
  BT_CIPHER_ST_ID :: u64
  BT_HS :: u64
  BT_CLIENT_RANDOM :: u64
  BT_EXPORTER_SECRET :: u64
  BT_NEW_SESSION :: u64
  BT_EARLY_SESSION :: u64
  BT_HINTS :: u64
  BT_CLIENT_VERSION :: u64
  BT_STATE :: u64
  BT_TLS13_STATE :: u64
  BT_MAX_VERSION :: u64
  BT_SERVER_TS :: "u64 option"
  BT_CLIENT_TS :: "u64 option"
  BT_SERVER_TS_LEN :: "u64 option"
  BT_CLIENT_TS_LEN :: "u64 option"
  BT_ESTABLISHED :: "u64 option"
  BT_S3_VERSION :: "u64 option"
  BT_SESSION_VERSION :: "u64 option"

definition boringssl_a_13 :: bssl_table where
  "boringssl_a_13 = \<lparr>SSL_ST_VERSION = 0x10, HAS_SSL_ST_VERSION = True, SSL_ST_RBIO = 0x18,
     SSL_ST_WBIO = 0x20, BIO_ST_NUM = 0x18, BIO_ST_METHOD = 0x0,
     BIO_METHOD_ST_TYPE = 0x0, BT_SESSION = 0x58, BT_S3 = 0x30,
     BT_SECRET_LENGTH = 0xc, BT_SECRET = 0x10, BT_CIPHER = 0xd0,
     BT_CIPHER_ST_ID = 0x10, BT_HS = 0x110, BT_CLIENT_RANDOM = 0x30,
     BT_EXPORTER_SECRET = 0x178, BT_NEW_SESSION = 0x5d8, BT_EARLY_SESSION = 0x5e0,
     BT_HINTS = 0x610, BT_CLIENT_VERSION = 0x61c, BT_STATE = 0x14,
     BT_TLS13_STATE = 0x18, BT_MAX_VERSION = 0x1e, BT_SERVER_TS = None,
     BT_CLIENT_TS = None, BT_SERVER_TS_LEN = None, BT_CLIENT_TS_LEN = None,
     BT_ESTABLISHED = Some 0x1c8, BT_S3_VERSION = None, BT_SESSION_VERSION = None\<rparr>"

definition boringssl_a_14 :: bssl_table where
  "boringssl_a_14 = \<lparr>SSL_ST_VERSION = 0x10, HAS_SSL_ST_VERSION = True, SSL_ST_RBIO = 0x18,
     SSL_ST_WBIO = 0x20, BIO_ST_NUM = 0x18, BIO_ST_METHOD = 0x0,
     BIO_METHOD_ST_TYPE = 0x0, BT_SESSION = 0x58, BT_S3 = 0x30,
     BT_SECRET_LENGTH = 0xa, BT_SECRET = 0xb, BT_CIPHER = 0xc8,
     BT_CIPHER_ST_ID = 0x10, BT_HS = 0x118, BT_CLIENT_RANDOM = 0x30,
     BT_EXPORTER_SECRET = 0x180, BT_NEW_SESSION = 0x5f0, BT_EARLY_SESSION = 0x5f8,
     BT_HINTS = 0x628, BT_CLIENT_VERSION = 0x634, BT_STATE = 0x14,
     BT_TLS13_STATE = 0x18, BT_MAX_VERSION = 0x1e, BT_SERVER_TS = None,
     BT_CLIENT_TS = None, BT_SERVER_TS_LEN = None, BT_CLIENT_TS_LEN = None,
     BT_ESTABLISHED = Some 0x1d0, BT_S3_VERSION = None, BT_SESSION_VERSION = None\<rparr>"

definition boringssl_a_15 :: bssl_table where
  "boringssl_a_15 = \<lparr>SSL_ST_VERSION = 0x10, HAS_SSL_ST_VERSION = True, SSL_ST_RBIO = 0x18,
     SSL_ST_WBIO = 0x20, BIO_ST_NUM = 0x20, BIO_ST_METHOD = 0x0,
     BIO_METHOD_ST_TYPE = 0x0, BT_SESSION = 0x58, BT_S3 = 0x30,
     BT_SECRET_LENGTH = 0xa, BT_SECRET = 0xb, BT_CIPHER = 0xc8,
     BT_CIPHER_ST_ID = 0x10, BT_HS = 0x118, BT_CLIENT_RANDOM = 0x30,
     BT_EXPORTER_SECRET = 0x180, BT_NEW_SESSION = 0x5e0, BT_EARLY_SESSION = 0x5e8,
     BT_HINTS = 0x618, BT_CLIENT_VERSION = 0x624, BT_STATE = 0x14,
     BT_TLS13_STATE = 0x18, BT_MAX_VERSION = 0x1e, BT_SERVER_TS = Some 0x120,
     BT_CLIENT_TS = Some 0x150, BT_SERVER_TS_LEN = Some 0x1B0, BT_CLIENT_TS_LEN = Some 0x1B1,
     BT_ESTABLISHED = Some 0x1d0, BT_S3_VERSION = None, BT_SESSION_VERSION = None\<rparr>"

definition boringssl_a_16 :: bssl_table where
  "boringssl_a_16 = \<lparr>SSL_ST_VERSION = 0, HAS_SSL_ST_VERSION = False, SSL_ST_RBIO = 0x18,
     SSL_ST_WBIO = 0x20, BIO_ST_NUM = 0x20, BIO_ST_METHOD = 0x0,
     BIO_METHOD_ST_TYPE = 0x0, BT_SESSION = 0x58, BT_S3 = 0x30,
     BT_SECRET_LENGTH = 0xFF, BT_SECRET = 0xa, BT_CIPHER = 0xc8,
     BT_CIPHER_ST_ID = 0x10, BT_HS = 0x118, BT_CLIENT_RANDOM = 0x30,
     BT_EXPORTER_SECRET = 0x182, BT_NEW_SESSION = 0x5f0, BT_EARLY_SESSION = 0x5f8,
     BT_HINTS = 0x628, BT_CLIENT_VERSION = 0x634, BT_STATE = 0x14,
     BT_TLS13_STATE = 0x18, BT_MAX_VERSION = 0x1e, BT_SERVER_TS = Some 0x120,
     BT_CLIENT_TS = Some 0x151, BT_SERVER_TS_LEN = Some 0x150, BT_CLIENT_TS_LEN = Some 0x181,
     BT_ESTABLISHED = Some 0x1d0, BT_S3_VERSION = Some 0xd0, BT_SESSION_VERSION = Some 0x4\<rparr>"

definition boringssl_na :: bssl_table where
  "boringssl_na = \<lparr>SSL_ST_VERSION = 0x10, HAS_SSL_ST_VERSION = True, SSL_ST_RBIO = 0x18,
     SSL_ST_WBIO = 0x20, BIO_ST_NUM = 0x20, BIO_ST_METHOD = 0x0,
     BIO_METHOD_ST_TYPE = 0x0, BT_SESSION = 0x58, BT_S3 = 0x30,
     BT_SECRET_LENGTH = 0xa, BT_SECRET = 0xb, BT_CIPHER = 0xc8,
     BT_CIPHER_ST_ID = 0x10, BT_HS = 0x118, BT_CLIENT_RANDOM = 0x30,
     BT_EXPORTER_SECRET = 0x180, BT_NEW_SESSION = 0x5e0, BT_EARLY_SESSION = 0x5e8,
     BT_HINTS = 0x618, BT_CLIENT_VERSION = 0x624, BT_STATE = 0x14,
     BT_TLS13_STATE = 0x18, BT_MAX_VERSION = 0x1e, BT_SERVER_TS = None,
     BT_CLIENT_TS = None, BT_SERVER_TS_LEN = None, BT_CLIENT_TS_LEN = None,
     BT_ESTABLISHED = Some 0x1d0, BT_S3_VERSION = None, BT_SESSION_VERSION = None\<rparr>"

definition bssl_tables :: "bssl_table list" where
  "bssl_tables = [boringssl_a_13, boringssl_a_14, boringssl_a_15, boringssl_a_16, boringssl_na]"

lemmas bssl_table_defs [layout_simps] = boringssl_a_13_def boringssl_a_14_def boringssl_a_15_def boringssl_a_16_def boringssl_na_def

section \<open>Defaults of the master-key header\<close>

definition or_default :: "u64 option \<Rightarrow> u64 \<Rightarrow> u64" where
  "or_default x d = (case x of Some v \<Rightarrow> v | None \<Rightarrow> d)"

definition SERVER_TRAFFIC_SECRET_0 :: "bssl_table \<Rightarrow> u64" where
  "SERVER_TRAFFIC_SECRET_0 tab = or_default (BT_SERVER_TS tab) 0x120"

definition CLIENT_TRAFFIC_SECRET_0 :: "bssl_table \<Rightarrow> u64" where
  "CLIENT_TRAFFIC_SECRET_0 tab = or_default (BT_CLIENT_TS tab) 0x150"

definition SERVER_TRAFFIC_SECRET_0_LEN :: "bssl_table \<Rightarrow> u64" where
  "SERVER_TRAFFIC_SECRET_0_LEN tab = or_default (BT_SERVER_TS_LEN tab) 0x1B0"

definition CLIENT_TRAFFIC_SECRET_0_LEN :: "bssl_table \<Rightarrow> u64" where
  "CLIENT_TRAFFIC_SECRET_0_LEN tab = or_default (BT_CLIENT_TS_LEN tab) 0x1B1"

definition ESTABLISHED_SESSION :: "bssl_table \<Rightarrow> u64" where
  "ESTABLISHED_SESSION tab = or_default (BT_ESTABLISHED tab) 0x1d0"

section \<open>Offsets in SSL_HANDSHAKE\<close>

definition SSL_MAX_MD_SIZE :: u64 where
  "SSL_MAX_MD_SIZE = 48"

definition android16 :: "bssl_table \<Rightarrow> bool" where
  "android16 tab \<longleftrightarrow> BT_SESSION_VERSION tab \<noteq> None"

definition SSL_HANDSHAKE_SECRET :: "bssl_table \<Rightarrow> u64" where
  "SSL_HANDSHAKE_SECRET tab =
     (if android16 tab then BT_MAX_VERSION tab + 2
      else of_nat (roundup (unat (BT_MAX_VERSION tab + 2)) 8) + 8)"

definition SSL_HANDSHAKE_HASH_LEN :: "bssl_table \<Rightarrow> u64" where
  "SSL_HANDSHAKE_HASH_LEN tab =
     (if android16 tab then SSL_HANDSHAKE_SECRET tab + SSL_MAX_MD_SIZE
      else of_nat (roundup (unat (BT_MAX_VERSION tab + 2)) 8))"

definition SSL_HANDSHAKE_FIELD_STEP :: "bssl_table \<Rightarrow> u64" where
  "SSL_HANDSHAKE_FIELD_STEP tab = (if android16 tab then SSL_MAX_MD_SIZE + 1 else SSL_MAX_MD_SIZE)"

definition handshake_field :: "bssl_table \<Rightarrow> u64 \<Rightarrow> u64" where
  "handshake_field tab i = SSL_HANDSHAKE_SECRET tab + SSL_HANDSHAKE_FIELD_STEP tab * i"

definition SSL_HANDSHAKE_EARLY_TRAFFIC_SECRET :: "bssl_table \<Rightarrow> u64" where
  "SSL_HANDSHAKE_EARLY_TRAFFIC_SECRET tab = handshake_field tab 1"

definition SSL_HANDSHAKE_CLIENT_HANDSHAKE_SECRET :: "bssl_table \<Rightarrow> u64" where
  "SSL_HANDSHAKE_CLIENT_HANDSHAKE_SECRET tab = handshake_field tab 2"

definition SSL_HANDSHAKE_SERVER_HANDSHAKE_SECRET :: "bssl_table \<Rightarrow> u64" where
  "SSL_HANDSHAKE_SERVER_HANDSHAKE_SECRET tab = handshake_field tab 3"

definition SSL_HANDSHAKE_CLIENT_TRAFFIC_SECRET_0 :: "bssl_table \<Rightarrow> u64" where
  "SSL_HANDSHAKE_CLIENT_TRAFFIC_SECRET_0 tab = handshake_field tab 4"

definition SSL_HANDSHAKE_SERVER_TRAFFIC_SECRET_0 :: "bssl_table \<Rightarrow> u64" where
  "SSL_HANDSHAKE_SERVER_TRAFFIC_SECRET_0 tab = handshake_field tab 5"

definition SSL_HANDSHAKE_EXPECTED_CLIENT_FINISHED :: "bssl_table \<Rightarrow> u64" where
  "SSL_HANDSHAKE_EXPECTED_CLIENT_FINISHED tab = handshake_field tab 6"

lemmas bssl_const_defs [layout_simps] = or_default_def SERVER_TRAFFIC_SECRET_0_def CLIENT_TRAFFIC_SECRET_0_def
  SERVER_TRAFFIC_SECRET_0_LEN_def CLIENT_TRAFFIC_SECRET_0_LEN_def ESTABLISHED_SESSION_def SSL_MAX_MD_SIZE_def
  android16_def SSL_HANDSHAKE_SECRET_def SSL_HANDSHAKE_HASH_LEN_def SSL_HANDSHAKE_FIELD_STEP_def
  handshake_field_def SSL_HANDSHAKE_EARLY_TRAFFIC_SECRET_def SSL_HANDSHAKE_CLIENT_HANDSHAKE_SECRET_def
  SSL_HANDSHAKE_SERVER_HANDSHAKE_SECRET_def SSL_HANDSHAKE_CLIENT_TRAFFIC_SECRET_0_def
  SSL_HANDSHAKE_SERVER_TRAFFIC_SECRET_0_def SSL_HANDSHAKE_EXPECTED_CLIENT_FINISHED_def

end
