(* ===== verification/Boringssl_Masterkey.thy ===== *)
theory Boringssl_Masterkey
  imports Master_Secret Boringssl_Offsets
begin

text \<open>
  kern/boringssl_masterkey.h: two ways to the secrets of a BoringSSL connection. \<open>probe_ssl_master_key\<close>
  reads them on \<open>SSL_write\<close> while the handshake object exists; \<open>bssl_do_handshake\<close> has an
  entry hook that remembers the \<open>SSL\<close> of the thread and a return hook that reads the secrets from
  the connection state after a successful handshake. The unconditional \<open>bpf_printk\<close> calls of the
  latter write to the trace log only and are left out, like the debug prints elsewhere.
\<close>

definition UNTAG_PTR :: "u64 \<Rightarrow> u64" where
  "UNTAG_PTR p = p AND 0x00FFFFFFFFFFFFFF"

definition CLIENT_STATE13_READ_SERVER_FINISHED :: int where
  "CLIENT_STATE13_READ_SERVER_FINISHED = 8"

definition CLIENT_STATE12_SEND_CLIENT_FINISHED :: int where
  "CLIENT_STATE12_SEND_CLIENT_FINISHED = 16"

definition BORINGSSL_SSL_MAX_MASTER_KEY_LENGTH :: u32 where
  "BORINGSSL_SSL_MAX_MASTER_KEY_LENGTH = 48"

record mastersecret_bssl_t =
  bs_version :: s32
  bs_client_random :: bytes
  bs_secret :: bytes
  bs_hash_len :: u32
  bs_early_traffic_secret :: bytes
  bs_client_handshake_secret :: bytes
  bs_server_handshake_secret :: bytes
  bs_client_traffic_secret_0 :: bytes
  bs_server_traffic_secret_0 :: bytes
  bs_exporter_secret :: bytes

definition bs_zero :: mastersecret_bssl_t where
  "bs_zero = \<lparr>bs_version = 0, bs_client_random = replicate SSL3_RANDOM_SIZE 0,
     bs_secret = replicate MASTER_SECRET_MAX_LEN 0, bs_hash_len = 0,
     bs_early_traffic_secret = replicate EVP_MAX_MD_SIZE 0,
     bs_client_handshake_secret = replicate EVP_MAX_MD_SIZE 0,
     bs_server_handshake_secret = replicate EVP_MAX_MD_SIZE 0,
     bs_client_traffic_secret_0 = replicate EVP_MAX_MD_SIZE 0,
     bs_server_traffic_secret_0 = replicate EVP_MAX_MD_SIZE 0,
     bs_exporter_secret = replicate EVP_MAX_MD_SIZE 0\<rparr>"

record bm_state =
  bm_context :: "(u64, mastersecret_bssl_t) bmap"
  bm_context_gen :: mastersecret_bssl_t
  bm_handshakes :: "(u64, u64) bmap"
  bm_events :: "mastersecret_bssl_t list"

definition bm_context_max :: nat where
  "bm_context_max = 2048"

definition bssl_do_handshake_max :: nat where
  "bssl_do_handshake_max = 1024"

definition bm_init :: bm_state where
  "bm_init = \<lparr>bm_context = [], bm_context_gen = bs_zero, bm_handshakes = [], bm_events = []\<rparr>"

definition bm_make_event :: "kernel \<Rightarrow> bm_state \<Rightarrow> mastersecret_bssl_t option \<times> bm_state" where
  "bm_make_event k s =
     (case array1_lookup 0 (bm_context_gen s) of
        None \<Rightarrow> (None, s)
      | Some bpf_ctx \<Rightarrow>
          let pid_tgid = k_pid_tgid k;
              s = s\<lparr>bm_context := lru_update bm_context_max (k_victim k) pid_tgid bpf_ctx (bm_context s)\<rparr>
          in (map_lookup (bm_context s) pid_tgid, s))"

definition bm_leave :: "kernel \<Rightarrow> bm_state \<Rightarrow> mastersecret_bssl_t + mastersecret_bssl_t \<Rightarrow> bm_state" where
  "bm_leave k s r =
     (case r of
        Inl e \<Rightarrow> s\<lparr>bm_context := map_modify (k_pid_tgid k) (\<lambda>_. e) (bm_context s)\<rparr>
      | Inr e \<Rightarrow> s\<lparr>bm_context := map_modify (k_pid_tgid k) (\<lambda>_. e) (bm_context s),
                   bm_events := bm_events s @ [e]\<rparr>)"

text \<open>\<open>struct ssl3_state_st\<close>: two sequence numbers, the server's and the client's random.\<close>

definition ssl3_state_st_size :: nat where
  "ssl3_state_st_size = 8 + 8 + SSL3_RANDOM_SIZE + SSL3_RANDOM_SIZE"

definition ssl3_client_random :: "bytes \<Rightarrow> bytes" where
  "ssl3_client_random st = take SSL3_RANDOM_SIZE (drop (8 + 8 + SSL3_RANDOM_SIZE) st)"

definition get_session_addr :: "bssl_table \<Rightarrow> kernel \<Rightarrow> u64 \<Rightarrow> u64 \<Rightarrow> u64" where
  "get_session_addr tab k ssl_st_ptr ssl_hs_st_ptr =
     (let (ret, tmp_address) = probe_user_word k (uninit_word k ''tmp_address'' :: u64)
            (ssl_hs_st_ptr + BT_NEW_SESSION tab)
      in if ret = 0 \<and> tmp_address \<noteq> 0 then UNTAG_PTR tmp_address
      else
      let (ret, tmp_address) = probe_user_word k tmp_address (ssl_st_ptr + BT_SESSION tab)
      in if ret \<noteq> 0 then 0 else UNTAG_PTR tmp_address)"

section \<open>The SSL_write hook\<close>

text \<open>Version and client random; goes on with the event, the \<open>s3\<close> address and \<open>ssl_version\<close>.\<close>

definition bm_read_s3 ::
    "bssl_table \<Rightarrow> kernel \<Rightarrow> u64 \<Rightarrow> mastersecret_bssl_t \<Rightarrow>
     mastersecret_bssl_t + (mastersecret_bssl_t \<times> u64 \<times> s32)" where
  "bm_read_s3 tab k ssl_st_ptr e =
     (let e = e\<lparr>bs_version := 0\<rparr>;
          ssl_version = (uninit_word k ''ssl_version'' :: s32);
          (ssl_version, e) =
            (if android16 tab then (ssl_version, e)
             else let v = snd (probe_user_word k ssl_version (ssl_st_ptr + SSL_ST_VERSION tab))
                  in (v, e\<lparr>bs_version := v AND 0xFFFF\<rparr>));
          (ret, address) = probe_user_word k (uninit_word k ''address'' :: u64) (ssl_st_ptr + BT_S3 tab)
      in if ret \<noteq> 0 then Inl e
      else
      let s3_address = UNTAG_PTR address;
          (ssl_version, e) =
            (case BT_S3_VERSION tab of
               None \<Rightarrow> (ssl_version, e)
             | Some off \<Rightarrow>
                 let (ret, v) = probe_user_word k ssl_version (s3_address + off)
                 in (v, if ret = 0 then e\<lparr>bs_version := v AND 0xFFFF\<rparr> else e));
          (ret, ssl3_stat) = probe_read_user k (uninit_bytes k ''ssl3_stat'' ssl3_state_st_size) s3_address
      in if ret \<noteq> 0 then Inl e
      else Inr (e\<lparr>bs_client_random := ssl3_client_random ssl3_stat\<rparr>, s3_address, ssl_version))"

text \<open>
  The handshake object; goes on with the event, its address and the two states. The reads of
  \<open>client_version\<close> and of the flag bytes behind \<open>hints\<close> only decide whether the run goes on.
\<close>

definition bm_read_hs ::
    "bssl_table \<Rightarrow> kernel \<Rightarrow> u64 \<Rightarrow> mastersecret_bssl_t \<Rightarrow>
     mastersecret_bssl_t + (mastersecret_bssl_t \<times> u64 \<times> s32 \<times> s32)" where
  "bm_read_hs tab k s3_address e =
     (let (ret, ssl_hs_st_addr) = probe_user_word k (uninit_word k ''ssl_hs_st_addr'' :: u64)
            (s3_address + BT_HS tab)
      in if ret \<noteq> 0 \<or> ssl_hs_st_addr = 0 then Inl e
      else
      let ssl_hs_st_addr = UNTAG_PTR ssl_hs_st_addr;
          (ret, hash_len) = probe_user_word k (uninit_word k ''hash_len'' :: u8)
            (ssl_hs_st_addr + SSL_HANDSHAKE_HASH_LEN tab)
      in if ret \<noteq> 0 then Inl e
      else
      let e = e\<lparr>bs_hash_len := ucast hash_len\<rparr>;
          (ret, client_version) = probe_user_word k (uninit_word k ''client_version'' :: u16)
            (ssl_hs_st_addr + BT_CLIENT_VERSION tab)
      in if ret \<noteq> 0 then Inl e
      else
      let (ret, ssl3_hs_state) = probe_read_user k (uninit_bytes k ''ssl3_hs_state'' 8)
            (ssl_hs_st_addr + BT_STATE tab)
      in if ret \<noteq> 0 then Inl e
      else
      let (ret, all_bool) = probe_user_word k (uninit_word k ''all_bool'' :: s32)
            (ssl_hs_st_addr + BT_HINTS tab + 8)
      in if ret \<noteq> 0 then Inl e
      else Inr (e, ssl_hs_st_addr, le_word (take 4 ssl3_hs_state), le_word (drop 4 ssl3_hs_state)))"

definition bm_read_tls12 ::
    "bssl_table \<Rightarrow> kernel \<Rightarrow> u64 \<Rightarrow> u64 \<Rightarrow> s32 \<Rightarrow> s32 \<Rightarrow> mastersecret_bssl_t \<Rightarrow>
     mastersecret_bssl_t + mastersecret_bssl_t" where
  "bm_read_tls12 tab k ssl_st_ptr ssl_hs_st_addr ssl_version state e =
     (if sint state < CLIENT_STATE12_SEND_CLIENT_FINISHED then Inl e
      else
      let ssl_session_st_addr = get_session_addr tab k ssl_st_ptr ssl_hs_st_addr
      in if ssl_session_st_addr = 0 then Inl e
      else
      let e = (case BT_SESSION_VERSION tab of
                 None \<Rightarrow> e
               | Some off \<Rightarrow> e\<lparr>bs_version :=
                   snd (probe_user_word k ssl_version (ssl_session_st_addr + off)) AND 0xFFFF\<rparr>);
          r = (if BT_SECRET_LENGTH tab = 0xFF then Inr (e\<lparr>bs_hash_len := BORINGSSL_SSL_MAX_MASTER_KEY_LENGTH\<rparr>)
               else
               let (ret, secret_length) = probe_user_word k (uninit_word k ''secret_length'' :: s32)
                     (ssl_session_st_addr + BT_SECRET_LENGTH tab)
               in if ret \<noteq> 0 then Inl e else Inr (e\<lparr>bs_hash_len := secret_length\<rparr>))
      in case r of
           Inl e \<Rightarrow> Inl e
         | Inr e \<Rightarrow> read_into k bs_secret bs_secret_update (ssl_session_st_addr + BT_SECRET tab) e)"

definition bm_read_tls13 ::
    "bssl_table \<Rightarrow> kernel \<Rightarrow> u64 \<Rightarrow> u64 \<Rightarrow> s32 \<Rightarrow> mastersecret_bssl_t \<Rightarrow>
     mastersecret_bssl_t + mastersecret_bssl_t" where
  "bm_read_tls13 tab k s3_address ssl_hs_st_addr tls13_state e =
     (if sint tls13_state < CLIENT_STATE13_READ_SERVER_FINISHED then Inl e
      else
      let e = e\<lparr>bs_early_traffic_secret := snd (probe_read_user k (bs_early_traffic_secret e)
                (ssl_hs_st_addr + SSL_HANDSHAKE_EARLY_TRAFFIC_SECRET tab))\<rparr> in
      case read_into k bs_client_handshake_secret bs_client_handshake_secret_update
             (ssl_hs_st_addr + SSL_HANDSHAKE_CLIENT_HANDSHAKE_SECRET tab) e of
        Inl e \<Rightarrow> Inl e | Inr e \<Rightarrow>
      (case read_into k bs_server_handshake_secret bs_server_handshake_secret_update
             (ssl_hs_st_addr + SSL_HANDSHAKE_SERVER_HANDSHAKE_SECRET tab) e of
        Inl e \<Rightarrow> Inl e | Inr e \<Rightarrow>
      (case read_into k bs_client_traffic_secret_0 bs_client_traffic_secret_0_update
             (ssl_hs_st_addr + SSL_HANDSHAKE_CLIENT_TRAFFIC_SECRET_0 tab) e of
        Inl e \<Rightarrow> Inl e | Inr e \<Rightarrow>
      (case read_into k bs_server_traffic_secret_0 bs_server_traffic_secret_0_update
             (ssl_hs_st_addr + SSL_HANDSHAKE_SERVER_TRAFFIC_SECRET_0 tab) e of
        Inl e \<Rightarrow> Inl e | Inr e \<Rightarrow>
      read_into k bs_exporter_secret bs_exporter_secret_update (s3_address + BT_EXPORTER_SECRET tab) e))))"

definition bm_body ::
    "bssl_table \<Rightarrow> kernel \<Rightarrow> u64 \<Rightarrow> mastersecret_bssl_t \<Rightarrow> mastersecret_bssl_t + mastersecret_bssl_t" where
  "bm_body tab k ssl_st_ptr e =
     (case bm_read_s3 tab k ssl_st_ptr e of
        Inl e \<Rightarrow> Inl e
      | Inr (e, s3_address, ssl_version) \<Rightarrow>
          (case bm_read_hs tab k s3_address e of
             Inl e \<Rightarrow> Inl e
           | Inr (e, ssl_hs_st_addr, state, tls13_state) \<Rightarrow>
               if bs_version e \<noteq> TLS1_3_VERSION
               then bm_read_tls12 tab k ssl_st_ptr ssl_hs_st_addr ssl_version state e
               else bm_read_tls13 tab k s3_address ssl_hs_st_addr tls13_state e))"

definition bssl_probe_ssl_master_key ::
    "bssl_table \<Rightarrow> rodata \<Rightarrow> kernel \<Rightarrow> pt_regs \<Rightarrow> bm_state \<Rightarrow> bm_state \<times> int" where
  "bssl_probe_ssl_master_key tab c k ctx s =
     (if \<not> passes_filter c k (Some ctx) then (s, 0)
      else
      let (mastersecret, s) = bm_make_event k s; ssl_st_ptr = UNTAG_PTR (PT_REGS_PARM1 ctx)
      in case mastersecret of
           None \<Rightarrow> (s, 0)
         | Some e \<Rightarrow> (bm_leave k s (bm_body tab k ssl_st_ptr e), 0))"

section \<open>The handshake hooks\<close>

definition uprobe_bssl_do_handshake :: "rodata \<Rightarrow> kernel \<Rightarrow> pt_regs \<Rightarrow> bm_state \<Rightarrow> bm_state \<times> int" where
  "uprobe_bssl_do_handshake c k ctx s =
     (let pid_tgid = k_pid_tgid k in
      if \<not> passes_filter c k (Some ctx) then (s, 0)
      else
      let ssl_ptr = UNTAG_PTR (PT_REGS_PARM1 ctx)
      in (s\<lparr>bm_handshakes := lru_update bssl_do_handshake_max (k_victim k) pid_tgid ssl_ptr (bm_handshakes s)\<rparr>, 0))"

text \<open>
  The label \<open>tls13_path\<close>: every read failure is ignored. (\<open>slen\<close> is read there and not used.)
\<close>

definition bh_tls13 :: "bssl_table \<Rightarrow> kernel \<Rightarrow> u64 \<Rightarrow> mastersecret_bssl_t \<Rightarrow> mastersecret_bssl_t" where
  "bh_tls13 tab k s3_addr e =
     (let clen = snd (probe_user_word k (0 :: u8) (s3_addr + CLIENT_TRAFFIC_SECRET_0_LEN tab));
          e = e\<lparr>bs_hash_len := (if clen \<noteq> 0 then ucast clen else 32)\<rparr>;
          e = e\<lparr>bs_server_traffic_secret_0 := snd (probe_read_user k (bs_server_traffic_secret_0 e)
                (s3_addr + SERVER_TRAFFIC_SECRET_0 tab))\<rparr>;
          e = e\<lparr>bs_client_traffic_secret_0 := snd (probe_read_user k (bs_client_traffic_secret_0 e)
                (s3_addr + CLIENT_TRAFFIC_SECRET_0 tab))\<rparr>
      in e\<lparr>bs_exporter_secret := snd (probe_read_user k (bs_exporter_secret e)
                (s3_addr + BT_EXPORTER_SECRET tab))\<rparr>)"

text \<open>The TLS 1.2 block, with its jumps to \<open>tls13_path\<close> and \<open>emit\<close>.\<close>

definition bh_tls12 ::
    "bssl_table \<Rightarrow> kernel \<Rightarrow> u64 \<Rightarrow> u64 \<Rightarrow> s32 \<Rightarrow> mastersecret_bssl_t \<Rightarrow>
     mastersecret_bssl_t + mastersecret_bssl_t" where
  "bh_tls12 tab k ssl_st_ptr s3_addr ssl_version e =
     (let (ret, session_addr) = probe_user_word k (0 :: u64) (s3_addr + ESTABLISHED_SESSION tab);
          (ret, session_addr) =
            (if ret \<noteq> 0 \<or> session_addr = 0
             then probe_user_word k session_addr (ssl_st_ptr + BT_SESSION tab) else (ret, session_addr))
      in if ret \<noteq> 0 \<or> session_addr = 0
      then if bs_version e = 0 then Inr (bh_tls13 tab k s3_addr (e\<lparr>bs_version := TLS1_3_VERSION\<rparr>)) else Inl e
      else
      let session_addr = UNTAG_PTR session_addr;
          e = (case BT_SESSION_VERSION tab of
                 None \<Rightarrow> e
               | Some off \<Rightarrow> e\<lparr>bs_version :=
                   snd (probe_user_word k ssl_version (session_addr + off)) AND 0xFFFF\<rparr>)
      in if android16 tab \<and> bs_version e = TLS1_3_VERSION then Inr (bh_tls13 tab k s3_addr e)
      else
      let e = (if bs_version e = 0 then e\<lparr>bs_version := TLS1_2_VERSION\<rparr> else e);
          e = e\<lparr>bs_hash_len := BORINGSSL_SSL_MAX_MASTER_KEY_LENGTH\<rparr>
      in read_into k bs_secret bs_secret_update (session_addr + BT_SECRET tab) e)"

text \<open>
  \<open>BSSL__SSL3_STATE_VERSION\<close> is used where \<open>SSL_SESSION_ST_SSL_VERSION\<close> is defined; the one table
  that defines the latter defines both.
\<close>

definition bh_body ::
    "bssl_table \<Rightarrow> kernel \<Rightarrow> u64 \<Rightarrow> mastersecret_bssl_t \<Rightarrow> mastersecret_bssl_t + mastersecret_bssl_t" where
  "bh_body tab k ssl_st_ptr e =
     (let (ret, s3_addr) = probe_user_word k (uninit_word k ''s3_addr'' :: u64) (ssl_st_ptr + BT_S3 tab)
      in if ret \<noteq> 0 \<or> s3_addr = 0 then Inl e
      else
      let s3_addr = UNTAG_PTR s3_addr;
          (ret, ssl3_stat) = probe_read_user k (uninit_bytes k ''ssl3_stat'' ssl3_state_st_size) s3_addr
      in if ret \<noteq> 0 then Inl e
      else
      let e = e\<lparr>bs_client_random := ssl3_client_random ssl3_stat\<rparr>;
          ssl_version = snd (probe_user_word k (0 :: s32)
            (if android16 tab then s3_addr + the (BT_S3_VERSION tab) else ssl_st_ptr + SSL_ST_VERSION tab));
          e = e\<lparr>bs_version := ssl_version AND 0xFFFF\<rparr>
      in if bs_version e = TLS1_3_VERSION then Inr (bh_tls13 tab k s3_addr e)
      else bh_tls12 tab k ssl_st_ptr s3_addr ssl_version e)"

definition uretprobe_bssl_do_handshake ::
    "bssl_table \<Rightarrow> rodata \<Rightarrow> kernel \<Rightarrow> pt_regs \<Rightarrow> bm_state \<Rightarrow> bm_state \<times> int" where
  "uretprobe_bssl_do_handshake tab c k ctx s =
     (let pid_tgid = k_pid_tgid k in
      if \<not> passes_filter c k (Some ctx) then (s, 0)
      else
      let ret_val = (ucast (PT_REGS_RC ctx) :: s32) in
      if ret_val \<noteq> 1 then (s, 0)
      else
      case map_lookup (bm_handshakes s) pid_tgid of
        None \<Rightarrow> (s, 0)
      | Some ssl_st_ptr \<Rightarrow>
          let s = s\<lparr>bm_handshakes := map_delete pid_tgid (bm_handshakes s)\<rparr>;
              (mastersecret, s) = bm_make_event k s
          in case mastersecret of
               None \<Rightarrow> (s, 0)
             | Some e \<Rightarrow> (bm_leave k s (bh_body tab k ssl_st_ptr e), 0))"

section \<open>Shapes and runs\<close>

text \<open>An event with all fields of the struct's sizes.\<close>

definition bs_shape :: "mastersecret_bssl_t \<Rightarrow> bool" where
  "bs_shape e \<longleftrightarrow> length (bs_client_random e) = 32 \<and> length (bs_secret e) = 48 \<and>
     length (bs_early_traffic_secret e) = 64 \<and> length (bs_client_handshake_secret e) = 64 \<and>
     length (bs_server_handshake_secret e) = 64 \<and> length (bs_client_traffic_secret_0 e) = 64 \<and>
     length (bs_server_traffic_secret_0 e) = 64 \<and> length (bs_exporter_secret e) = 64"

lemma bs_shape_zero: "bs_shape bs_zero"
  by (simp add: bs_shape_def bs_zero_def SSL3_RANDOM_SIZE_def MASTER_SECRET_MAX_LEN_def EVP_MAX_MD_SIZE_def)

lemma ssl3_client_random_length: "length st = 80 \<Longrightarrow> length (ssl3_client_random st) = 32"
  by (simp add: ssl3_client_random_def SSL3_RANDOM_SIZE_def)

lemma uninit_state_length [simp]: "length (uninit_bytes k x n) = n"
  by (simp add: uninit_bytes_def)

lemma ssl3_state_st_size_80 [simp]: "ssl3_state_st_size = 80"
  by (simp add: ssl3_state_st_size_def SSL3_RANDOM_SIZE_def)

lemma bs_shape_bh_tls13: "bs_shape e \<Longrightarrow> bs_shape (bh_tls13 tab k a e)"
  by (simp add: bs_shape_def bh_tls13_def Let_def)

lemma bs_shape_sel [simp]:
  "bs_shape (e\<lparr>bs_version := v\<rparr>) = bs_shape e" "bs_shape (e\<lparr>bs_hash_len := h\<rparr>) = bs_shape e"
  "bs_shape (e\<lparr>bs_version := v, bs_client_random := r\<rparr>) = bs_shape (e\<lparr>bs_client_random := r\<rparr>)"
  "bs_shape (e\<lparr>bs_client_random := r, bs_version := v\<rparr>) = bs_shape (e\<lparr>bs_client_random := r\<rparr>)"
  by (simp_all add: bs_shape_def)

lemma outcome_let_pair: "outcome (let (a, b) = p in f a b) = outcome (f (fst p) (snd p))"
  by (simp add: case_prod_beta)

lemma read_secret_shape:
  "outcome (read_into k bs_secret bs_secret_update a e) = Some e' \<Longrightarrow> bs_shape e \<Longrightarrow> bs_shape e'"
  by (auto simp: outcome_read_into' bind_eq_Some_conv bs_shape_def length_user_bytes)

lemma bs_shape_bh_tls12:
  "outcome (bh_tls12 tab k ssl a v e) = Some e' \<Longrightarrow> bs_shape e \<Longrightarrow> bs_shape e'"
  by (auto simp: bh_tls12_def Let_def case_prod_beta bs_shape_bh_tls13 split: if_splits option.splits
      dest!: read_secret_shape)

lemma bs_shape_random: "length st = 80 \<Longrightarrow> bs_shape e \<Longrightarrow> bs_shape (e\<lparr>bs_client_random := ssl3_client_random st\<rparr>)"
  by (simp add: bs_shape_def ssl3_client_random_length)

lemma bs_shape_bh:
  "outcome (bh_body tab k ssl e) = Some e' \<Longrightarrow> bs_shape e \<Longrightarrow> bs_shape e'"
  by (auto simp: bh_body_def Let_def case_prod_beta bs_shape_bh_tls13 bs_shape_random split: if_splits
      dest!: bs_shape_bh_tls12)

lemma bm_read_s3_shape:
  "bm_read_s3 tab k ssl e = Inr (e', a, v) \<Longrightarrow> bs_shape e \<Longrightarrow> bs_shape e'"
  by (auto simp: bm_read_s3_def Let_def case_prod_beta bs_shape_random split: if_splits option.splits)

lemma bm_read_hs_shape:
  "bm_read_hs tab k a e = Inr (e', b, st, st13) \<Longrightarrow> bs_shape e \<Longrightarrow> bs_shape e'"
  by (auto simp: bm_read_hs_def Let_def case_prod_beta split: if_splits)

lemma bm_read_tls12_shape:
  "outcome (bm_read_tls12 tab k ssl hs v st e) = Some e' \<Longrightarrow> bs_shape e \<Longrightarrow> bs_shape e'"
  by (auto simp: bm_read_tls12_def Let_def case_prod_beta split: if_splits option.splits
      dest!: read_secret_shape)

lemma bm_read_tls13_shape:
  "outcome (bm_read_tls13 tab k s3 hs st e) = Some e' \<Longrightarrow> bs_shape e \<Longrightarrow> bs_shape e'"
  by (auto simp: bm_read_tls13_def Let_def outcome_stages bind_eq_Some_conv bs_shape_def length_user_bytes
      split: if_splits)

lemma bs_shape_bm:
  assumes "outcome (bm_body tab k ssl e) = Some e'" and "bs_shape e"
  shows "bs_shape e'"
  using assms
  by (auto simp: bm_body_def split: sum.splits prod.splits if_splits
      dest!: bm_read_s3_shape bm_read_hs_shape dest: bm_read_tls12_shape bm_read_tls13_shape)

definition bm_inv :: "bm_state \<Rightarrow> bool" where
  "bm_inv s \<longleftrightarrow> map_wf bm_context_max (bm_context s) \<and> map_wf bssl_do_handshake_max (bm_handshakes s) \<and>
     bm_context_gen s = bs_zero \<and> (\<forall>e \<in> set (bm_events s). bs_shape e)"

text \<open>The part of a run from \<open>make_event\<close> on.\<close>

definition bm_emit ::
    "kernel \<Rightarrow> (mastersecret_bssl_t \<Rightarrow> mastersecret_bssl_t + mastersecret_bssl_t) \<Rightarrow> bm_state \<Rightarrow> bm_state" where
  "bm_emit k body s =
     (case bm_make_event k s of (None, s) \<Rightarrow> s | (Some e, s) \<Rightarrow> bm_leave k s (body e))"

lemma bm_emit_run:
  assumes "bm_inv s"
  shows "bm_events (bm_emit k body s) = bm_events s @ (case outcome (body bs_zero) of None \<Rightarrow> [] | Some e \<Rightarrow> [e])"
    and "bm_handshakes (bm_emit k body s) = bm_handshakes s"
    and "(\<And>e. outcome (body bs_zero) = Some e \<Longrightarrow> bs_shape e) \<Longrightarrow> bm_inv (bm_emit k body s)"
proof -
  have "bm_make_event k s = (Some bs_zero, s\<lparr>bm_context :=
      lru_update bm_context_max (k_victim k) (k_pid_tgid k) bs_zero (bm_context s)\<rparr>)"
    using assms by (simp add: bm_make_event_def bm_inv_def Let_def)
  moreover have "map_wf bm_context_max (lru_update bm_context_max (k_victim k) (k_pid_tgid k) bs_zero (bm_context s))"
    using assms by (intro map_wf_lru_update) (simp_all add: bm_inv_def bm_context_max_def)
  ultimately show "bm_events (bm_emit k body s) = bm_events s @ (case outcome (body bs_zero) of None \<Rightarrow> [] | Some e \<Rightarrow> [e])"
    and "bm_handshakes (bm_emit k body s) = bm_handshakes s"
    and "(\<And>e. outcome (body bs_zero) = Some e \<Longrightarrow> bs_shape e) \<Longrightarrow> bm_inv (bm_emit k body s)"
    using assms by (auto simp: bm_emit_def bm_leave_def bm_inv_def split: sum.split)
qed

lemma bm_probe_eq:
  "fst (bssl_probe_ssl_master_key tab c k ctx s) =
     (if passes_filter c k (Some ctx) then bm_emit k (bm_body tab k (UNTAG_PTR (PT_REGS_PARM1 ctx))) s else s)"
  by (auto simp: bssl_probe_ssl_master_key_def bm_emit_def Let_def split: prod.split option.split)

lemma bh_ret_eq:
  "fst (uretprobe_bssl_do_handshake tab c k ctx s) =
     (if passes_filter c k (Some ctx) \<and> (ucast (PT_REGS_RC ctx) :: s32) = 1
      then case map_lookup (bm_handshakes s) (k_pid_tgid k) of
             None \<Rightarrow> s
           | Some ssl \<Rightarrow> bm_emit k (bh_body tab k ssl)
               (s\<lparr>bm_handshakes := map_delete (k_pid_tgid k) (bm_handshakes s)\<rparr>)
      else s)"
  by (auto simp: uretprobe_bssl_do_handshake_def bm_emit_def Let_def split: prod.split option.split)

inductive bm_step :: "bssl_table \<Rightarrow> rodata \<Rightarrow> kernel \<Rightarrow> bm_state \<Rightarrow> bm_state \<Rightarrow> bool" for tab c where
  bm_write: "bm_step tab c k s (fst (bssl_probe_ssl_master_key tab c k ctx s))"
| bm_enter: "bm_step tab c k s (fst (uprobe_bssl_do_handshake c k ctx s))"
| bm_return: "bm_step tab c k s (fst (uretprobe_bssl_do_handshake tab c k ctx s))"

inductive bm_reachable :: "bssl_table \<Rightarrow> rodata \<Rightarrow> bm_state \<Rightarrow> bool" for tab c where
  bm_start: "bm_reachable tab c bm_init"
| bm_more: "bm_reachable tab c s \<Longrightarrow> bm_step tab c k s t \<Longrightarrow> bm_reachable tab c t"

lemma bm_inv_delete: "bm_inv s \<Longrightarrow> bm_inv (s\<lparr>bm_handshakes := map_delete p (bm_handshakes s)\<rparr>)"
  by (simp add: bm_inv_def)

lemma bm_enter_inv: "bm_inv s \<Longrightarrow> bm_inv (fst (uprobe_bssl_do_handshake c k ctx s))"
  by (simp add: uprobe_bssl_do_handshake_def bm_inv_def bssl_do_handshake_max_def Let_def)

lemma bm_write_inv: "bm_inv s \<Longrightarrow> bm_inv (fst (bssl_probe_ssl_master_key tab c k ctx s))"
  unfolding bm_probe_eq by (auto intro: bm_emit_run(3) bs_shape_bm bs_shape_zero)

lemma bm_return_inv: "bm_inv s \<Longrightarrow> bm_inv (fst (uretprobe_bssl_do_handshake tab c k ctx s))"
  unfolding bh_ret_eq by (auto intro!: bm_emit_run(3) bm_inv_delete intro: bs_shape_bh bs_shape_zero split: option.split)

lemma bm_inv_step: "bm_step tab c k s t \<Longrightarrow> bm_inv s \<Longrightarrow> bm_inv t"
  by (auto elim!: bm_step.cases intro: bm_enter_inv bm_write_inv bm_return_inv)

lemma bm_inv_init: "bm_inv bm_init"
  by (simp add: bm_inv_def bm_init_def)

lemma bm_reachable_inv: "bm_reachable tab c s \<Longrightarrow> bm_inv s"
  by (induction rule: bm_reachable.induct) (auto intro: bm_inv_init bm_inv_step)

interpretation bm: task_lossy "bm_step tab c" k_pid_tgid "\<lambda>s. map_lookup (bm_handshakes s)" bm_inv for tab c
proof unfold_locales
  show "bm_step tab c k s t \<Longrightarrow> bm_inv s \<Longrightarrow> bm_inv t" for k s t by (rule bm_inv_step)
  show "map_lookup (bm_handshakes t) p = None \<or> map_lookup (bm_handshakes t) p = map_lookup (bm_handshakes s) p"
    if "bm_step tab c k s t" and "bm_inv s" and "k_pid_tgid k \<noteq> p" for k s t p
    using that(1)
  proof cases
    case (bm_write ctx)
    then show ?thesis using bm_emit_run(2) [OF that(2)] by (simp add: bm_probe_eq)
  next
    case (bm_enter ctx)
    have "map_wf (Suc 1023) (bm_handshakes s)"
      using that(2) by (simp add: bm_inv_def bssl_do_handshake_max_def)
    from lru_map.update_other [OF this, of p "k_pid_tgid k"] that(3) show ?thesis
      by (auto simp: bm_enter uprobe_bssl_do_handshake_def bssl_do_handshake_max_def Let_def)
  next
    case (bm_return ctx)
    then show ?thesis
      using bm_emit_run(2) [OF bm_inv_delete [OF that(2)]] that(3) by (simp add: bh_ret_eq split: option.split)
  qed
qed

lemma bm_enter_session:
  "passes_filter c k (Some ctx) \<Longrightarrow>
   map_lookup (bm_handshakes (fst (uprobe_bssl_do_handshake c k ctx s))) (k_pid_tgid k) =
     Some (UNTAG_PTR (PT_REGS_PARM1 ctx))"
  by (simp add: uprobe_bssl_do_handshake_def Let_def)

section \<open>What the handshake hook reads\<close>

lemma soft_bytes: "user_bytes k (length dst) a = Some bs \<Longrightarrow> snd (probe_read_user k dst a) = bs"
  by (simp add: user_bytes_def probe_read_user_ok)

lemma soft_word:
  "user_word k a = Some w \<Longrightarrow> probe_user_word k (old :: 'w::len word) a = (0, w)"
  by (auto simp: user_word_def probe_user_word_ok)

text \<open>The address the handshake hook reads the protocol version from.\<close>

definition bh_version_addr :: "bssl_table \<Rightarrow> u64 \<Rightarrow> u64 \<Rightarrow> u64" where
  "bh_version_addr tab ssl s3 =
     (if android16 tab then s3 + the (BT_S3_VERSION tab) else ssl + SSL_ST_VERSION tab)"

lemma bh_body_start:
  assumes "user_word k (ssl + BT_S3 tab) = Some p" and "p \<noteq> 0"
    and "user_bytes k 80 (UNTAG_PTR p) = Some st"
    and "user_word k (bh_version_addr tab ssl (UNTAG_PTR p)) = Some v"
  shows "bh_body tab k ssl e =
     (let e = e\<lparr>bs_client_random := ssl3_client_random st, bs_version := v AND 0xFFFF\<rparr>
      in if v AND 0xFFFF = TLS1_3_VERSION then Inr (bh_tls13 tab k (UNTAG_PTR p) e)
         else bh_tls12 tab k ssl (UNTAG_PTR p) v e)"
  using soft_word [OF assms(1)] soft_word [OF assms(4)] assms(2,3)
  by (simp add: bh_body_def bh_version_addr_def user_bytes_def probe_read_user_ok Let_def)

lemma user_bytes_sub:
  assumes "user_bytes k m a = Some bs" and "i + n \<le> m"
  shows "user_bytes k n (a + of_nat i) = Some (take n (drop i bs))"
proof -
  have "read_mem (k_user k) (i + (n + (m - i - n))) a = Some bs" using assms by (simp add: user_bytes_def)
  then obtain xs ys where xs: "read_mem (k_user k) i a = Some xs" and bs: "bs = xs @ ys"
      and "read_mem (k_user k) (n + (m - i - n)) (a + of_nat i) = Some ys"
    by (auto simp: read_mem_append split: option.splits)
  then obtain us vs where us: "read_mem (k_user k) n (a + of_nat i) = Some us" and ys: "ys = us @ vs"
    by (auto simp: read_mem_append split: option.splits)
  then show ?thesis
    using length_read_mem [OF xs] length_read_mem [OF us] by (simp add: user_bytes_def bs)
qed

lemma handshake_returned:
  assumes "bm_inv s" and "passes_filter c k (Some ctx)" and "(ucast (PT_REGS_RC ctx) :: s32) = 1"
    and "map_lookup (bm_handshakes s) (k_pid_tgid k) = Some ssl"
  shows "bm_events (fst (uretprobe_bssl_do_handshake tab c k ctx s)) = bm_events s @
     (case outcome (bh_body tab k ssl bs_zero) of None \<Rightarrow> [] | Some e \<Rightarrow> [e])"
  using assms bm_emit_run(1) [OF bm_inv_delete [OF assms(1)]] by (simp add: bh_ret_eq)

text \<open>
  Inputs of the witnesses: an \<open>SSL\<close> at 4096 in memory full of the byte 3 (so every pointer is
  \<open>0x0003030303030303\<close> and the version is TLS 1.2), and the same with version TLS 1.3.
\<close>

definition bk12 :: kernel where
  "bk12 = kernel0\<lparr>k_user := (\<lambda>_. Some 3)\<rparr>"

definition bk13 :: kernel where
  "bk13 = kernel0\<lparr>k_user := poke 4112 (le_enc 4 TLS1_3_VERSION) (\<lambda>_. Some 3)\<rparr>"

definition bk_regs :: pt_regs where
  "bk_regs = X86 (regs0\<lparr>x_ax := 1, x_di := 4096\<rparr>)"

lemma bk_regs_sel: "PT_REGS_PARM1 bk_regs = 4096" "PT_REGS_RC bk_regs = 1"
  by (simp_all add: bk_regs_def)

lemma bk_words: "user_word bk12 a = Some (0x03030303 :: u32)" "user_word bk12 a = Some (0x0303030303030303 :: u64)"
  "user_bytes bk12 n a = Some (replicate n 3)"
  by (simp_all add: user_word_def user_bytes_def bk12_def le_word_threes)

lemma bk_entered:
  "bm_inv (fst (uprobe_bssl_do_handshake rodata_default k bk_regs bm_init))"
  "map_lookup (bm_handshakes (fst (uprobe_bssl_do_handshake rodata_default k bk_regs bm_init))) (k_pid_tgid k) = Some 4096"
  "bm_events (fst (uprobe_bssl_do_handshake rodata_default k bk_regs bm_init)) = []"
proof -
  have pf: "passes_filter rodata_default k (Some bk_regs)" by (simp add: passes_filter_def rodata_default_def)
  show "bm_inv (fst (uprobe_bssl_do_handshake rodata_default k bk_regs bm_init))"
    by (rule bm_enter_inv [OF bm_inv_init])
  show "map_lookup (bm_handshakes (fst (uprobe_bssl_do_handshake rodata_default k bk_regs bm_init))) (k_pid_tgid k) = Some 4096"
    using bm_enter_session [OF pf] by (simp add: bk_regs_sel UNTAG_PTR_def)
  show "bm_events (fst (uprobe_bssl_do_handshake rodata_default k bk_regs bm_init)) = []"
    by (simp add: uprobe_bssl_do_handshake_def Let_def bm_init_def)
qed

lemma bh_body_tls12:
  assumes "user_word k (ssl + BT_S3 tab) = Some p" and "p \<noteq> 0" and "s3 = UNTAG_PTR p"
    and "user_bytes k 80 s3 = Some st" and "user_word k (bh_version_addr tab ssl s3) = Some v"
    and "v AND 0xFFFF \<noteq> TLS1_3_VERSION"
    and "user_word k (s3 + ESTABLISHED_SESSION tab) = Some q" and "q \<noteq> 0"
    and "case BT_SESSION_VERSION tab of None \<Rightarrow> u = v | Some off \<Rightarrow> user_word k (UNTAG_PTR q + off) = Some u"
    and "u AND 0xFFFF \<noteq> TLS1_3_VERSION" and "user_bytes k 48 (UNTAG_PTR q + BT_SECRET tab) = Some key"
  shows "bh_body tab k ssl bs_zero = Inr (bs_zero\<lparr>bs_version := (if u AND 0xFFFF = 0 then TLS1_2_VERSION else u AND 0xFFFF),
     bs_client_random := take 32 (drop 48 st), bs_hash_len := 48, bs_secret := key\<rparr>)"
proof -
  have key: "read_into k bs_secret bs_secret_update (UNTAG_PTR q + BT_SECRET tab) e = Inr (e\<lparr>bs_secret := key\<rparr>)"
    if "length (bs_secret e) = 48" for e
    using assms(11) that by (simp add: read_into_def user_bytes_def probe_read_user_ok)
  have zero: "length (bs_secret bs_zero) = 48" by (simp add: bs_zero_def MASTER_SECRET_MAX_LEN_def)
  show ?thesis
  proof (cases "BT_SESSION_VERSION tab")
    case None
    with assms(9) have "u = v" by simp
    with None show ?thesis
      using bh_body_start [OF assms(1,2)] soft_word [OF assms(7)] assms(3-6,8)
      by (simp add: Let_def bh_tls12_def android16_def key zero BORINGSSL_SSL_MAX_MASTER_KEY_LENGTH_def
          ssl3_client_random_def SSL3_RANDOM_SIZE_def)
  next
    case (Some off)
    with assms(9) have u: "user_word k (UNTAG_PTR q + off) = Some u" by simp
    show ?thesis
      using bh_body_start [OF assms(1,2)] soft_word [OF assms(7)] soft_word [OF u] assms(3-6,8,10) Some
      by (simp add: Let_def bh_tls12_def android16_def key zero BORINGSSL_SSL_MAX_MASTER_KEY_LENGTH_def
          ssl3_client_random_def SSL3_RANDOM_SIZE_def)
  qed
qed

lemma bk12_body:
  "bh_body boringssl_a_15 bk12 4096 bs_zero = Inr (bs_zero\<lparr>bs_version := TLS1_2_VERSION,
     bs_client_random := replicate 32 3, bs_hash_len := 48, bs_secret := replicate 48 3\<rparr>)"
proof -
  have session: "case BT_SESSION_VERSION boringssl_a_15 of None \<Rightarrow> (0x03030303 :: u32) = 0x03030303
      | Some off \<Rightarrow> user_word bk12 (UNTAG_PTR 0x0303030303030303 + off) = Some (0x03030303 :: u32)"
    by (simp add: boringssl_a_15_def)
  show ?thesis
    using bh_body_tls12 [OF bk_words(2) _ refl bk_words(3) bk_words(1) _ bk_words(2) _ session _ bk_words(3), of 4096]
    by (simp add: TLS1_3_VERSION_def TLS1_2_VERSION_def)
qed

section \<open>Properties\<close>

text \<open>
  C9: A thread that passes the filter enters \<open>SSL_do_handshake\<close>; then the object runs any number of
  times for other threads (whatever of its three programs); then the call returns to the thread.
  The return hook reports nothing unless the handshake returned exactly 1, and what it reports is
  exactly what the reads starting from this thread's own \<open>SSL\<close> object give on a zeroed event; when
  the session was not evicted in between, a successful handshake reports it, and afterwards the
  thread has no pending entry.
\<close>

theorem bssl_handshake_reported:
  assumes "bm_inv s" and "passes_filter c k1 (Some r1)" and "passes_filter c k2 (Some r2)"
    and "k_pid_tgid k2 = k_pid_tgid k1"
    and "others (bm_step tab c) k_pid_tgid (k_pid_tgid k1) (fst (uprobe_bssl_do_handshake c k1 r1 s)) t"
  shows "\<exists>new. bm_events (fst (uretprobe_bssl_do_handshake tab c k2 r2 t)) = bm_events t @ new \<and>
     (new \<noteq> [] \<longrightarrow> (ucast (PT_REGS_RC r2) :: s32) = 1 \<and>
        (\<exists>e. bh_body tab k2 (UNTAG_PTR (PT_REGS_PARM1 r1)) bs_zero = Inr e \<and> new = [e])) \<and>
     ((ucast (PT_REGS_RC r2) :: s32) = 1 \<and> map_lookup (bm_handshakes t) (k_pid_tgid k1) \<noteq> None \<longrightarrow>
        new = (case bh_body tab k2 (UNTAG_PTR (PT_REGS_PARM1 r1)) bs_zero of Inl _ \<Rightarrow> [] | Inr e \<Rightarrow> [e]) \<and>
        map_lookup (bm_handshakes (fst (uretprobe_bssl_do_handshake tab c k2 r2 t))) (k_pid_tgid k1) = None)"
proof -
  have inv1: "bm_inv (fst (uprobe_bssl_do_handshake c k1 r1 s))" using assms(1) by (rule bm_enter_inv)
  have inv: "bm_inv t" using bm.others_invar [OF assms(5) inv1] .
  consider (lost) "map_lookup (bm_handshakes t) (k_pid_tgid k2) = None"
    | (kept) "map_lookup (bm_handshakes t) (k_pid_tgid k2) = Some (UNTAG_PTR (PT_REGS_PARM1 r1))"
    using bm.others_lossy [OF assms(5) inv1] bm_enter_session [OF assms(2)] assms(4) by auto
  then show ?thesis
  proof cases
    case lost
    then have "fst (uretprobe_bssl_do_handshake tab c k2 r2 t) = t" by (simp add: bh_ret_eq)
    with lost assms(4) show ?thesis by simp
  next
    case kept
    show ?thesis
    proof (cases "(ucast (PT_REGS_RC r2) :: s32) = 1")
      case True
      from handshake_returned [OF inv assms(3) True kept] bm_emit_run(2) [OF bm_inv_delete [OF inv]] kept True assms(3,4)
      show ?thesis by (auto simp: bh_ret_eq outcome_def split: sum.splits)
    next
      case False
      then have "fst (uretprobe_bssl_do_handshake tab c k2 r2 t) = t" by (simp add: bh_ret_eq)
      with False show ?thesis by simp
    qed
  qed
qed

theorem bssl_handshake_reported_witness:
  "bm_events (fst (uretprobe_bssl_do_handshake boringssl_a_15 rodata_default bk12 bk_regs
     (fst (uprobe_bssl_do_handshake rodata_default bk12 bk_regs bm_init)))) =
   [bs_zero\<lparr>bs_version := TLS1_2_VERSION, bs_client_random := replicate 32 3, bs_hash_len := 48,
      bs_secret := replicate 48 3\<rparr>]"
proof -
  let ?t = "fst (uprobe_bssl_do_handshake rodata_default bk12 bk_regs bm_init)"
  have pf: "passes_filter rodata_default bk12 (Some r)" for r by (simp add: passes_filter_def rodata_default_def)
  have untag: "UNTAG_PTR 4096 = 4096" by (simp add: UNTAG_PTR_def)
  obtain new where "bm_events (fst (uretprobe_bssl_do_handshake boringssl_a_15 rodata_default bk12 bk_regs ?t)) =
        bm_events ?t @ new"
      and "(ucast (PT_REGS_RC bk_regs) :: s32) = 1 \<and> map_lookup (bm_handshakes ?t) (k_pid_tgid bk12) \<noteq> None \<longrightarrow>
        new = (case bh_body boringssl_a_15 bk12 (UNTAG_PTR (PT_REGS_PARM1 bk_regs)) bs_zero of Inl _ \<Rightarrow> [] | Inr e \<Rightarrow> [e]) \<and>
        map_lookup (bm_handshakes (fst (uretprobe_bssl_do_handshake boringssl_a_15 rodata_default bk12 bk_regs ?t)))
          (k_pid_tgid bk12) = None"
    using bssl_handshake_reported [OF bm_inv_init pf pf refl
        others.others_none [where step = "bm_step boringssl_a_15 rodata_default"], where ?r1.0 = bk_regs and ?r2.0 = bk_regs]
    by (elim exE conjE)
  then show ?thesis by (simp add: bk_entered bk12_body untag bk_regs_sel)
qed

lemma handshake_tls13_event:
  assumes "bm_inv s" and "passes_filter c k (Some ctx)" and "(ucast (PT_REGS_RC ctx) :: s32) = 1"
    and "map_lookup (bm_handshakes s) (k_pid_tgid k) = Some ssl"
    and "user_word k (ssl + BT_S3 tab) = Some p" and "p \<noteq> 0" and "s3 = UNTAG_PTR p"
    and "user_bytes k 80 s3 = Some st" and "user_word k (bh_version_addr tab ssl s3) = Some v"
    and "v AND 0xFFFF = TLS1_3_VERSION"
    and "user_word k (s3 + CLIENT_TRAFFIC_SECRET_0_LEN tab) = Some (clen :: u8)"
    and "user_bytes k 64 (s3 + SERVER_TRAFFIC_SECRET_0 tab) = Some sts"
    and "user_bytes k 64 (s3 + CLIENT_TRAFFIC_SECRET_0 tab) = Some cts"
    and "user_bytes k 64 (s3 + BT_EXPORTER_SECRET tab) = Some ems"
  shows "bm_events (fst (uretprobe_bssl_do_handshake tab c k ctx s)) = bm_events s @
     [bs_zero\<lparr>bs_version := TLS1_3_VERSION, bs_client_random := take 32 (drop 48 st),
        bs_hash_len := (if clen \<noteq> 0 then ucast clen else 32), bs_server_traffic_secret_0 := sts,
        bs_client_traffic_secret_0 := cts, bs_exporter_secret := ems\<rparr>]"
proof -
  have "bh_body tab k ssl bs_zero = Inr (bh_tls13 tab k s3
      (bs_zero\<lparr>bs_client_random := ssl3_client_random st, bs_version := TLS1_3_VERSION\<rparr>))"
    using bh_body_start [OF assms(5,6)] assms(7-10) by (simp add: Let_def)
  moreover have "bh_tls13 tab k s3 (bs_zero\<lparr>bs_client_random := ssl3_client_random st, bs_version := TLS1_3_VERSION\<rparr>) =
      bs_zero\<lparr>bs_version := TLS1_3_VERSION, bs_client_random := take 32 (drop 48 st),
        bs_hash_len := (if clen \<noteq> 0 then ucast clen else 32), bs_server_traffic_secret_0 := sts,
        bs_client_traffic_secret_0 := cts, bs_exporter_secret := ems\<rparr>"
    using soft_word [OF assms(11)] assms(12-14)
    by (simp add: bh_tls13_def Let_def bs_zero_def EVP_MAX_MD_SIZE_def soft_bytes ssl3_client_random_def SSL3_RANDOM_SIZE_def)
  ultimately show ?thesis using handshake_returned [OF assms(1-4), of tab] by simp
qed

lemma bk13_reads:
  "user_word bk13 (4096 + BT_S3 boringssl_a_15) = Some (0x0303030303030303 :: u64)"
  "user_bytes bk13 80 0x0003030303030303 = Some (replicate 80 3)"
  "user_word bk13 (bh_version_addr boringssl_a_15 4096 0x0003030303030303) = Some TLS1_3_VERSION"
  "user_word bk13 (0x0003030303030303 + CLIENT_TRAFFIC_SECRET_0_LEN boringssl_a_15) = Some (3 :: u8)"
  "user_bytes bk13 64 (0x0003030303030303 + SERVER_TRAFFIC_SECRET_0 boringssl_a_15) = Some (replicate 64 3)"
  "user_bytes bk13 64 (0x0003030303030303 + CLIENT_TRAFFIC_SECRET_0 boringssl_a_15) = Some (replicate 64 3)"
  "user_bytes bk13 64 (0x0003030303030303 + BT_EXPORTER_SECRET boringssl_a_15) = Some (replicate 64 3)"
  by (simp_all add: user_word_def user_bytes_def bk13_def layout_simps bh_version_addr_def read_mem_pokes
        le_word_threes TLS1_3_VERSION_def) (simp add: le_word_def poke_other)

lemma bk13_events:
  "bm_events (fst (uretprobe_bssl_do_handshake boringssl_a_15 rodata_default bk13 bk_regs
     (fst (uprobe_bssl_do_handshake rodata_default bk13 bk_regs bm_init)))) =
   [bs_zero\<lparr>bs_version := TLS1_3_VERSION, bs_client_random := replicate 32 3, bs_hash_len := 3,
      bs_server_traffic_secret_0 := replicate 64 3, bs_client_traffic_secret_0 := replicate 64 3,
      bs_exporter_secret := replicate 64 3\<rparr>]"
proof -
  let ?s = "fst (uprobe_bssl_do_handshake rodata_default bk13 bk_regs bm_init)"
  have pf: "passes_filter rodata_default bk13 (Some bk_regs)" by (simp add: passes_filter_def rodata_default_def)
  show ?thesis
    using handshake_tls13_event [OF bk_entered(1) pf _ bk_entered(2) bk13_reads(1) _ _ bk13_reads(2,3) _ bk13_reads(4-7)]
    by (simp add: bk_regs_sel UNTAG_PTR_def TLS1_3_VERSION_def bk_entered(3))
qed

text \<open>
  After a successful TLS 1.3 handshake whose connection state is readable, the return hook
  reports one event: version, the client random (bytes 48 to 79 of the state), 64 bytes each from the
  offsets of the server and client traffic secrets and of the exporter secret, and as hash length
  the client secret's length byte, or 32 when that is 0. All other fields are zero.
\<close>

theorem bssl_handshake_tls13:
  assumes "bm_inv s" and "passes_filter c k (Some ctx)" and "(ucast (PT_REGS_RC ctx) :: s32) = 1"
    and "map_lookup (bm_handshakes s) (k_pid_tgid k) = Some ssl"
    and "user_word k (ssl + BT_S3 tab) = Some p" and "p \<noteq> 0" and "s3 = UNTAG_PTR p"
    and "user_bytes k 80 s3 = Some st" and "user_word k (bh_version_addr tab ssl s3) = Some v"
    and "v AND 0xFFFF = TLS1_3_VERSION"
    and "user_word k (s3 + CLIENT_TRAFFIC_SECRET_0_LEN tab) = Some (clen :: u8)"
    and "user_bytes k 64 (s3 + SERVER_TRAFFIC_SECRET_0 tab) = Some sts"
    and "user_bytes k 64 (s3 + CLIENT_TRAFFIC_SECRET_0 tab) = Some cts"
    and "user_bytes k 64 (s3 + BT_EXPORTER_SECRET tab) = Some ems"
  shows "bm_events (fst (uretprobe_bssl_do_handshake tab c k ctx s)) = bm_events s @
     [bs_zero\<lparr>bs_version := TLS1_3_VERSION, bs_client_random := take 32 (drop 48 st),
        bs_hash_len := (if clen \<noteq> 0 then ucast clen else 32), bs_server_traffic_secret_0 := sts,
        bs_client_traffic_secret_0 := cts, bs_exporter_secret := ems\<rparr>]"
  by (rule handshake_tls13_event [OF assms])

theorem bssl_handshake_tls13_witness:
  "bm_events (fst (uretprobe_bssl_do_handshake boringssl_a_15 rodata_default bk13 bk_regs
     (fst (uprobe_bssl_do_handshake rodata_default bk13 bk_regs bm_init)))) =
   [bs_zero\<lparr>bs_version := TLS1_3_VERSION, bs_client_random := replicate 32 3, bs_hash_len := 3,
      bs_server_traffic_secret_0 := replicate 64 3, bs_client_traffic_secret_0 := replicate 64 3,
      bs_exporter_secret := replicate 64 3\<rparr>]"
proof -
  let ?s = "fst (uprobe_bssl_do_handshake rodata_default bk13 bk_regs bm_init)"
  have pf: "passes_filter rodata_default bk13 (Some bk_regs)" by (simp add: passes_filter_def rodata_default_def)
  show ?thesis
    using bssl_handshake_tls13 [OF bk_entered(1) pf _ bk_entered(2) bk13_reads(1) _ _ bk13_reads(2,3) _ bk13_reads(4-7)]
    by (simp add: bk_regs_sel UNTAG_PTR_def TLS1_3_VERSION_def bk_entered(3))
qed

text \<open>
  After a successful handshake of TLS 1.2 or older with a readable established session, the
  return hook reports one event: the client random, the 48 bytes of the session's secret with length
  48, and the protocol version (of the session on Android 16, of the \<open>SSL\<close> before), which is
  given as TLS 1.2 when it reads as 0.
\<close>

theorem bssl_handshake_tls12:
  assumes "bm_inv s" and "passes_filter c k (Some ctx)" and "(ucast (PT_REGS_RC ctx) :: s32) = 1"
    and "map_lookup (bm_handshakes s) (k_pid_tgid k) = Some ssl"
    and "user_word k (ssl + BT_S3 tab) = Some p" and "p \<noteq> 0" and "s3 = UNTAG_PTR p"
    and "user_bytes k 80 s3 = Some st" and "user_word k (bh_version_addr tab ssl s3) = Some v"
    and "v AND 0xFFFF \<noteq> TLS1_3_VERSION"
    and "user_word k (s3 + ESTABLISHED_SESSION tab) = Some q" and "q \<noteq> 0"
    and "case BT_SESSION_VERSION tab of None \<Rightarrow> u = v | Some off \<Rightarrow> user_word k (UNTAG_PTR q + off) = Some u"
    and "u AND 0xFFFF \<noteq> TLS1_3_VERSION" and "user_bytes k 48 (UNTAG_PTR q + BT_SECRET tab) = Some key"
  shows "bm_events (fst (uretprobe_bssl_do_handshake tab c k ctx s)) = bm_events s @
     [bs_zero\<lparr>bs_version := (if u AND 0xFFFF = 0 then TLS1_2_VERSION else u AND 0xFFFF),
        bs_client_random := take 32 (drop 48 st), bs_hash_len := 48, bs_secret := key\<rparr>]"
  using handshake_returned [OF assms(1-4), of tab] bh_body_tls12 [OF assms(5-15)] by simp

theorem bssl_handshake_tls12_witness:
  "bm_events (fst (uretprobe_bssl_do_handshake boringssl_a_16 rodata_default bk12 bk_regs
     (fst (uprobe_bssl_do_handshake rodata_default bk12 bk_regs bm_init)))) =
   [bs_zero\<lparr>bs_version := TLS1_2_VERSION, bs_client_random := replicate 32 3, bs_hash_len := 48,
      bs_secret := replicate 48 3\<rparr>]"
proof -
  have pf: "passes_filter rodata_default bk12 (Some bk_regs)" by (simp add: passes_filter_def rodata_default_def)
  have session: "case BT_SESSION_VERSION boringssl_a_16 of None \<Rightarrow> (0x03030303 :: u32) = 0x03030303
      | Some off \<Rightarrow> user_word bk12 (UNTAG_PTR 0x0303030303030303 + off) = Some (0x03030303 :: u32)"
    by (simp add: boringssl_a_16_def bk_words)
  show ?thesis
    using bssl_handshake_tls12 [OF bk_entered(1) pf _ bk_entered(2) bk_words(2) _ refl bk_words(3) bk_words(1) _
        bk_words(2) _ session _ bk_words(3)]
    by (simp add: bk_regs_sel bk_entered(3) TLS1_3_VERSION_def TLS1_2_VERSION_def)
qed

text \<open>
  C31: The Android 13 table gives no offsets for the traffic secrets and gets the defaults of the
  master-key header, which belong to a layout with everything behind \<open>hs\<close> eight bytes further. With
  them the 48-byte ranges of the client traffic secret and the exporter secret overlap (in every
  other table the three ranges are disjoint), so that in each TLS 1.3 event the handshake hook
  builds with it from readable memory, bytes 40 to 63 of the client traffic secret field are the
  first 24 bytes of the exporter secret field: the reported client secret cannot be right.
\<close>

theorem bssl_a13_secrets_overlap:
  assumes "bs_shape e0" and "user_bytes k 104 (s3 + CLIENT_TRAFFIC_SECRET_0 boringssl_a_13) = Some bs"
  defines "e \<equiv> bh_tls13 boringssl_a_13 k s3 e0"
  shows "take 24 (drop 40 (bs_client_traffic_secret_0 e)) = take 24 (bs_exporter_secret e) \<and>
     (let secrets = (\<lambda>tab. [(SERVER_TRAFFIC_SECRET_0 tab, 48), (CLIENT_TRAFFIC_SECRET_0 tab, 48),
            (BT_EXPORTER_SECRET tab, 48)])
      in \<not> ranges_disjoint (secrets boringssl_a_13) \<and>
         list_all (\<lambda>tab. ranges_disjoint (secrets tab)) [boringssl_a_14, boringssl_a_15, boringssl_a_16, boringssl_na])"
proof -
  have c: "user_bytes k 64 (s3 + CLIENT_TRAFFIC_SECRET_0 boringssl_a_13) = Some (take 64 bs)"
    using user_bytes_sub [OF assms(2), of 0 64] by simp
  have "CLIENT_TRAFFIC_SECRET_0 boringssl_a_13 + 40 = BT_EXPORTER_SECRET boringssl_a_13"
    by (simp add: layout_simps)
  then have x: "user_bytes k 64 (s3 + BT_EXPORTER_SECRET boringssl_a_13) = Some (take 64 (drop 40 bs))"
    using user_bytes_sub [OF assms(2), of 40 64] by (simp add: add.assoc)
  have "bs_client_traffic_secret_0 e = take 64 bs" "bs_exporter_secret e = take 64 (drop 40 bs)"
    using assms(1) c x by (simp_all add: e_def bh_tls13_def Let_def bs_shape_def soft_bytes)
  then have "take 24 (drop 40 (bs_client_traffic_secret_0 e)) = take 24 (bs_exporter_secret e)"
    by (simp add: drop_take)
  moreover have "let secrets = (\<lambda>tab. [(SERVER_TRAFFIC_SECRET_0 tab, 48), (CLIENT_TRAFFIC_SECRET_0 tab, 48),
            (BT_EXPORTER_SECRET tab, 48)])
      in \<not> ranges_disjoint (secrets boringssl_a_13) \<and>
         list_all (\<lambda>tab. ranges_disjoint (secrets tab)) [boringssl_a_14, boringssl_a_15, boringssl_a_16, boringssl_na]"
    by (simp add: layout_simps)
  ultimately show ?thesis by blast
qed

theorem bssl_a13_secrets_overlap_witness:
  "take 24 (drop 40 (bs_client_traffic_secret_0 (bh_tls13 boringssl_a_13 bk12 4096 bs_zero))) =
   take 24 (bs_exporter_secret (bh_tls13 boringssl_a_13 bk12 4096 bs_zero))"
  using bssl_a13_secrets_overlap [OF bs_shape_zero bk_words(3)] by blast

text \<open>
  Where the session keeps the secret's length in the one byte before the secret (the tables of
  Android 14, 15 and non-Android builds), the \<open>SSL_write\<close> hook reads four bytes there: the reported
  \<open>hash_len\<close> is the length byte plus 256 times the little-endian value of the first three
  bytes of the secret.
\<close>

theorem bssl_hash_len_polluted:
  assumes "BT_SECRET tab = BT_SECRET_LENGTH tab + 1" and "BT_SECRET_LENGTH tab \<noteq> 0xFF" and "bs_shape e"
    and "bm_read_tls12 tab k ssl hs v state e = Inr e'"
    and "session = get_session_addr tab k ssl hs"
    and "user_bytes k 49 (session + BT_SECRET_LENGTH tab) = Some (len # secret)"
  shows "bs_secret e' = secret \<and> unat (bs_hash_len e') = unat len + 256 * le_nat (take 3 secret)"
proof -
  let ?a = "session + BT_SECRET_LENGTH tab"
  have sec: "user_bytes k 48 (session + BT_SECRET tab) = Some secret"
    using user_bytes_sub [OF assms(6), of 1 48] length_user_bytes [OF assms(6)] assms(1) by (simp add: add.assoc)
  have four: "user_bytes k 4 ?a = Some (len # take 3 secret)"
    using user_bytes_sub [OF assms(6), of 0 4] by simp
  then have word: "user_word k ?a = Some (le_word (len # take 3 secret) :: s32)"
    by (simp add: user_word_def user_bytes_def)
  have "bs_secret e' = secret \<and> bs_hash_len e' = le_word (len # take 3 secret)"
    using assms(2-5) soft_word [OF word] sec
    by (auto simp: bm_read_tls12_def Let_def read_into_def case_prod_beta bs_shape_def soft_bytes
        split: if_splits option.splits)
  moreover have "le_nat (len # take 3 secret) < 2 ^ 32"
    using le_nat_bound [of "len # take 3 secret"] length_user_bytes [OF four] by simp
  then have "unat (le_word (len # take 3 secret) :: s32) = le_nat (len # take 3 secret)"
    by (intro unat_le_word) simp
  ultimately show ?thesis by simp
qed

theorem bssl_hash_len_polluted_witness:
  "\<exists>e'. bm_read_tls12 boringssl_a_15 bk12 4096 4096 0 20 bs_zero = Inr e' \<and> unat (bs_hash_len e') = 0x03030303"
proof -
  have addr: "get_session_addr boringssl_a_15 bk12 4096 4096 = 0x0003030303030303"
    by (simp add: get_session_addr_def soft_word [OF bk_words(2)] UNTAG_PTR_def)
  have a15: "BT_SECRET_LENGTH boringssl_a_15 = 0xa" "BT_SESSION_VERSION boringssl_a_15 = None"
    by (simp_all add: boringssl_a_15_def)
  obtain e' where e': "bm_read_tls12 boringssl_a_15 bk12 4096 4096 0 20 bs_zero = Inr e'"
    using bk_words(3) [of 48] a15
    by (simp add: bm_read_tls12_def addr CLIENT_STATE12_SEND_CLIENT_FINISHED_def soft_word [OF bk_words(1)] Let_def
        read_into_def user_bytes_def probe_read_user_ok bs_zero_def MASTER_SECRET_MAX_LEN_def)
  have bytes: "user_bytes bk12 49 a = Some (3 # replicate 48 3)" for a
  proof -
    have "replicate 49 (3 :: u8) = 3 # replicate 48 3" by (simp add: replicate_Suc [symmetric] del: replicate_Suc)
    then show ?thesis by (simp only: bk_words(3))
  qed
  have three: "replicate 3 (3 :: u8) = [3, 3, 3]" by (simp add: eval_nat_numeral)
  have "unat (bs_hash_len e') = unat (3 :: u8) + 256 * le_nat (take 3 (replicate 48 3))"
    using bssl_hash_len_polluted [OF _ _ bs_shape_zero e' refl bytes] by (simp add: boringssl_a_15_def)
  then have "unat (bs_hash_len e') = 0x03030303" by (simp add: three)
  with e' show ?thesis by blast
qed

text \<open>
  In every state the BoringSSL master-key object can reach, both maps hold at most their
  capacity with distinct threads, the template event is still all zero, and every reported event has
  fields of exactly the struct's sizes.
\<close>

theorem bssl_reachable_invariant: "bm_reachable tab c s \<Longrightarrow> bm_inv s"
  by (rule bm_reachable_inv)

theorem bssl_reachable_invariant_witness:
  "bm_inv (fst (uprobe_bssl_do_handshake rodata_default bk12 bk_regs bm_init))"
  by (rule bssl_reachable_invariant [OF bm_reachable.bm_more [OF bm_reachable.bm_start
      bm_step.bm_enter [where tab = boringssl_na]]])

text \<open>
  For every table whose \<open>max_version\<close> offset is below \<open>2\<^sup>32\<close>, the offsets kern/boringssl_const.h
  derives are a valid layout: the hash length lies behind \<open>max_version\<close>, 8-byte aligned and right
  before the secrets up to Android 15, and in the byte behind the first secret on Android 16; and
  the seven 48-byte secrets follow each other without overlap.
\<close>

theorem bssl_handshake_layout:
  assumes "unat (BT_MAX_VERSION tab) < 2 ^ 32" and "unat i < 6"
  shows "(\<not> android16 tab \<longrightarrow> 8 dvd unat (SSL_HANDSHAKE_HASH_LEN tab) \<and>
       unat (BT_MAX_VERSION tab) + 2 \<le> unat (SSL_HANDSHAKE_HASH_LEN tab) \<and>
       unat (SSL_HANDSHAKE_HASH_LEN tab) < unat (BT_MAX_VERSION tab) + 10 \<and>
       unat (SSL_HANDSHAKE_HASH_LEN tab) + 8 = unat (SSL_HANDSHAKE_SECRET tab)) \<and>
     (android16 tab \<longrightarrow> unat (SSL_HANDSHAKE_SECRET tab) = unat (BT_MAX_VERSION tab) + 2 \<and>
       unat (SSL_HANDSHAKE_HASH_LEN tab) = unat (SSL_HANDSHAKE_SECRET tab) + 48 \<and>
       unat (SSL_HANDSHAKE_HASH_LEN tab) < unat (handshake_field tab 1)) \<and>
     unat (handshake_field tab i) + 48 \<le> unat (handshake_field tab (i + 1))"
proof -
  define m where "m = unat (BT_MAX_VERSION tab)"
  have m: "m < 2 ^ 32" "BT_MAX_VERSION tab = of_nat m" using assms(1) by (simp_all add: m_def)
  have add2: "unat (BT_MAX_VERSION tab + 2) = m + 2"
  proof -
    have "BT_MAX_VERSION tab + 2 = of_nat (m + 2)" by (simp add: m)
    then show ?thesis using m(1) by (simp only: unsigned_of_nat) (simp add: take_bit_nat_eq_self)
  qed
  note add2' = add2 [unfolded m(2)]
  define h where "h = roundup (m + 2) 8"
  have h: "8 dvd h" "m + 2 \<le> h" "h < m + 10"
    using roundup_ge [of 8 "m + 2"] roundup_dvd [of 8 "m + 2"] roundup_less [of 8 "m + 2"] by (simp_all add: h_def)
  define a where "a = (if android16 tab then m + 2 else h + 8)"
  define d :: nat where "d = (if android16 tab then 49 else 48)"
  have a: "a < 2 ^ 32 + 20" "d \<le> 49" using m(1) h by (simp_all add: a_def d_def)
  have field: "unat (handshake_field tab j) = a + d * unat j" if "unat j \<le> 6" for j
  proof -
    have "d * unat j \<le> 49 * 6" using a(2) that by (rule mult_le_mono)
    then have lt: "a + d * unat j < 2 ^ 64" using a(1) by simp
    have "handshake_field tab j = of_nat (a + d * unat j)"
      by (simp add: handshake_field_def SSL_HANDSHAKE_SECRET_def SSL_HANDSHAKE_FIELD_STEP_def SSL_MAX_MD_SIZE_def
          a_def d_def h_def add2' m)
    then show ?thesis using lt by (simp only: unat_of_nat_u64)
  qed
  have sec: "unat (SSL_HANDSHAKE_SECRET tab) = a"
    using field [of 0] by (simp add: handshake_field_def)
  have hash: "unat (SSL_HANDSHAKE_HASH_LEN tab) = (if android16 tab then a + 48 else h)"
  proof -
    have "SSL_HANDSHAKE_HASH_LEN tab = of_nat (if android16 tab then a + 48 else h)"
      by (simp add: SSL_HANDSHAKE_HASH_LEN_def SSL_HANDSHAKE_SECRET_def SSL_MAX_MD_SIZE_def a_def h_def add2' m)
    moreover have "(if android16 tab then a + 48 else h) < 2 ^ 64" using a(1) m(1) h by auto
    ultimately show ?thesis by (simp only: unat_of_nat_u64)
  qed
  have "i + 1 = of_nat (unat i + 1)" by simp
  then have "unat (i + 1) = unat i + 1"
    using assms(2) by (simp only: unsigned_of_nat) (simp add: take_bit_nat_eq_self)
  then have "unat (handshake_field tab i) + 48 \<le> unat (handshake_field tab (i + 1))"
    using field [of i] field [of "i + 1"] assms(2) by (simp add: d_def)
  then show ?thesis using hash sec h field [of 1] by (simp add: a_def d_def m_def)
qed

theorem bssl_handshake_layout_witness:
  "unat (SSL_HANDSHAKE_SECRET boringssl_a_16) = 32 \<and> unat (SSL_HANDSHAKE_HASH_LEN boringssl_a_16) = 80 \<and>
   unat (handshake_field boringssl_a_16 5) + 48 \<le> unat (handshake_field boringssl_a_16 6)"
  using bssl_handshake_layout [of boringssl_a_16 5] by (simp add: android16_def boringssl_a_16_def)

end
