(* ===== verification/Go_Reader.thy ===== *)
theory Go_Reader
  imports Prelude
begin

text \<open>
  What the user-space decoders use of Go's \<open>bytes.Buffer\<close> and \<open>encoding/binary\<close>: a read of a
  fixed-size value takes exactly its bytes off the front, or fails when fewer are left. A decoder
  is a chain of such reads; its early returns are the \<open>Inl\<close> values.
\<close>

datatype decode_error = TooShort | ReadError | LengthExceeds

definition go_bind :: "decode_error + 'a \<Rightarrow> ('a \<Rightarrow> decode_error + 'b) \<Rightarrow> decode_error + 'b" where
  "go_bind r f = (case r of Inl e \<Rightarrow> Inl e | Inr x \<Rightarrow> f x)"

definition binary_read :: "nat \<Rightarrow> bytes \<Rightarrow> decode_error + (bytes \<times> bytes)" where
  "binary_read n buf = (if n \<le> length buf then Inr (take n buf, drop n buf) else Inl ReadError)"

lemma go_bind_simps [simp]: "go_bind (Inl e) f = Inl e" "go_bind (Inr x) f = f x"
  by (simp_all add: go_bind_def)

text \<open>A field that was written with its width is read back, and the rest is left.\<close>

lemma binary_read_append: "length xs = n \<Longrightarrow> binary_read n (xs @ ys) = Inr (xs, ys)"
  by (auto simp: binary_read_def)

lemma binary_read_prefix: "n \<le> length xs \<Longrightarrow> binary_read n (xs @ ys) = Inr (take n xs, drop n xs @ ys)"
  by (simp add: binary_read_def)

lemma binary_read_Cons [simp]: "binary_read (Suc 0) (x # ys) = Inr ([x], ys)"
  by (simp add: binary_read_def)

lemma binary_read_all: "length xs = n \<Longrightarrow> binary_read n xs = Inr (xs, [])"
  using binary_read_append [of xs n "[]"] by simp

end
