(* ===== verification/Tc_Probe.thy ===== *)
theory Tc_Probe
  imports Openssl_Probe Go_Reader
begin

text \<open>
  kern/tc.h: the packet capture that the OpenSSL, GnuTLS and Go objects share. Two kprobes record
  which process sends on which socket (\<open>network_map\<close>), two traffic-control classifiers report
  every packet together with the process it belongs to. This theory holds the state and the
  programs; Tc_Capture holds what they guarantee.

  \<^item> A packet is its linear section (\<open>sb_head\<close>) and the rest (\<open>sb_frags\<close>): only the linear section
    is readable, \<open>skb->data\<close> is offset 0 and \<open>skb->data_end\<close> is its length, \<open>sb_linear\<close>.
    A direct read outside it is \<open>None\<close>, and makes the whole run \<open>None\<close>.
  \<^item> \<open>bpf_skb_pull_data\<close> is kernel code, so it is an argument: how many bytes of the packet the
    linear section holds afterwards, or \<open>None\<close> for a negative result. The pcap filter user space
    injects in place of the stub is an argument as well.
  \<^item> The programs that look into a packet have the \<open>build\<close> as their first argument: the objects with and without
    CO-RE are compiled from the same code with different header structs.
\<close>

section \<open>Constants and data\<close>

definition TC_ACT_OK :: int where
  "TC_ACT_OK = 0"

definition ETH_P_IP :: u16 where
  "ETH_P_IP = 0x0800"

definition ETH_P_IPV6 :: u16 where
  "ETH_P_IPV6 = 0x86DD"

definition IPPROTO_ICMP :: u8 where
  "IPPROTO_ICMP = 1"

definition IPPROTO_TCP :: u8 where
  "IPPROTO_TCP = 6"

definition IPPROTO_UDP :: u8 where
  "IPPROTO_UDP = 17"

definition IPPROTO_ICMPV6 :: u8 where
  "IPPROTO_ICMPV6 = 58"

definition TC_PACKET_MIN_SIZE :: nat where
  "TC_PACKET_MIN_SIZE = 36"

text \<open>
  The header structs. \<open>make all\<close> builds every object twice: with CO-RE, where \<open>vmlinux.h\<close> has the
  kernel's own structs, and without it (\<open>NOCORE\<close>), where kern/ecapture.h declares a \<open>tcphdr\<close> of the two
  ports only and an \<open>ipv6hdr\<close> whose filler is one byte too long (and which the compiler pads before the
  32-bit words of the addresses). The other structs are the same in both.
\<close>

datatype build = CORE | NOCORE

definition sizeof_ethhdr :: nat where
  "sizeof_ethhdr = 14"

definition sizeof_iphdr :: nat where
  "sizeof_iphdr = 20"

definition sizeof_ipv6hdr :: "build \<Rightarrow> nat" where
  "sizeof_ipv6hdr b = (case b of CORE \<Rightarrow> 40 | NOCORE \<Rightarrow> 44)"

definition ipv6hdr_nexthdr :: "build \<Rightarrow> nat" where
  "ipv6hdr_nexthdr b = (case b of CORE \<Rightarrow> 6 | NOCORE \<Rightarrow> 7)"

definition ipv6hdr_saddr :: "build \<Rightarrow> nat" where
  "ipv6hdr_saddr b = (case b of CORE \<Rightarrow> 8 | NOCORE \<Rightarrow> 12)"

definition ipv6hdr_daddr :: "build \<Rightarrow> nat" where
  "ipv6hdr_daddr b = (case b of CORE \<Rightarrow> 24 | NOCORE \<Rightarrow> 28)"

definition sizeof_tcphdr :: "build \<Rightarrow> nat" where
  "sizeof_tcphdr b = (case b of CORE \<Rightarrow> 20 | NOCORE \<Rightarrow> 4)"

lemmas header_sizes = sizeof_ethhdr_def sizeof_iphdr_def

lemmas build_headers = sizeof_ipv6hdr_def ipv6hdr_nexthdr_def ipv6hdr_saddr_def ipv6hdr_daddr_def sizeof_tcphdr_def

text \<open>In both builds the fields the walk reads lie in their struct.\<close>

lemma header_fields:
  "4 \<le> sizeof_tcphdr b" "ipv6hdr_nexthdr b < sizeof_ipv6hdr b" "20 \<le> sizeof_ipv6hdr b"
  "ipv6hdr_saddr b + 16 \<le> sizeof_ipv6hdr b" "ipv6hdr_daddr b + 16 \<le> sizeof_ipv6hdr b"
  by (simp_all add: build_headers split: build.split)

record skb_data_event_t =
  se_ts :: u64
  se_pid :: u32
  se_comm :: bytes
  se_len :: u32
  se_ifindex :: u32

definition skb_data_event_zero :: skb_data_event_t where
  "skb_data_event_zero = \<lparr>se_ts = 0, se_pid = 0, se_comm = replicate TASK_COMM_LEN 0, se_len = 0,
     se_ifindex = 0\<rparr>"

text \<open>The bytes of the struct, as \<open>bpf_perf_event_output\<close> copies them: it has no padding.\<close>

definition skb_event_bytes :: "skb_data_event_t \<Rightarrow> bytes" where
  "skb_event_bytes e =
     le_enc 8 (se_ts e) @ le_enc 4 (se_pid e) @ se_comm e @ le_enc 4 (se_len e) @ le_enc 4 (se_ifindex e)"

record net_id_t =
  ni_protocol :: u32
  ni_src_port :: u32
  ni_src_ip4 :: u32
  ni_dst_port :: u32
  ni_dst_ip4 :: u32
  ni_src_ip6 :: "u32 list"
  ni_dst_ip6 :: "u32 list"

definition net_id_zero :: net_id_t where
  "net_id_zero = \<lparr>ni_protocol = 0, ni_src_port = 0, ni_src_ip4 = 0, ni_dst_port = 0, ni_dst_ip4 = 0,
     ni_src_ip6 = replicate 4 0, ni_dst_ip6 = replicate 4 0\<rparr>"

record net_ctx_t =
  nc_pid :: u32
  nc_uid :: u32
  nc_cgroup_id :: u64
  nc_comm :: bytes

text \<open>
  The maps of the object: \<open>tc_skb_events\<close> is what user space receives, one byte string per sample
  (the struct followed by the packet bytes the flags ask for).
\<close>

record tc_state =
  tc_network_map :: "(net_id_t, net_ctx_t) bmap"
  tc_skb_data_buffer_heap :: "nat \<Rightarrow> skb_data_event_t"
  tc_skb_events :: "bytes list"

definition network_map_max :: nat where
  "network_map_max = 10240"

definition tc_init :: tc_state where
  "tc_init = \<lparr>tc_network_map = [], tc_skb_data_buffer_heap = (\<lambda>_. skb_data_event_zero), tc_skb_events = []\<rparr>"

record sk_buff =
  sb_head :: bytes
  sb_frags :: bytes
  sb_ifindex :: u32

definition sb_packet :: "sk_buff \<Rightarrow> bytes" where
  "sb_packet skb = sb_head skb @ sb_frags skb"

definition sb_linear :: "sk_buff \<Rightarrow> nat" where
  "sb_linear skb = length (sb_head skb)"

type_synonym pull_data = "sk_buff \<Rightarrow> nat \<Rightarrow> nat option"
type_synonym pcap_filter = "sk_buff \<Rightarrow> sk_buff \<Rightarrow> sk_buff \<Rightarrow> nat \<Rightarrow> nat \<Rightarrow> bool"

definition skb_len :: "sk_buff \<Rightarrow> u32" where
  "skb_len skb = of_nat (length (sb_packet skb))"

section \<open>Helpers\<close>

text \<open>\<open>READ_KERN\<close> zeroes its temporary before the read.\<close>

definition READ_KERN :: "kernel \<Rightarrow> u64 \<Rightarrow> u64" where
  "READ_KERN k ptr = snd (probe_kernel_word k (0 :: u64) ptr)"

record task_layout =
  TASK_MM :: u64
  MM_ARG_START :: u64
  MM_ARG_END :: u64

text \<open>The buffer \<open>cmdline\<close> is passed in and returned.\<close>

definition get_proc_cmdline :: "task_layout \<Rightarrow> kernel \<Rightarrow> u64 \<Rightarrow> bytes \<Rightarrow> s32 \<Rightarrow> bytes" where
  "get_proc_cmdline lay k task cmdline sz =
     (let mm = READ_KERN k (task + TASK_MM lay);
          args_start = READ_KERN k (mm + MM_ARG_START lay);
          args_end = READ_KERN k (mm + MM_ARG_END lay);
          len = (ucast (args_end - args_start) :: s32);
          len = (if sint len \<ge> sint sz then sz - 1 else len);
          n = unat (len AND (sz - 1))
      in snd (probe_read_any k (take n cmdline) args_start) @ drop n cmdline)"

definition make_skb_data_event :: "kernel \<Rightarrow> tc_state \<Rightarrow> skb_data_event_t option" where
  "make_skb_data_event k s =
     (case array1_lookup 0 (tc_skb_data_buffer_heap s (k_cpu k)) of None \<Rightarrow> None | Some event \<Rightarrow> Some event)"

text \<open>
  \<open>*head\<close> and \<open>*tail\<close> always mirror the buffer, so the buffer is the result; \<open>None\<close> is \<open>false\<close>.
\<close>

definition skb_revalidate_data :: "pull_data \<Rightarrow> sk_buff \<Rightarrow> nat \<Rightarrow> sk_buff option" where
  "skb_revalidate_data pull skb offset =
     (if offset > sb_linear skb then
        (case pull skb offset of
           None \<Rightarrow> None
         | Some n \<Rightarrow>
             let skb = skb\<lparr>sb_head := take n (sb_packet skb), sb_frags := drop n (sb_packet skb)\<rparr>
             in if offset > sb_linear skb then None else Some skb)
      else Some skb)"

definition filter_pcap_ebpf_l2 :: pcap_filter where
  "filter_pcap_ebpf_l2 s1 s2 s3 data data_end = (data \<noteq> data_end \<and> s1 = s2 \<and> s2 = s3)"

definition filter_pcap_l2 :: "pcap_filter \<Rightarrow> sk_buff \<Rightarrow> nat \<Rightarrow> nat \<Rightarrow> bool" where
  "filter_pcap_l2 pcap skb data data_end = pcap skb skb skb data data_end"

text \<open>Direct packet access: the bytes of a field of the linear section.\<close>

definition pkt_bytes :: "sk_buff \<Rightarrow> nat \<Rightarrow> nat \<Rightarrow> bytes option" where
  "pkt_bytes skb off n =
     (if off + n \<le> sb_linear skb then Some (take n (drop off (sb_head skb))) else None)"

definition pkt_field :: "sk_buff \<Rightarrow> nat \<Rightarrow> 'a::len word option" where
  "pkt_field skb off = map_option le_word (pkt_bytes skb off (LENGTH('a) div 8))"

text \<open>\<open>__builtin_memcpy\<close> of 16 bytes into a \<open>u32[4]\<close>.\<close>

definition ip6_words :: "bytes \<Rightarrow> u32 list" where
  "ip6_words bs = map (\<lambda>i. le_word (take 4 (drop (4 * i) bs))) [0, 1, 2, 3]"

text \<open>
  \<open>bpf_perf_event_output\<close> with a packet as context: the bits of \<open>BPF_F_CTXLEN_MASK\<close> say how many
  bytes of the packet follow the sample; other high bits, or more bytes than there are, are
  refused.
\<close>

definition BPF_F_CURRENT_CPU :: u64 where
  "BPF_F_CURRENT_CPU = 0xffffffff"

definition BPF_F_CTXLEN_MASK :: u64 where
  "BPF_F_CTXLEN_MASK = 0xfffff00000000"

definition skb_perf_event_output :: "sk_buff \<Rightarrow> u64 \<Rightarrow> bytes \<Rightarrow> bytes list \<Rightarrow> bytes list" where
  "skb_perf_event_output skb flags sample events =
     (let n = unat (drop_bit 32 (flags AND BPF_F_CTXLEN_MASK))
      in if flags AND NOT (BPF_F_CURRENT_CPU OR BPF_F_CTXLEN_MASK) \<noteq> 0 \<or> n > length (sb_packet skb) then events
         else events @ [sample @ take n (sb_packet skb)])"

section \<open>The classifiers\<close>

text \<open>
  Exchange of the two end points before the second lookup. Each branch exchanges the ports and the
  addresses of its own family; the other family's words are zero on both sides of its keys, so one
  definition serves both (\<open>net_id_swap_ipv4\<close>, \<open>net_id_swap_ipv6\<close>).
\<close>

definition net_id_swap :: "net_id_t \<Rightarrow> net_id_t" where
  "net_id_swap i = i\<lparr>ni_src_ip4 := ni_dst_ip4 i, ni_dst_ip4 := ni_src_ip4 i,
     ni_src_ip6 := ni_dst_ip6 i, ni_dst_ip6 := ni_src_ip6 i,
     ni_src_port := ni_dst_port i, ni_dst_port := ni_src_port i\<rparr>"

lemma net_id_swap_ipv4:
  "ni_src_ip6 i = ni_dst_ip6 i \<Longrightarrow> net_id_swap i = i\<lparr>ni_src_ip4 := ni_dst_ip4 i, ni_dst_ip4 := ni_src_ip4 i,
     ni_src_port := ni_dst_port i, ni_dst_port := ni_src_port i\<rparr>"
  by (cases i) (simp add: net_id_swap_def)

lemma net_id_swap_ipv6:
  "ni_src_ip4 i = ni_dst_ip4 i \<Longrightarrow> net_id_swap i = i\<lparr>ni_src_ip6 := ni_dst_ip6 i, ni_dst_ip6 := ni_src_ip6 i,
     ni_src_port := ni_dst_port i, ni_dst_port := ni_src_port i\<rparr>"
  by (cases i) (simp add: net_id_swap_def)

definition network_lookup :: "tc_state \<Rightarrow> net_id_t \<Rightarrow> net_ctx_t option" where
  "network_lookup s conn_id =
     (case map_lookup (tc_network_map s) conn_id of
        None \<Rightarrow> map_lookup (tc_network_map s) (net_id_swap conn_id)
      | Some net_ctx \<Rightarrow> Some net_ctx)"

text \<open>
  The header walk of \<open>capture_packets\<close>: \<open>Stop\<close> is an early \<open>return TC_ACT_OK\<close>, \<open>Attribute\<close> the
  key it looks up (\<open>None\<close> for an ethertype that is neither IPv4 nor IPv6).
\<close>

datatype header_walk = Stop | Attribute "net_id_t option"

definition walk_ipv6 :: "build \<Rightarrow> pull_data \<Rightarrow> sk_buff \<Rightarrow> header_walk option" where
  "walk_ipv6 b pull skb =
     (let l4_hdr_off = sizeof_ethhdr + sizeof_ipv6hdr b in
      case skb_revalidate_data pull skb l4_hdr_off of
        None \<Rightarrow> Some Stop
      | Some skb \<Rightarrow>
          let iph = sizeof_ethhdr in
          case pkt_field skb (iph + ipv6hdr_nexthdr b) of
            None \<Rightarrow> None
          | Some nexthdr \<Rightarrow>
              if nexthdr \<noteq> IPPROTO_TCP \<and> nexthdr \<noteq> IPPROTO_UDP \<and> nexthdr \<noteq> IPPROTO_ICMPV6 then Some Stop
              else (case (pkt_bytes skb (iph + ipv6hdr_saddr b) 16, pkt_bytes skb (iph + ipv6hdr_daddr b) 16) of
                (Some saddr, Some daddr) \<Rightarrow>
                  let conn_id = net_id_zero\<lparr>ni_protocol := ucast nexthdr,
                        ni_src_ip6 := ip6_words saddr, ni_dst_ip6 := ip6_words daddr\<rparr> in
                  (case skb_revalidate_data pull skb (l4_hdr_off + sizeof_tcphdr b) of
                     None \<Rightarrow> Some Stop
                   | Some skb \<Rightarrow>
                       (case (pkt_field skb l4_hdr_off, pkt_field skb (l4_hdr_off + 2)) of
                          (Some source, Some dest) \<Rightarrow>
                            Some (Attribute (Some (conn_id\<lparr>ni_src_port := ucast (bpf_ntohs source),
                              ni_dst_port := ucast (bpf_ntohs dest)\<rparr>)))
                        | _ \<Rightarrow> None))
              | _ \<Rightarrow> None))"

definition walk_ipv4 :: "build \<Rightarrow> pull_data \<Rightarrow> sk_buff \<Rightarrow> header_walk option" where
  "walk_ipv4 b pull skb =
     (let l4_hdr_off = sizeof_ethhdr + sizeof_iphdr in
      case skb_revalidate_data pull skb l4_hdr_off of
        None \<Rightarrow> Some Stop
      | Some skb \<Rightarrow>
          let iph = sizeof_ethhdr in
          case pkt_field skb (iph + 9) of
            None \<Rightarrow> None
          | Some protocol \<Rightarrow>
              if protocol \<noteq> IPPROTO_TCP \<and> protocol \<noteq> IPPROTO_UDP \<and> protocol \<noteq> IPPROTO_ICMP then Some Stop
              else (case (pkt_field skb (iph + 12), pkt_field skb (iph + 16)) of
                (Some saddr, Some daddr) \<Rightarrow>
                  let conn_id = net_id_zero\<lparr>ni_protocol := ucast protocol, ni_src_ip4 := saddr,
                        ni_dst_ip4 := daddr\<rparr> in
                  (case skb_revalidate_data pull skb (l4_hdr_off + sizeof_tcphdr b) of
                     None \<Rightarrow> Some Stop
                   | Some skb \<Rightarrow>
                       (case (pkt_field skb l4_hdr_off, pkt_field skb (l4_hdr_off + 2)) of
                          (Some source, Some dest) \<Rightarrow>
                            Some (Attribute (Some (conn_id\<lparr>ni_src_port := ucast (bpf_ntohs source),
                              ni_dst_port := ucast (bpf_ntohs dest)\<rparr>)))
                        | _ \<Rightarrow> None))
              | _ \<Rightarrow> None))"

text \<open>The end of \<open>capture_packets\<close>: the filter on the recorded process, and the sample.\<close>

definition emit_packet :: "rodata \<Rightarrow> kernel \<Rightarrow> sk_buff \<Rightarrow> net_ctx_t option \<Rightarrow> tc_state \<Rightarrow> tc_state \<times> int" where
  "emit_packet c k skb net_ctx s =
     (let event = skb_data_event_zero;
          send = (\<lambda>event.
            let event = event\<lparr>se_ts := k_ktime_ns k, se_len := skb_len skb, se_ifindex := sb_ifindex skb\<rparr>;
                flags = BPF_F_CURRENT_CPU OR push_bit 32 (ucast (skb_len skb));
                pkt_size = TC_PACKET_MIN_SIZE
            in (s\<lparr>tc_skb_events := skb_perf_event_output skb flags (take pkt_size (skb_event_bytes event))
                  (tc_skb_events s)\<rparr>, TC_ACT_OK))
      in case net_ctx of
           Some net_ctx \<Rightarrow>
             if filter_rejects_base c (nc_pid net_ctx) (nc_uid net_ctx) then (s, TC_ACT_OK)
             else if target_cgroup_id c \<noteq> 0 \<and> nc_cgroup_id net_ctx \<noteq> target_cgroup_id c then (s, TC_ACT_OK)
             else send (event\<lparr>se_pid := nc_pid net_ctx, se_comm := nc_comm net_ctx\<rparr>)
         | None \<Rightarrow> send event)"

definition capture_packets ::
    "build \<Rightarrow> pcap_filter \<Rightarrow> pull_data \<Rightarrow> rodata \<Rightarrow> kernel \<Rightarrow> sk_buff \<Rightarrow> bool \<Rightarrow> tc_state \<Rightarrow> (tc_state \<times> int) option" where
  "capture_packets b pcap pull c k skb is_ingress s =
     (let data_start = 0; data_end = sb_linear skb in
      if data_start + sizeof_ethhdr + sizeof_iphdr > data_end then Some (s, TC_ACT_OK)
      else if less52 c \<noteq> 1 \<and> \<not> filter_pcap_l2 pcap skb data_start data_end then Some (s, TC_ACT_OK)
      else
      case pkt_field skb (data_start + 12) of
        None \<Rightarrow> None
      | Some h_proto \<Rightarrow>
          (case (if h_proto = bpf_swab16 ETH_P_IPV6 then walk_ipv6 b pull skb
                 else if h_proto = bpf_swab16 ETH_P_IP then walk_ipv4 b pull skb
                 else Some (Attribute None)) of
             None \<Rightarrow> None
           | Some Stop \<Rightarrow> Some (s, TC_ACT_OK)
           | Some (Attribute conn_id) \<Rightarrow>
               let net_ctx = (case conn_id of None \<Rightarrow> None | Some conn_id \<Rightarrow> network_lookup s conn_id)
               in Some (emit_packet c k skb net_ctx s)))"

definition egress_cls_func ::
    "build \<Rightarrow> pcap_filter \<Rightarrow> pull_data \<Rightarrow> rodata \<Rightarrow> kernel \<Rightarrow> sk_buff \<Rightarrow> tc_state \<Rightarrow> (tc_state \<times> int) option" where
  "egress_cls_func b pcap pull c k skb s = capture_packets b pcap pull c k skb False s"

definition ingress_cls_func ::
    "build \<Rightarrow> pcap_filter \<Rightarrow> pull_data \<Rightarrow> rodata \<Rightarrow> kernel \<Rightarrow> sk_buff \<Rightarrow> tc_state \<Rightarrow> (tc_state \<times> int) option" where
  "ingress_cls_func b pcap pull c k skb s = capture_packets b pcap pull c k skb True s"

section \<open>The kprobes on sendmsg\<close>

text \<open>
  The fields of \<open>struct sock_common\<close> by name: \<open>skc_daddr\<close> and \<open>skc_rcv_saddr\<close> are the halves of
  \<open>skc_addrpair\<close>, \<open>skc_dport\<close> and \<open>skc_num\<close> those of \<open>skc_portpair\<close>.
\<close>

definition sendmsg_conn_id :: "sock_layout \<Rightarrow> kernel \<Rightarrow> u64 \<Rightarrow> u32 \<Rightarrow> net_id_t" where
  "sendmsg_conn_id l k sk protocol =
     (let conn_id = net_id_zero;
          family = snd (probe_any_word k (uninit_word k ''family'' :: u16) (sk + SKC_FAMILY l));
          lport = snd (probe_any_word k (uninit_word k ''lport'' :: u16) (sk + SKC_PORTPAIR l + 2));
          dport = snd (probe_any_word k (uninit_word k ''dport'' :: u16) (sk + SKC_PORTPAIR l))
      in
      if family = AF_INET6 then
        let src_ip6 = snd (probe_read_any k (uninit_bytes k ''src_ip6'' 16) (sk + SKC_V6_RCV_SADDR l));
            dst_ip6 = snd (probe_read_any k (uninit_bytes k ''dst_ip6'' 16) (sk + SKC_V6_DADDR l))
        in conn_id\<lparr>ni_protocol := protocol, ni_src_port := ucast lport, ni_dst_port := ucast (bpf_ntohs dport),
             ni_src_ip6 := ip6_words src_ip6, ni_dst_ip6 := ip6_words dst_ip6\<rparr>
      else if family = AF_INET then
        let src_ip4 = snd (probe_any_word k (uninit_word k ''src_ip4'' :: u32) (sk + SKC_ADDRPAIR l + 4));
            dst_ip4 = snd (probe_any_word k (uninit_word k ''dst_ip4'' :: u32) (sk + SKC_ADDRPAIR l))
        in conn_id\<lparr>ni_protocol := protocol, ni_src_port := ucast lport, ni_src_ip4 := src_ip4,
             ni_dst_port := ucast (bpf_ntohs dport), ni_dst_ip4 := dst_ip4\<rparr>
      else conn_id)"

definition trace_sendmsg :: "sock_layout \<Rightarrow> kernel \<Rightarrow> pt_regs \<Rightarrow> u32 \<Rightarrow> tc_state \<Rightarrow> tc_state \<times> int" where
  "trace_sendmsg l k ctx protocol s =
     (let pid = ucast (drop_bit 32 (k_pid_tgid k));
          current_uid_gid = k_uid_gid k;
          uid = ucast current_uid_gid;
          sk = PT_REGS_PARM1 ctx
      in if sk = 0 then (s, 0)
      else
      let conn_id = sendmsg_conn_id l k sk protocol;
          net_ctx = \<lparr>nc_pid = pid, nc_uid = uid, nc_cgroup_id = k_cgroup_id k, nc_comm = k_comm k\<rparr>
      in (s\<lparr>tc_network_map := lru_update network_map_max (k_victim k) conn_id net_ctx (tc_network_map s)\<rparr>, 0))"

definition tcp_sendmsg :: "sock_layout \<Rightarrow> kernel \<Rightarrow> pt_regs \<Rightarrow> tc_state \<Rightarrow> tc_state \<times> int" where
  "tcp_sendmsg l k ctx s = trace_sendmsg l k ctx (ucast IPPROTO_TCP) s"

definition udp_sendmsg :: "sock_layout \<Rightarrow> kernel \<Rightarrow> pt_regs \<Rightarrow> tc_state \<Rightarrow> tc_state \<times> int" where
  "udp_sendmsg l k ctx s = trace_sendmsg l k ctx (ucast IPPROTO_UDP) s"

section \<open>The consumer in user space\<close>

text \<open>
  \<open>PacketEvent\<close> and its decoder (internal/probe/openssl/event_packet.go; the gotls package has the
  same one). The receiver \<open>e\<close> is passed in: only the fields the decoder assigns change.
\<close>

record PacketEvent =
  Timestamp :: u64
  Pid :: u32
  Comm :: bytes
  Cmdline :: bytes
  PacketLen :: u32
  InterfaceIndex :: u32
  PacketData :: bytes

definition PacketEvent_DecodeFromBytes :: "PacketEvent \<Rightarrow> bytes \<Rightarrow> decode_error + PacketEvent" where
  "PacketEvent_DecodeFromBytes e data =
     (if length data < 36 then Inl TooShort
      else go_bind (binary_read 8 data) (\<lambda>(ts, buf).
        go_bind (binary_read 4 buf) (\<lambda>(pid, buf).
        go_bind (binary_read TASK_COMM_LEN buf) (\<lambda>(comm, buf).
        go_bind (binary_read 4 buf) (\<lambda>(plen, buf).
        go_bind (binary_read 4 buf) (\<lambda>(ifx, buf).
        go_bind (binary_read (unat (le_word plen :: u32)) buf) (\<lambda>(tmpData, buf).
          Inr (e\<lparr>Timestamp := le_word ts, Pid := le_word pid, Comm := comm,
            Cmdline := (Cmdline e)[0 := 91], PacketLen := le_word plen,
            InterfaceIndex := le_word ifx, PacketData := tmpData\<rparr>))))))))"

end
