(* ===== verification/Tc_Capture.thy ===== *)
theory Tc_Capture
  imports Tc_Probe Openssl_Capture
begin

text \<open>
  What the programs of kern/tc.h guarantee: the classifiers never read outside the packet and
  always let it pass; they report what a specification on the whole packet says
  (\<open>packet_report\<close>); a packet of a connection is attributed to the process that sent on its
  socket, in both directions; and the invariant of the object.
\<close>

section \<open>Packet access\<close>

lemma sb_packet_pull [simp]: "sb_packet (skb\<lparr>sb_head := take n p, sb_frags := drop n p\<rparr>) = p"
  by (simp add: sb_packet_def)

lemma skb_revalidate_data_ok:
  assumes "skb_revalidate_data pull skb n = Some skb'"
  shows "n \<le> sb_linear skb'" and "sb_packet skb' = sb_packet skb" and "sb_ifindex skb' = sb_ifindex skb"
  using assms
  by (auto simp: skb_revalidate_data_def Let_def split: if_splits option.splits)

lemma pkt_bytes_ok:
  "off + n \<le> sb_linear skb \<Longrightarrow> pkt_bytes skb off n = Some (take n (drop off (sb_packet skb)))"
  by (simp add: pkt_bytes_def sb_linear_def sb_packet_def)

lemma pkt_field_ok:
  "off + LENGTH('a::len) div 8 \<le> sb_linear skb \<Longrightarrow>
   (pkt_field skb off :: 'a word option) = Some (le_word (take (LENGTH('a) div 8) (drop off (sb_packet skb))))"
  by (simp add: pkt_field_def pkt_bytes_ok)

text \<open>The keys the two walks compute, as functions of the whole packet.\<close>

definition ipv4_id :: "bytes \<Rightarrow> net_id_t" where
  "ipv4_id p = net_id_zero\<lparr>ni_protocol := ucast (p ! 23), ni_src_ip4 := le_word (take 4 (drop 26 p)),
     ni_dst_ip4 := le_word (take 4 (drop 30 p)), ni_src_port := of_nat (be16 (take 2 (drop 34 p))),
     ni_dst_port := of_nat (be16 (take 2 (drop 36 p)))\<rparr>"

definition ipv6_id :: "build \<Rightarrow> bytes \<Rightarrow> net_id_t" where
  "ipv6_id b p = (let l4 = 14 + sizeof_ipv6hdr b in
     net_id_zero\<lparr>ni_protocol := ucast (p ! (14 + ipv6hdr_nexthdr b)),
       ni_src_ip6 := ip6_words (take 16 (drop (14 + ipv6hdr_saddr b) p)),
       ni_dst_ip6 := ip6_words (take 16 (drop (14 + ipv6hdr_daddr b) p)),
       ni_src_port := of_nat (be16 (take 2 (drop l4 p))), ni_dst_port := of_nat (be16 (take 2 (drop (l4 + 2) p)))\<rparr>)"

lemma take2_drop: "Suc n < length p \<Longrightarrow> take 2 (drop n p) = [p ! n, p ! Suc n]"
  by (simp add: numeral_2_eq_2 take_Suc_conv_app_nth)

lemma take1_drop: "n < length p \<Longrightarrow> take 1 (drop n p) = [p ! n]"
  by (simp add: take_Suc_conv_app_nth)

lemma sb_linear_le: "sb_linear skb \<le> length (sb_packet skb)"
  by (simp add: sb_linear_def sb_packet_def)

lemma port_field:
  assumes "n + 2 \<le> length p"
  shows "ucast (bpf_ntohs (le_word (take 2 (drop n p)))) = (of_nat (be16 (take 2 (drop n p))) :: u32)"
  using assms bpf_ntohs_be16 [of "p ! n" "p ! Suc n"] by (simp add: take2_drop)

lemma ether_types: "bpf_swab16 ETH_P_IPV6 = le_word [0x86, 0xDD]" "bpf_swab16 ETH_P_IP = le_word [0x08, 0x00]"
  by (simp_all add: bpf_swab16_builtin builtin_bswap16_def ETH_P_IPV6_def ETH_P_IP_def le_word_bytes2)

text \<open>The walks: what they return, whatever \<open>bpf_skb_pull_data\<close> does.\<close>

lemma walk_ipv4_eq:
  "walk_ipv4 b pull skb =
     (case skb_revalidate_data pull skb 34 of
        None \<Rightarrow> Some Stop
      | Some skb' \<Rightarrow>
          if sb_packet skb ! 23 \<notin> {IPPROTO_TCP, IPPROTO_UDP, IPPROTO_ICMP} then Some Stop
          else (case skb_revalidate_data pull skb' (34 + sizeof_tcphdr b) of
             None \<Rightarrow> Some Stop | Some _ \<Rightarrow> Some (Attribute (Some (ipv4_id (sb_packet skb))))))"
proof (cases "skb_revalidate_data pull skb 34")
  case None
  then show ?thesis by (simp add: walk_ipv4_def header_sizes)
next
  case (Some skb')
  note r1 = skb_revalidate_data_ok [OF Some]
  have len: "34 \<le> length (sb_packet skb)" using r1 sb_linear_le [of skb'] by simp
  have proto: "(pkt_field skb' 23 :: u8 option) = Some (sb_packet skb ! 23)"
    using r1 len by (simp add: pkt_field_ok take1_drop [unfolded One_nat_def])
  show ?thesis
  proof (cases "skb_revalidate_data pull skb' (34 + sizeof_tcphdr b)")
    case None
    then show ?thesis
      using Some r1 header_fields [of b] by (simp add: walk_ipv4_def header_sizes Let_def proto pkt_field_ok)
  next
    case (Some skb2)
    note r2 = skb_revalidate_data_ok [OF Some]
    have "34 + sizeof_tcphdr b \<le> length (sb_packet skb)" using r1 r2 sb_linear_le [of skb2] by simp
    then show ?thesis
      using Some \<open>skb_revalidate_data pull skb 34 = Some skb'\<close> r1 r2 header_fields [of b]
      by (simp add: walk_ipv4_def header_sizes Let_def proto pkt_field_ok port_field ipv4_id_def)
  qed
qed

lemma walk_ipv6_eq:
  "walk_ipv6 b pull skb =
     (case skb_revalidate_data pull skb (14 + sizeof_ipv6hdr b) of
        None \<Rightarrow> Some Stop
      | Some skb' \<Rightarrow>
          if sb_packet skb ! (14 + ipv6hdr_nexthdr b) \<notin> {IPPROTO_TCP, IPPROTO_UDP, IPPROTO_ICMPV6} then Some Stop
          else (case skb_revalidate_data pull skb' (14 + sizeof_ipv6hdr b + sizeof_tcphdr b) of
             None \<Rightarrow> Some Stop | Some _ \<Rightarrow> Some (Attribute (Some (ipv6_id b (sb_packet skb))))))"
proof (cases "skb_revalidate_data pull skb (14 + sizeof_ipv6hdr b)")
  case None
  then show ?thesis by (simp add: walk_ipv6_def header_sizes)
next
  case (Some skb')
  note r1 = skb_revalidate_data_ok [OF Some]
  have len: "14 + sizeof_ipv6hdr b \<le> length (sb_packet skb)" using r1 sb_linear_le [of skb'] by simp
  have proto: "(pkt_field skb' (14 + ipv6hdr_nexthdr b) :: u8 option) = Some (sb_packet skb ! (14 + ipv6hdr_nexthdr b))"
    using r1 len header_fields [of b] by (simp add: pkt_field_ok take1_drop [unfolded One_nat_def])
  show ?thesis
  proof (cases "skb_revalidate_data pull skb' (14 + sizeof_ipv6hdr b + sizeof_tcphdr b)")
    case None
    then show ?thesis
      using Some r1 header_fields [of b] by (simp add: walk_ipv6_def header_sizes Let_def proto pkt_bytes_ok)
  next
    case (Some skb2)
    note r2 = skb_revalidate_data_ok [OF Some]
    have "14 + sizeof_ipv6hdr b + sizeof_tcphdr b \<le> length (sb_packet skb)" using r1 r2 sb_linear_le [of skb2] by simp
    then show ?thesis
      using Some \<open>skb_revalidate_data pull skb (14 + sizeof_ipv6hdr b) = Some skb'\<close> r1 r2
      by (cases b) (simp_all add: build_headers walk_ipv6_def header_sizes Let_def pkt_field_ok pkt_bytes_ok port_field
          ipv6_id_def take1_drop [unfolded One_nat_def])
  qed
qed

section \<open>Safety of the classifiers\<close>

definition ether_walk :: "build \<Rightarrow> pull_data \<Rightarrow> sk_buff \<Rightarrow> u16 \<Rightarrow> header_walk option" where
  "ether_walk b pull skb h_proto =
     (if h_proto = bpf_swab16 ETH_P_IPV6 then walk_ipv6 b pull skb
      else if h_proto = bpf_swab16 ETH_P_IP then walk_ipv4 b pull skb
      else Some (Attribute None))"

lemma ether_walk_total: "\<exists>w. ether_walk b pull skb h = Some w"
  by (simp add: ether_walk_def walk_ipv4_eq walk_ipv6_eq split: option.split)

lemma capture_packets_walk:
  "capture_packets b pcap pull c k skb dir s =
     (if sizeof_ethhdr + sizeof_iphdr > sb_linear skb \<or> less52 c \<noteq> 1 \<and> \<not> filter_pcap_l2 pcap skb 0 (sb_linear skb)
      then Some (s, TC_ACT_OK)
      else case pkt_field skb 12 of None \<Rightarrow> None
      | Some h_proto \<Rightarrow> (case ether_walk b pull skb h_proto of None \<Rightarrow> None
          | Some Stop \<Rightarrow> Some (s, TC_ACT_OK)
          | Some (Attribute i) \<Rightarrow>
              Some (emit_packet c k skb (case i of None \<Rightarrow> None | Some i \<Rightarrow> network_lookup s i) s)))"
  unfolding capture_packets_def ether_walk_def Let_def by simp

text \<open>The run after the header walk: the owner's filter and the sample.\<close>

lemma capture_packets_cases:
  "capture_packets b pcap pull c k skb dir s = Some (s, TC_ACT_OK) \<or>
   (\<exists>i. capture_packets b pcap pull c k skb dir s =
      Some (emit_packet c k skb (case i of None \<Rightarrow> None | Some i \<Rightarrow> network_lookup s i) s))"
proof (cases "34 \<le> sb_linear skb")
  case True
  then obtain h :: u16 where h: "pkt_field skb 12 = Some h" by (simp add: pkt_field_ok)
  obtain w where "ether_walk b pull skb h = Some w" using ether_walk_total by blast
  then show ?thesis
    using True h by (cases w) (auto simp: capture_packets_walk header_sizes)
qed (simp add: capture_packets_def header_sizes)

lemma emit_packet_frame:
  "snd (emit_packet c k skb x s) = TC_ACT_OK"
  "tc_network_map (fst (emit_packet c k skb x s)) = tc_network_map s"
  "tc_skb_data_buffer_heap (fst (emit_packet c k skb x s)) = tc_skb_data_buffer_heap s"
  "\<exists>es. tc_skb_events (fst (emit_packet c k skb x s)) = tc_skb_events s @ es \<and> length es \<le> 1"
  by (auto simp: emit_packet_def skb_perf_event_output_def Let_def split: option.split)

text \<open>
  C7: Whatever the packet, the way it is split into linear and non-linear data, the injected pcap
  filter and the answers of bpf_skb_pull_data, a classifier never reads outside the linear section
  (the run is not \<open>None\<close>), always returns TC_ACT_OK so that no packet is dropped, changes neither
  network_map nor the scratch buffer, and adds at most one sample.
\<close>

theorem capture_packets_safe:
  "\<exists>t es. capture_packets b pcap pull c k skb is_ingress s = Some (t, TC_ACT_OK) \<and>
     tc_network_map t = tc_network_map s \<and> tc_skb_data_buffer_heap t = tc_skb_data_buffer_heap s \<and>
     tc_skb_events t = tc_skb_events s @ es \<and> length es \<le> 1"
  using capture_packets_cases [of b pcap pull c k skb is_ingress s]
proof
  assume "\<exists>i. capture_packets b pcap pull c k skb is_ingress s =
      Some (emit_packet c k skb (case i of None \<Rightarrow> None | Some i \<Rightarrow> network_lookup s i) s)"
  then obtain x where x: "capture_packets b pcap pull c k skb is_ingress s = Some (emit_packet c k skb x s)"
    by auto
  obtain es where "tc_skb_events (fst (emit_packet c k skb x s)) = tc_skb_events s @ es" "length es \<le> 1"
    using emit_packet_frame(4) [of c k skb x s] by auto
  then show ?thesis
    using x emit_packet_frame(1-3) [of c k skb x s] by (cases "emit_packet c k skb x s") auto
qed simp

section \<open>What is reported\<close>

text \<open>
  The specification: the key of a packet as a function of its bytes alone, the sample it deserves,
  and the samples it gets. \<open>pull_delivers\<close> is the documented behaviour of \<open>bpf_skb_pull_data\<close>:
  it makes the bytes it is asked for readable when the packet has them.
\<close>

definition packet_key :: "build \<Rightarrow> bytes \<Rightarrow> header_walk" where
  "packet_key b p =
     (if length p < 34 then Stop
      else if take 2 (drop 12 p) = [0x86, 0xDD] then
        (if 14 + sizeof_ipv6hdr b + sizeof_tcphdr b \<le> length p \<and> p ! (14 + ipv6hdr_nexthdr b) \<in> {IPPROTO_TCP, IPPROTO_UDP, IPPROTO_ICMPV6}
         then Attribute (Some (ipv6_id b p)) else Stop)
      else if take 2 (drop 12 p) = [0x08, 0x00] then
        (if 34 + sizeof_tcphdr b \<le> length p \<and> p ! 23 \<in> {IPPROTO_TCP, IPPROTO_UDP, IPPROTO_ICMP}
         then Attribute (Some (ipv4_id p)) else Stop)
      else Attribute None)"

definition packet_sample :: "kernel \<Rightarrow> bytes \<Rightarrow> u32 \<Rightarrow> u32 \<Rightarrow> bytes \<Rightarrow> bytes" where
  "packet_sample k p ifx pid comm =
     le_enc 8 (k_ktime_ns k) @ le_enc 4 pid @ comm @ le_enc 4 (of_nat (length p) :: u32) @ le_enc 4 ifx @ p"

definition packet_report :: "build \<Rightarrow> rodata \<Rightarrow> kernel \<Rightarrow> bytes \<Rightarrow> u32 \<Rightarrow> tc_state \<Rightarrow> bytes list" where
  "packet_report b c k p ifx s =
     (case packet_key b p of
        Stop \<Rightarrow> []
      | Attribute i \<Rightarrow>
          (case Option.bind i (network_lookup s) of
             None \<Rightarrow> [packet_sample k p ifx 0 (replicate TASK_COMM_LEN 0)]
           | Some x \<Rightarrow>
               if wants c (nc_pid x) (nc_uid x) (nc_cgroup_id x)
               then [packet_sample k p ifx (nc_pid x) (nc_comm x)] else []))"

definition pull_delivers :: "pull_data \<Rightarrow> bool" where
  "pull_delivers pull \<longleftrightarrow> (\<forall>skb n. n \<le> length (sb_packet skb) \<longrightarrow> (\<exists>m\<ge>n. pull skb n = Some m))"

definition tc_inv :: "tc_state \<Rightarrow> bool" where
  "tc_inv s \<longleftrightarrow> map_wf network_map_max (tc_network_map s) \<and>
     (\<forall>x \<in> snd ` set (tc_network_map s). length (nc_comm x) = TASK_COMM_LEN)"

lemma skb_revalidate_data_delivers:
  assumes "pull_delivers pull"
  shows "(\<exists>skb'. skb_revalidate_data pull skb n = Some skb') \<longleftrightarrow> n \<le> length (sb_packet skb)"
proof
  assume "\<exists>skb'. skb_revalidate_data pull skb n = Some skb'"
  then obtain skb' where r: "skb_revalidate_data pull skb n = Some skb'" by auto
  then show "n \<le> length (sb_packet skb)"
    using skb_revalidate_data_ok [OF r] sb_linear_le [of skb'] by simp
next
  assume n: "n \<le> length (sb_packet skb)"
  then obtain m where "m \<ge> n" "pull skb n = Some m" using assms by (auto simp: pull_delivers_def)
  with n show "\<exists>skb'. skb_revalidate_data pull skb n = Some skb'"
    by (auto simp: skb_revalidate_data_def Let_def sb_linear_def)
qed

lemma revalidate_case:
  assumes "pull_delivers pull"
  shows "(case skb_revalidate_data pull skb n of None \<Rightarrow> a | Some _ \<Rightarrow> b) =
     (if n \<le> length (sb_packet skb) then b else a)"
  using skb_revalidate_data_delivers [OF assms, of skb n] by (cases "skb_revalidate_data pull skb n") auto

lemma walk_delivers:
  assumes "pull_delivers pull"
  shows "walk_ipv4 b pull skb = Some (if 34 + sizeof_tcphdr b \<le> length (sb_packet skb) \<and>
      sb_packet skb ! 23 \<in> {IPPROTO_TCP, IPPROTO_UDP, IPPROTO_ICMP} then Attribute (Some (ipv4_id (sb_packet skb))) else Stop)"
    and "walk_ipv6 b pull skb = Some (if 14 + sizeof_ipv6hdr b + sizeof_tcphdr b \<le> length (sb_packet skb) \<and>
      sb_packet skb ! (14 + ipv6hdr_nexthdr b) \<in> {IPPROTO_TCP, IPPROTO_UDP, IPPROTO_ICMPV6} then Attribute (Some (ipv6_id b (sb_packet skb))) else Stop)"
proof -
  note r = skb_revalidate_data_delivers [OF assms]
  show "walk_ipv4 b pull skb = Some (if 34 + sizeof_tcphdr b \<le> length (sb_packet skb) \<and>
      sb_packet skb ! 23 \<in> {IPPROTO_TCP, IPPROTO_UDP, IPPROTO_ICMP} then Attribute (Some (ipv4_id (sb_packet skb))) else Stop)"
    using r [of skb 34]
    by (cases "skb_revalidate_data pull skb 34")
      (auto simp: walk_ipv4_eq revalidate_case [OF assms] dest!: skb_revalidate_data_ok(2))
  show "walk_ipv6 b pull skb = Some (if 14 + sizeof_ipv6hdr b + sizeof_tcphdr b \<le> length (sb_packet skb) \<and>
      sb_packet skb ! (14 + ipv6hdr_nexthdr b) \<in> {IPPROTO_TCP, IPPROTO_UDP, IPPROTO_ICMPV6} then Attribute (Some (ipv6_id b (sb_packet skb))) else Stop)"
    using r [of skb "14 + sizeof_ipv6hdr b"]
    by (cases "skb_revalidate_data pull skb (14 + sizeof_ipv6hdr b)")
      (auto simp: walk_ipv6_eq revalidate_case [OF assms] dest!: skb_revalidate_data_ok(2))
qed

text \<open>The flags word asks for the whole packet, as long as its length fits in the 20 bits of the mask.\<close>

lemma bit_less_20: "unat (w :: u32) < 2 ^ 20 \<Longrightarrow> bit w i \<Longrightarrow> i < 20"
  by (metis and_mask_id bit_and_iff bit_mask_iff)

lemma ctx_flags:
  fixes w :: u32
  assumes "unat w < 2 ^ 20"
  defines "flags \<equiv> BPF_F_CURRENT_CPU OR push_bit 32 (ucast w)"
  shows "flags AND NOT (BPF_F_CURRENT_CPU OR BPF_F_CTXLEN_MASK) = 0"
    and "unat (drop_bit 32 (flags AND BPF_F_CTXLEN_MASK)) = unat w"
proof -
  have masks: "BPF_F_CURRENT_CPU = mask 32" "BPF_F_CTXLEN_MASK = push_bit 32 (mask 20)"
    by (simp_all add: BPF_F_CURRENT_CPU_def BPF_F_CTXLEN_MASK_def mask_eq_exp_minus_1)
  note b = bit_less_20 [OF assms(1)]
  show "flags AND NOT (BPF_F_CURRENT_CPU OR BPF_F_CTXLEN_MASK) = 0"
    unfolding flags_def masks by (rule bit_word_eqI) (auto simp: bit_simps dest: b)
  have "drop_bit 32 (flags AND BPF_F_CTXLEN_MASK) = ucast w"
    unfolding flags_def masks by (rule bit_word_eqI) (auto simp: bit_simps dest: b)
  then show "unat (drop_bit 32 (flags AND BPF_F_CTXLEN_MASK)) = unat w"
    by (simp add: unsigned_ucast_eq take_bit_nat_eq_self order_less_le_trans [OF unsigned_less])
qed

lemma unat_skb_len: "length (sb_packet skb) < 2 ^ 20 \<Longrightarrow> unat (skb_len skb) = length (sb_packet skb)"
  by (simp add: skb_len_def unsigned_of_nat take_bit_nat_eq_self)

definition owner_sample :: "rodata \<Rightarrow> kernel \<Rightarrow> bytes \<Rightarrow> u32 \<Rightarrow> net_ctx_t option \<Rightarrow> bytes list" where
  "owner_sample c k p ifx x =
     (case x of
        None \<Rightarrow> [packet_sample k p ifx 0 (replicate TASK_COMM_LEN 0)]
      | Some x \<Rightarrow> if wants c (nc_pid x) (nc_uid x) (nc_cgroup_id x)
          then [packet_sample k p ifx (nc_pid x) (nc_comm x)] else [])"

lemma emit_packet_sample:
  assumes len: "length (sb_packet skb) < 2 ^ 20" and c: "less52 c = 1 \<longrightarrow> target_cgroup_id c = 0"
    and comm: "\<And>y. x = Some y \<Longrightarrow> length (nc_comm y) = TASK_COMM_LEN"
  shows "emit_packet c k skb x s =
    (s\<lparr>tc_skb_events := tc_skb_events s @ owner_sample c k (sb_packet skb) (sb_ifindex skb) x\<rparr>, TC_ACT_OK)"
proof -
  have small: "unat (skb_len skb) < 2 ^ 20" using len by (simp add: unat_skb_len)
  note fl = ctx_flags [OF small] unat_skb_len [OF len]
  have ev: "skb_perf_event_output skb (BPF_F_CURRENT_CPU OR push_bit 32 (ucast (skb_len skb)))
      (take TC_PACKET_MIN_SIZE (skb_event_bytes \<lparr>se_ts = k_ktime_ns k, se_pid = pid, se_comm = cm,
         se_len = skb_len skb, se_ifindex = sb_ifindex skb\<rparr>)) es =
      es @ [packet_sample k (sb_packet skb) (sb_ifindex skb) pid cm]" if "length cm = TASK_COMM_LEN" for pid cm es
    using that unfolding skb_perf_event_output_def Let_def fl
    by (simp add: skb_event_bytes_def TC_PACKET_MIN_SIZE_def packet_sample_def TASK_COMM_LEN_def skb_len_def)
  show ?thesis
  proof (cases x)
    case None
    then show ?thesis by (simp add: emit_packet_def skb_data_event_zero_def ev owner_sample_def)
  next
    case (Some y)
    have w: "filter_rejects_base c (nc_pid y) (nc_uid y) \<or>
        target_cgroup_id c \<noteq> 0 \<and> nc_cgroup_id y \<noteq> target_cgroup_id c \<longleftrightarrow>
        \<not> wants c (nc_pid y) (nc_uid y) (nc_cgroup_id y)"
      using c filter_rejects_base_wants [of c "nc_pid y" "nc_uid y" "nc_cgroup_id y"] by auto
    show ?thesis
      using Some comm [OF Some] w
      by (auto simp: emit_packet_def skb_data_event_zero_def ev owner_sample_def)
  qed
qed

lemma map_lookup_in: "map_lookup m i = Some x \<Longrightarrow> x \<in> snd ` set m"
  by (auto simp: map_lookup_def dest!: map_of_SomeD intro: rev_image_eqI)

lemma network_lookup_comm:
  "tc_inv s \<Longrightarrow> network_lookup s i = Some x \<Longrightarrow> length (nc_comm x) = TASK_COMM_LEN"
  by (auto simp: tc_inv_def network_lookup_def dest!: map_lookup_in split: option.splits)

lemma capture_packets_report:
  assumes "tc_inv s" and "pull_delivers pull" and "34 \<le> sb_linear skb"
    and "less52 c = 1 \<or> filter_pcap_l2 pcap skb 0 (sb_linear skb)"
    and "length (sb_packet skb) < 2 ^ 20" and "less52 c = 1 \<longrightarrow> target_cgroup_id c = 0"
  shows "capture_packets b pcap pull c k skb is_ingress s =
    Some (s\<lparr>tc_skb_events := tc_skb_events s @ packet_report b c k (sb_packet skb) (sb_ifindex skb) s\<rparr>, TC_ACT_OK)"
proof -
  let ?p = "sb_packet skb"
  have len: "34 \<le> length ?p" using assms(3) sb_linear_le [of skb] by simp
  have h: "pkt_field skb 12 = Some (le_word (take 2 (drop 12 ?p)) :: u16)" using assms(3) by (simp add: pkt_field_ok)
  have et: "(le_word (take 2 (drop 12 ?p)) :: u16) = bpf_swab16 ETH_P_IPV6 \<longleftrightarrow> take 2 (drop 12 ?p) = [0x86, 0xDD]"
    "(le_word (take 2 (drop 12 ?p)) :: u16) = bpf_swab16 ETH_P_IP \<longleftrightarrow> take 2 (drop 12 ?p) = [0x08, 0x00]"
    using len ether_types by (simp_all add: le_word_u16_inj)
  have walk: "ether_walk b pull skb (le_word (take 2 (drop 12 ?p))) = Some (packet_key b ?p)"
    using len by (simp add: ether_walk_def et walk_delivers [OF assms(2)] packet_key_def)
  have emit: "emit_packet c k skb (case i of None \<Rightarrow> None | Some i \<Rightarrow> network_lookup s i) s =
      (s\<lparr>tc_skb_events := tc_skb_events s @ owner_sample c k ?p (sb_ifindex skb) (Option.bind i (network_lookup s))\<rparr>, TC_ACT_OK)" for i
    using assms(1,5,6) by (subst emit_packet_sample) (auto intro: network_lookup_comm split: option.splits)
  show ?thesis
    using assms(3,4)
    by (auto simp: capture_packets_walk h walk emit header_sizes packet_report_def owner_sample_def split: header_walk.split)
qed

text \<open>
  C3: On a packet whose first 34 bytes are linear and that the pcap filter accepts, the classifiers
  refine the specification that works on the whole packet: whatever part of the rest is non-linear,
  the run adds exactly the samples of packet_report, provided bpf_skb_pull_data delivers the bytes
  a packet has.
\<close>

theorem capture_packets_refines:
  assumes "tc_inv s" and "pull_delivers pull" and "34 \<le> sb_linear skb"
    and "less52 c = 1 \<or> filter_pcap_l2 pcap skb 0 (sb_linear skb)"
    and "length (sb_packet skb) < 2 ^ 20" and "less52 c = 1 \<longrightarrow> target_cgroup_id c = 0"
  shows "capture_packets b pcap pull c k skb is_ingress s =
    Some (s\<lparr>tc_skb_events := tc_skb_events s @ packet_report b c k (sb_packet skb) (sb_ifindex skb) s\<rparr>, TC_ACT_OK)"
  using assms by (rule capture_packets_report)

section \<open>Which process a packet belongs to\<close>

text \<open>The key of a flow, from the side of its local end point.\<close>

definition flow_net_id :: "u8 \<Rightarrow> flow \<Rightarrow> net_id_t" where
  "flow_net_id proto f =
     (let i = net_id_zero\<lparr>ni_protocol := ucast proto, ni_src_port := ucast (fl_lport f), ni_dst_port := ucast (fl_rport f)\<rparr>
      in if fl_family f = AF_INET6
         then i\<lparr>ni_src_ip6 := ip6_words (le_enc 16 (fl_laddr f)), ni_dst_ip6 := ip6_words (le_enc 16 (fl_raddr f))\<rparr>
         else i\<lparr>ni_src_ip4 := ucast (fl_laddr f), ni_dst_ip4 := ucast (fl_raddr f)\<rparr>)"

text \<open>
  A packet on the wire without IP options or extension headers that travels from the local to the remote end
  and is long enough for the build's \<open>tcphdr\<close>. IPv6 only counts for the CO-RE object: the other one
  reads the next header, the addresses and the ports from the wrong bytes.
\<close>

definition carries :: "build \<Rightarrow> u8 \<Rightarrow> flow \<Rightarrow> bytes \<Rightarrow> bool" where
  "carries b proto f p \<longleftrightarrow>
     fl_family f = AF_INET \<and> 34 + sizeof_tcphdr b \<le> length p \<and> take 2 (drop 12 p) = [0x08, 0x00] \<and> p ! 23 = proto \<and>
       take 4 (drop 26 p) = le_enc 4 (ucast (fl_laddr f) :: u32) \<and>
       take 4 (drop 30 p) = le_enc 4 (ucast (fl_raddr f) :: u32) \<and>
       be16 (take 2 (drop 34 p)) = unat (fl_lport f) \<and> be16 (take 2 (drop 36 p)) = unat (fl_rport f) \<or>
     b = CORE \<and> fl_family f = AF_INET6 \<and> 74 \<le> length p \<and> take 2 (drop 12 p) = [0x86, 0xDD] \<and> p ! 20 = proto \<and>
       take 16 (drop 22 p) = le_enc 16 (fl_laddr f) \<and> take 16 (drop 38 p) = le_enc 16 (fl_raddr f) \<and>
       be16 (take 2 (drop 54 p)) = unat (fl_lport f) \<and> be16 (take 2 (drop 56 p)) = unat (fl_rport f)"

lemma flow_net_id_mirror: "flow_net_id proto (mirror f) = net_id_swap (flow_net_id proto f)"
  by (simp add: flow_net_id_def mirror_def net_id_swap_def net_id_zero_def Let_def)

lemma carries_key:
  assumes "carries b proto f p" and "proto \<in> {IPPROTO_TCP, IPPROTO_UDP}"
  shows "packet_key b p = Attribute (Some (flow_net_id proto f))"
proof (cases "fl_family f = AF_INET")
  case True
  then have p: "34 + sizeof_tcphdr b \<le> length p" "take 2 (drop 12 p) = [0x08, 0x00]" "p ! 23 = proto"
      "take 4 (drop 26 p) = le_enc 4 (ucast (fl_laddr f) :: u32)" "take 4 (drop 30 p) = le_enc 4 (ucast (fl_raddr f) :: u32)"
      "be16 (take 2 (drop 34 p)) = unat (fl_lport f)" "be16 (take 2 (drop 36 p)) = unat (fl_rport f)"
    using assms(1) by (simp_all add: carries_def AF_INET_def AF_INET6_def)
  then have "packet_key b p = Attribute (Some (ipv4_id p))" using assms(2) by (auto simp: packet_key_def)
  with p True show ?thesis by (simp add: ipv4_id_def flow_net_id_def AF_INET_def AF_INET6_def Let_def)
next
  case False
  then have p: "b = CORE" "fl_family f = AF_INET6" "74 \<le> length p" "take 2 (drop 12 p) = [0x86, 0xDD]" "p ! 20 = proto"
      "take 16 (drop 22 p) = le_enc 16 (fl_laddr f)" "take 16 (drop 38 p) = le_enc 16 (fl_raddr f)"
      "be16 (take 2 (drop 54 p)) = unat (fl_lport f)" "be16 (take 2 (drop 56 p)) = unat (fl_rport f)"
    using assms(1) by (simp_all add: carries_def)
  then have "packet_key b p = Attribute (Some (ipv6_id CORE p))" using assms(2) by (auto simp: packet_key_def build_headers)
  with p show ?thesis by (simp add: ipv6_id_def flow_net_id_def Let_def build_headers)
qed

lemma ucast_u128_u32: "(ucast (ucast (a :: u32) :: u128) :: u32) = a"
  by (rule bit_word_eqI) (auto simp: bit_simps)

lemma sendmsg_conn_id_holds:
  assumes "sock_holds l (k_any k) sk f"
  shows "sendmsg_conn_id l k sk (ucast proto) = flow_net_id proto f"
proof -
  have fam: "probe_any_word k (u :: u16) (sk + SKC_FAMILY l) = (0, fl_family f)" for u
    using assms by (simp add: sock_holds_def probe_any_word_ok)
  have "read_mem (k_any k) (2 + 2) (sk + SKC_PORTPAIR l) =
      Some (le_enc 2 (builtin_bswap16 (fl_rport f)) @ le_enc 2 (fl_lport f))"
    using assms by (simp add: sock_holds_def)
  note pp = read_mem_split [OF this]
  have ports: "probe_any_word k (u :: u16) (sk + SKC_PORTPAIR l) = (0, builtin_bswap16 (fl_rport f))"
    "probe_any_word k (u :: u16) (sk + SKC_PORTPAIR l + 2) = (0, fl_lport f)" for u
    using pp by (simp_all add: probe_any_word_ok)
  consider (v4) la ra :: u32 where "fl_family f = AF_INET" "fl_laddr f = ucast la" "fl_raddr f = ucast ra"
      "read_mem (k_any k) (4 + 4) (sk + SKC_ADDRPAIR l) = Some (le_enc 4 ra @ le_enc 4 la)"
    | (v6) "fl_family f = AF_INET6" "read_mem (k_any k) 16 (sk + SKC_V6_RCV_SADDR l) = Some (le_enc 16 (fl_laddr f))"
      "read_mem (k_any k) 16 (sk + SKC_V6_DADDR l) = Some (le_enc 16 (fl_raddr f))"
    using assms by (auto simp: sock_holds_def)
  then show ?thesis
  proof cases
    case v4
    have "probe_any_word k (u :: u32) (sk + SKC_ADDRPAIR l) = (0, ra)"
      "probe_any_word k (u :: u32) (sk + SKC_ADDRPAIR l + 4) = (0, la)" for u
      using read_mem_split [OF v4(4)] by (simp_all add: probe_any_word_ok)
    with v4 show ?thesis
      by (simp add: sendmsg_conn_id_def fam ports flow_net_id_def Let_def AF_INET_def AF_INET6_def
          bpf_ntohs_def builtin_bswap16_invol ucast_u128_u32)
  next
    case v6
    then show ?thesis
      by (simp add: sendmsg_conn_id_def fam ports flow_net_id_def Let_def bpf_ntohs_def builtin_bswap16_invol
          probe_read_any_def probe_read_def uninit_bytes_def)
  qed
qed

section \<open>The object as a whole\<close>

text \<open>
  Runs of the four programs in any order. The task name the kernel hands out has 16 bytes, and no
  packet is longer than the 20 bits of the context length can say (GSO limits it to half of that).
\<close>

datatype tc_op = Sendmsg kernel pt_regs u8 | Classify kernel sk_buff bool

fun op_key :: "sock_layout \<Rightarrow> tc_op \<Rightarrow> net_id_t option" where
  "op_key l (Sendmsg k ctx proto) =
     (if PT_REGS_PARM1 ctx = 0 then None else Some (sendmsg_conn_id l k (PT_REGS_PARM1 ctx) (ucast proto)))"
| "op_key l (Classify k skb is_ingress) = None"

inductive tc_step ::
    "build \<Rightarrow> sock_layout \<Rightarrow> pcap_filter \<Rightarrow> pull_data \<Rightarrow> rodata \<Rightarrow> tc_op \<Rightarrow> tc_state \<Rightarrow> tc_state \<Rightarrow> bool"
  for b l pcap pull c where
  tc_tcp: "length (k_comm k) = TASK_COMM_LEN \<Longrightarrow>
    tc_step b l pcap pull c (Sendmsg k ctx IPPROTO_TCP) s (fst (tcp_sendmsg l k ctx s))"
| tc_udp: "length (k_comm k) = TASK_COMM_LEN \<Longrightarrow>
    tc_step b l pcap pull c (Sendmsg k ctx IPPROTO_UDP) s (fst (udp_sendmsg l k ctx s))"
| tc_egress: "length (sb_packet skb) < 2 ^ 20 \<Longrightarrow> egress_cls_func b pcap pull c k skb s = Some (t, r) \<Longrightarrow>
    tc_step b l pcap pull c (Classify k skb False) s t"
| tc_ingress: "length (sb_packet skb) < 2 ^ 20 \<Longrightarrow> ingress_cls_func b pcap pull c k skb s = Some (t, r) \<Longrightarrow>
    tc_step b l pcap pull c (Classify k skb True) s t"

inductive_cases tc_stepE [elim]: "tc_step b l pcap pull c op s t"

lemma capture_packets_map: "capture_packets b pcap pull c k skb d s = Some (t, r) \<Longrightarrow> tc_network_map t = tc_network_map s"
  using capture_packets_cases [of b pcap pull c k skb d s] by (metis emit_packet_frame(2) fst_conv option.inject)

lemma trace_sendmsg_map:
  "tc_network_map (fst (trace_sendmsg l k ctx proto s)) =
     (if PT_REGS_PARM1 ctx = 0 then tc_network_map s
      else lru_update network_map_max (k_victim k) (sendmsg_conn_id l k (PT_REGS_PARM1 ctx) proto)
        \<lparr>nc_pid = cur_pid k, nc_uid = cur_uid k, nc_cgroup_id = k_cgroup_id k, nc_comm = k_comm k\<rparr> (tc_network_map s))"
  by (simp add: trace_sendmsg_def Let_def cur_pid_def cur_uid_def)

lemma set_alist_update: "set (AList.update x v m) \<subseteq> insert (x, v) (set m)"
  by (induction m) auto

lemma set_lru_update: "set (lru_update n i x v m) \<subseteq> insert (x, v) (set m)"
  using set_alist_update [of x v m] set_alist_update [of x v "lru_evict i m"] lru_evict_subset [of i m]
  by (auto simp: lru_update_def)

lemma tc_inv_record:
  assumes "tc_inv s" and "length (nc_comm x) = TASK_COMM_LEN"
    and "tc_network_map t = lru_update network_map_max v i x (tc_network_map s)"
  shows "tc_inv t"
  using assms set_lru_update [of network_map_max v i x "tc_network_map s"]
  by (fastforce simp: tc_inv_def network_map_max_def)

text \<open>A step either leaves the map alone or records the sender of its own key.\<close>

lemma tc_step_map:
  assumes "tc_step b l pcap pull c op s t"
  shows "tc_network_map t = tc_network_map s \<or>
    (\<exists>k i. op_key l op = Some i \<and> length (k_comm k) = TASK_COMM_LEN \<and>
       tc_network_map t = lru_update network_map_max (k_victim k) i
         \<lparr>nc_pid = cur_pid k, nc_uid = cur_uid k, nc_cgroup_id = k_cgroup_id k, nc_comm = k_comm k\<rparr> (tc_network_map s))"
  using assms
proof (cases rule: tc_step.cases)
  case (tc_tcp k ctx)
  then show ?thesis by (auto simp: tcp_sendmsg_def trace_sendmsg_map)
next
  case (tc_udp k ctx)
  then show ?thesis by (auto simp: udp_sendmsg_def trace_sendmsg_map)
next
  case (tc_egress skb k r)
  then show ?thesis by (auto simp: egress_cls_func_def dest: capture_packets_map)
next
  case (tc_ingress skb k r)
  then show ?thesis by (auto simp: ingress_cls_func_def dest: capture_packets_map)
qed

lemma tc_step_inv: "tc_step b l pcap pull c op s t \<Longrightarrow> tc_inv s \<Longrightarrow> tc_inv t"
proof -
  assume "tc_step b l pcap pull c op s t" and inv: "tc_inv s"
  from tc_step_map [OF this(1)] show "tc_inv t"
  proof (elim disjE exE conjE)
    show ?thesis if "length (k_comm k) = TASK_COMM_LEN" and "tc_network_map t = lru_update network_map_max (k_victim k) i
      \<lparr>nc_pid = cur_pid k, nc_uid = cur_uid k, nc_cgroup_id = k_cgroup_id k, nc_comm = k_comm k\<rparr> (tc_network_map s)" for k i
      using that(1) by (intro tc_inv_record [OF inv _ that(2)]) simp
  qed (use inv in \<open>simp add: tc_inv_def\<close>)
qed

lemma tc_step_lossy:
  assumes "tc_step b l pcap pull c op s t" and "tc_inv s" and "op_key l op \<noteq> i"
  shows "Option.bind i (map_lookup (tc_network_map t)) = None \<or>
     Option.bind i (map_lookup (tc_network_map t)) = Option.bind i (map_lookup (tc_network_map s))"
proof (cases i)
  case (Some y)
  have "distinct (map fst (tc_network_map s))" using assms(2) by (simp add: tc_inv_def map_wf_def)
  from map_lookup_lru_update_other [OF this, of y] show ?thesis
    using tc_step_map [OF assms(1)] assms(3) Some by fastforce
qed simp

interpretation tc: task_lossy "tc_step b l pcap pull c" "op_key l"
    "\<lambda>s i. Option.bind i (map_lookup (tc_network_map s))" tc_inv for b l pcap pull c
  by unfold_locales (rule tc_step_inv, assumption+, rule tc_step_lossy)

section \<open>From the socket to user space\<close>

text \<open>What the decoder makes of a sample, with the padding the perf buffer may add.\<close>

lemma PacketEvent_decode_sample:
  assumes "length comm = TASK_COMM_LEN" and "length p < 2 ^ 20"
  shows "PacketEvent_DecodeFromBytes e (packet_sample k p ifx pid comm @ pad) =
    Inr (e\<lparr>Timestamp := k_ktime_ns k, Pid := pid, Comm := comm, Cmdline := (Cmdline e)[0 := 91],
      PacketLen := of_nat (length p), InterfaceIndex := ifx, PacketData := p\<rparr>)"
proof -
  have "unat (of_nat (length p) :: u32) = length p" using assms(2) by (simp add: unsigned_of_nat take_bit_nat_eq_self)
  then show ?thesis
    using assms(1) by (simp add: PacketEvent_DecodeFromBytes_def packet_sample_def binary_read_append TASK_COMM_LEN_def)
qed

text \<open>The record a sender leaves, after any activity of other sockets.\<close>

lemma sendmsg_recorded:
  assumes "tc_inv s" and "length (k_comm k) = TASK_COMM_LEN" and "PT_REGS_PARM1 ctx \<noteq> 0"
    and "sock_holds l (k_any k) (PT_REGS_PARM1 ctx) f"
    and "others (tc_step b l pcap pull c) (op_key l) (Some (flow_net_id proto f))
      (fst (trace_sendmsg l k ctx (ucast proto) s)) t"
  shows "tc_inv t" and "map_lookup (tc_network_map t) (flow_net_id proto f) \<in>
    {None, Some \<lparr>nc_pid = cur_pid k, nc_uid = cur_uid k, nc_cgroup_id = k_cgroup_id k, nc_comm = k_comm k\<rparr>}"
proof -
  let ?s = "fst (trace_sendmsg l k ctx (ucast proto) s)"
  let ?x = "\<lparr>nc_pid = cur_pid k, nc_uid = cur_uid k, nc_cgroup_id = k_cgroup_id k, nc_comm = k_comm k\<rparr>"
  have m: "tc_network_map ?s = lru_update network_map_max (k_victim k) (flow_net_id proto f) ?x (tc_network_map s)"
    using assms(3) by (simp add: trace_sendmsg_map sendmsg_conn_id_holds [OF assms(4)])
  have inv: "tc_inv ?s" using assms(2) by (intro tc_inv_record [OF assms(1) _ m]) simp
  show "tc_inv t" by (rule tc.others_invar [OF assms(5) inv])
  show "map_lookup (tc_network_map t) (flow_net_id proto f) \<in> {None, Some ?x}"
    using tc.others_lossy [OF assms(5) inv] m by auto
qed

text \<open>
  C1: Once a process has sent on a connected TCP or UDP socket, and whatever other sockets and
  packets did since, the packets of the connection are attributed to it, in both directions. This holds for a
  packet without IP options or extension headers that is long enough for the walk (34 bytes and the build's
  \<open>tcphdr\<close> over IPv4, that is 54 with CO-RE and 38 without; 74 over IPv6, where only the CO-RE object reads the right
  bytes), whose first 34 bytes are linear and which the pcap filter accepts. Unless the socket's record was evicted
  from the LRU map (or, for a packet from the peer, the peer's socket is recorded on this host too), the
  classifier adds exactly one sample for it, and user space decodes it to the sender's pid and comm, the
  interface and the complete packet, if the process passes the filter that was recorded with it.
\<close>

theorem sendmsg_attributes_packets:
  assumes "tc_inv s" and "length (k_comm k) = TASK_COMM_LEN" and "PT_REGS_PARM1 ctx \<noteq> 0"
    and "sock_holds l (k_any k) (PT_REGS_PARM1 ctx) f"
    and "send = tcp_sendmsg \<and> proto = IPPROTO_TCP \<or> send = udp_sendmsg \<and> proto = IPPROTO_UDP"
    and "others (tc_step b l pcap pull c) (op_key l) (Some (flow_net_id proto f)) (fst (send l k ctx s)) t"
    and "map_lookup (tc_network_map t) (flow_net_id proto f) \<noteq> None"
    and "carries b proto g (sb_packet skb)"
    and "g = f \<or> g = mirror f \<and> map_lookup (tc_network_map t) (flow_net_id proto (mirror f)) = None"
    and "pull_delivers pull" and "34 \<le> sb_linear skb"
    and "less52 c = 1 \<or> filter_pcap_l2 pcap skb 0 (sb_linear skb)"
    and "length (sb_packet skb) < 2 ^ 20" and "less52 c = 1 \<longrightarrow> target_cgroup_id c = 0"
    and "wants c (cur_pid k) (cur_uid k) (k_cgroup_id k)"
  shows "\<exists>smp. capture_packets b pcap pull c k2 skb is_ingress t =
      Some (t\<lparr>tc_skb_events := tc_skb_events t @ [smp]\<rparr>, TC_ACT_OK) \<and>
    (\<forall>e pad. PacketEvent_DecodeFromBytes e (smp @ pad) =
      Inr (e\<lparr>Timestamp := k_ktime_ns k2, Pid := cur_pid k, Comm := k_comm k, Cmdline := (Cmdline e)[0 := 91],
        PacketLen := of_nat (length (sb_packet skb)), InterfaceIndex := sb_ifindex skb,
        PacketData := sb_packet skb\<rparr>))"
proof -
  let ?x = "\<lparr>nc_pid = cur_pid k, nc_uid = cur_uid k, nc_cgroup_id = k_cgroup_id k, nc_comm = k_comm k\<rparr>"
  have "others (tc_step b l pcap pull c) (op_key l) (Some (flow_net_id proto f))
      (fst (trace_sendmsg l k ctx (ucast proto) s)) t"
    using assms(5,6) by (auto simp: tcp_sendmsg_def udp_sendmsg_def)
  note rec = sendmsg_recorded [OF assms(1-4) this]
  have x: "map_lookup (tc_network_map t) (flow_net_id proto f) = Some ?x" using rec(2) assms(7) by auto
  have "network_lookup t (flow_net_id proto g) = Some ?x"
    using assms(9) x by (auto simp: network_lookup_def flow_net_id_mirror net_id_swap_def)
  moreover have "packet_key b (sb_packet skb) = Attribute (Some (flow_net_id proto g))"
    using assms(5) by (intro carries_key [OF assms(8)]) auto
  ultimately have "packet_report b c k2 (sb_packet skb) (sb_ifindex skb) t =
      [packet_sample k2 (sb_packet skb) (sb_ifindex skb) (cur_pid k) (k_comm k)]"
    using assms(15) by (simp add: packet_report_def)
  then show ?thesis
    using capture_packets_report [OF rec(1) assms(10-14)] PacketEvent_decode_sample [OF assms(2,13)] by auto
qed

section \<open>Invariant\<close>

definition PacketEvent_zero :: PacketEvent where
  "PacketEvent_zero = \<lparr>Timestamp = 0, Pid = 0, Comm = replicate TASK_COMM_LEN 0, Cmdline = replicate 256 0,
     PacketLen = 0, InterfaceIndex = 0, PacketData = []\<rparr>"

text \<open>A sample is decoded to a complete packet that is unattributed or of a process the pid filter wants.\<close>

definition sample_ok :: "rodata \<Rightarrow> bytes \<Rightarrow> bool" where
  "sample_ok c smp \<longleftrightarrow> (\<exists>e. PacketEvent_DecodeFromBytes PacketEvent_zero smp = Inr e \<and>
     length (PacketData e) = unat (PacketLen e) \<and> 34 \<le> length (PacketData e) \<and> length (Comm e) = TASK_COMM_LEN \<and>
     (Pid e = 0 \<and> Comm e = replicate TASK_COMM_LEN 0 \<or> pid_wanted c (Pid e)))"

inductive tc_reachable :: "build \<Rightarrow> sock_layout \<Rightarrow> pcap_filter \<Rightarrow> pull_data \<Rightarrow> rodata \<Rightarrow> tc_state \<Rightarrow> bool"
  for b l pcap pull c where
  tc_start: "tc_reachable b l pcap pull c tc_init"
| tc_more: "tc_reachable b l pcap pull c s \<Longrightarrow> tc_step b l pcap pull c op s t \<Longrightarrow> tc_reachable b l pcap pull c t"

lemma owner_sample_ok:
  assumes "smp \<in> set (owner_sample c k p ifx x)" and "\<And>y. x = Some y \<Longrightarrow> length (nc_comm y) = TASK_COMM_LEN"
    and "34 \<le> length p" and "length p < 2 ^ 20"
  shows "sample_ok c smp"
proof -
  have len: "unat (of_nat (length p) :: u32) = length p" using assms(4) by (simp add: unsigned_of_nat take_bit_nat_eq_self)
  have dec: "PacketEvent_DecodeFromBytes PacketEvent_zero (packet_sample k p ifx pid comm) =
      Inr (PacketEvent_zero\<lparr>Timestamp := k_ktime_ns k, Pid := pid, Comm := comm,
        Cmdline := (Cmdline PacketEvent_zero)[0 := 91], PacketLen := of_nat (length p), InterfaceIndex := ifx,
        PacketData := p\<rparr>)" if "length comm = TASK_COMM_LEN" for pid comm
    using PacketEvent_decode_sample [OF that assms(4), of _ k ifx pid "[]"] by simp
  show ?thesis
    using assms(1-3) by (auto simp: owner_sample_def sample_ok_def dec len wants_pid split: option.splits if_splits)
qed

lemma capture_packets_events:
  assumes "capture_packets b pcap pull c k skb d s = Some (t, r)" and "tc_inv s"
    and "length (sb_packet skb) < 2 ^ 20" and "less52 c = 1 \<longrightarrow> target_cgroup_id c = 0"
    and "smp \<in> set (tc_skb_events t)"
  shows "smp \<in> set (tc_skb_events s) \<or> sample_ok c smp"
proof (cases "34 \<le> sb_linear skb")
  case True
  then have len: "34 \<le> length (sb_packet skb)" using sb_linear_le [of skb] by simp
  have emit: "emit_packet c k skb (case i of None \<Rightarrow> None | Some i \<Rightarrow> network_lookup s i) s =
      (s\<lparr>tc_skb_events := tc_skb_events s @ owner_sample c k (sb_packet skb) (sb_ifindex skb)
         (case i of None \<Rightarrow> None | Some i \<Rightarrow> network_lookup s i)\<rparr>, TC_ACT_OK)" for i
    using assms(2-4) by (intro emit_packet_sample) (auto intro: network_lookup_comm split: option.splits)
  have ok: "sample_ok c smp" if "smp \<in> set (owner_sample c k (sb_packet skb) (sb_ifindex skb)
      (case i of None \<Rightarrow> None | Some i \<Rightarrow> network_lookup s i))" for i
    using network_lookup_comm [OF assms(2)] by (intro owner_sample_ok [OF that _ len assms(3)]) (auto split: option.splits)
  show ?thesis
    using capture_packets_cases [of b pcap pull c k skb d s] assms(1,5)
    by (auto simp: emit dest: ok)
next
  case False
  then show ?thesis using assms by (auto simp: capture_packets_walk header_sizes)
qed

lemma tc_step_events:
  assumes "tc_step b l pcap pull c op s t" and "tc_inv s" and "less52 c = 1 \<longrightarrow> target_cgroup_id c = 0"
    and "smp \<in> set (tc_skb_events t)"
  shows "smp \<in> set (tc_skb_events s) \<or> sample_ok c smp"
  using assms
  by (cases rule: tc_step.cases) (auto simp: tcp_sendmsg_def udp_sendmsg_def trace_sendmsg_def Let_def
      egress_cls_func_def ingress_cls_func_def dest: capture_packets_events split: if_splits)

lemma tc_inv_init: "tc_inv tc_init"
  by (simp add: tc_inv_def tc_init_def)

lemma tc_reachable_inv: "tc_reachable b l pcap pull c s \<Longrightarrow> tc_inv s"
  by (induction rule: tc_reachable.induct) (auto intro: tc_step_inv simp: tc_inv_init)

text \<open>
  C26: In every state the four programs can reach, the socket map holds at most 10240 records with
  16-byte names, and every sample user space will receive decodes to a complete packet of at least
  34 bytes that carries either no process at all or a process that the pid filter wants.
\<close>

theorem tc_reachable_invariant:
  assumes "tc_reachable b l pcap pull c s" and "less52 c = 1 \<longrightarrow> target_cgroup_id c = 0"
  shows "tc_inv s \<and> (\<forall>smp \<in> set (tc_skb_events s). sample_ok c smp)"
  using assms(1)
proof (induction rule: tc_reachable.induct)
  case tc_start
  then show ?case using tc_reachable_inv [OF tc_reachable.tc_start] by (simp add: tc_init_def)
next
  case (tc_more s op t)
  then show ?case using tc_reachable_inv [OF tc_reachable.tc_more] tc_step_events [OF _ _ assms(2)] by blast
qed

text \<open>
  The walk demands a whole \<open>tcphdr\<close> of the build behind the IP header, also for UDP and ICMP.
\<close>

lemma revalidate_beyond:
  assumes "length (sb_packet skb) < n"
  shows "skb_revalidate_data pull skb n = None"
proof (rule ccontr)
  assume "skb_revalidate_data pull skb n \<noteq> None"
  then obtain skb' where "skb_revalidate_data pull skb n = Some skb'" by auto
  from skb_revalidate_data_ok [OF this] show False using sb_linear_le [of skb'] assms by simp
qed

lemma ether_field:
  assumes "34 \<le> sb_linear skb"
  shows "take 2 (drop 12 (sb_packet skb)) = [0x08, 0x00] \<Longrightarrow> (pkt_field skb 12 :: u16 option) = Some (bpf_swab16 ETH_P_IP)"
    and "take 2 (drop 12 (sb_packet skb)) = [0x86, 0xDD] \<Longrightarrow> (pkt_field skb 12 :: u16 option) = Some (bpf_swab16 ETH_P_IPV6)"
    and "bpf_swab16 ETH_P_IP \<noteq> bpf_swab16 ETH_P_IPV6"
  using assms by (simp_all add: pkt_field_ok ether_types le_word_u16_inj)

lemma short_ipv4_stops:
  assumes "take 2 (drop 12 (sb_packet skb)) = [0x08, 0x00]" and "length (sb_packet skb) < 34 + sizeof_tcphdr b"
  shows "capture_packets b pcap pull c k skb is_ingress s = Some (s, TC_ACT_OK)"
proof (cases "34 \<le> sb_linear skb")
  case True
  have "walk_ipv4 b pull skb = Some Stop"
    using skb_revalidate_data_ok(2) [of pull skb 34] revalidate_beyond assms(2)
    by (auto simp: walk_ipv4_eq split: option.split)
  with ether_field [OF True] assms(1) show ?thesis by (simp add: capture_packets_walk ether_walk_def)
qed (simp add: capture_packets_walk header_sizes)

lemma nocore_ipv6_stops:
  assumes "take 2 (drop 12 (sb_packet skb)) = [0x86, 0xDD]" and "sb_packet skb ! 21 \<notin> {IPPROTO_TCP, IPPROTO_UDP, IPPROTO_ICMPV6}"
  shows "capture_packets NOCORE pcap pull c k skb is_ingress s = Some (s, TC_ACT_OK)"
proof (cases "34 \<le> sb_linear skb")
  case True
  have "walk_ipv6 NOCORE pull skb = Some Stop"
    using assms(2) by (auto simp: walk_ipv6_eq ipv6hdr_nexthdr_def split: option.split)
  with ether_field [OF True] assms(1) show ?thesis by (simp add: capture_packets_walk ether_walk_def)
qed (simp add: capture_packets_walk header_sizes)

text \<open>
  C32: The two objects of the build report different packets, because their \<open>struct tcphdr\<close> differ. The CO-RE object
  never reports an IPv4 frame of fewer than 54 bytes, although a UDP header ends at byte 42 (so no datagram
  with up to 11 bytes of payload is reported); the object built without CO-RE reports a frame from 38 bytes on
  like any other: once, unattributed or with a wanted process.
\<close>

theorem short_ipv4_by_build:
  assumes "take 2 (drop 12 (sb_packet skb)) = [0x08, 0x00]" and "38 \<le> length (sb_packet skb)" and "length (sb_packet skb) < 54"
    and "sb_packet skb ! 23 \<in> {IPPROTO_TCP, IPPROTO_UDP, IPPROTO_ICMP}"
    and "tc_inv s" and "pull_delivers pull" and "34 \<le> sb_linear skb"
    and "less52 c = 1 \<or> filter_pcap_l2 pcap skb 0 (sb_linear skb)" and "less52 c = 1 \<longrightarrow> target_cgroup_id c = 0"
  shows "capture_packets CORE pcap pull c k skb is_ingress s = Some (s, TC_ACT_OK) \<and>
    capture_packets NOCORE pcap pull c k skb is_ingress s =
      Some (s\<lparr>tc_skb_events := tc_skb_events s @
        owner_sample c k (sb_packet skb) (sb_ifindex skb) (network_lookup s (ipv4_id (sb_packet skb)))\<rparr>, TC_ACT_OK)"
proof
  show "capture_packets CORE pcap pull c k skb is_ingress s = Some (s, TC_ACT_OK)"
    using assms(1,3) by (intro short_ipv4_stops) (simp_all add: sizeof_tcphdr_def)
  have "packet_key NOCORE (sb_packet skb) = Attribute (Some (ipv4_id (sb_packet skb)))"
    using assms(1,2,4) by (simp add: packet_key_def sizeof_tcphdr_def)
  then have "packet_report NOCORE c k (sb_packet skb) (sb_ifindex skb) s =
      owner_sample c k (sb_packet skb) (sb_ifindex skb) (network_lookup s (ipv4_id (sb_packet skb)))"
    by (simp add: packet_report_def owner_sample_def)
  with capture_packets_report [OF assms(5-8) _ assms(9), of NOCORE k is_ingress] assms(3)
  show "capture_packets NOCORE pcap pull c k skb is_ingress s =
      Some (s\<lparr>tc_skb_events := tc_skb_events s @
        owner_sample c k (sb_packet skb) (sb_ifindex skb) (network_lookup s (ipv4_id (sb_packet skb)))\<rparr>, TC_ACT_OK)"
    by simp
qed

text \<open>
  C33: The object built without CO-RE takes the hop limit of an IPv6 packet for its next header. A TCP or UDP
  packet of at least 74 bytes that the CO-RE object reports with its own connection is not reported by the other
  object at all, whatever bpf_skb_pull_data does, unless its hop limit happens to be 6, 17 or 58.
\<close>

theorem nocore_ipv6_not_reported:
  assumes "fl_family g = AF_INET6" and "carries CORE proto g (sb_packet skb)" and "proto \<in> {IPPROTO_TCP, IPPROTO_UDP}"
    and "sb_packet skb ! 21 \<notin> {6, 17, 58}"
    and "tc_inv s" and "pull_delivers pull" and "34 \<le> sb_linear skb"
    and "less52 c = 1 \<or> filter_pcap_l2 pcap skb 0 (sb_linear skb)" and "length (sb_packet skb) < 2 ^ 20"
    and "less52 c = 1 \<longrightarrow> target_cgroup_id c = 0"
  shows "capture_packets CORE pcap pull c k skb is_ingress s =
      Some (s\<lparr>tc_skb_events := tc_skb_events s @
        owner_sample c k (sb_packet skb) (sb_ifindex skb) (network_lookup s (flow_net_id proto g))\<rparr>, TC_ACT_OK) \<and>
    capture_packets NOCORE pcap pull' c k skb is_ingress s = Some (s, TC_ACT_OK)"
proof
  have "packet_report CORE c k (sb_packet skb) (sb_ifindex skb) s =
      owner_sample c k (sb_packet skb) (sb_ifindex skb) (network_lookup s (flow_net_id proto g))"
    using carries_key [OF assms(2,3)] by (simp add: packet_report_def owner_sample_def)
  with capture_packets_report [OF assms(5-10), of CORE k is_ingress]
  show "capture_packets CORE pcap pull c k skb is_ingress s =
      Some (s\<lparr>tc_skb_events := tc_skb_events s @
        owner_sample c k (sb_packet skb) (sb_ifindex skb) (network_lookup s (flow_net_id proto g))\<rparr>, TC_ACT_OK)"
    by simp
  show "capture_packets NOCORE pcap pull' c k skb is_ingress s = Some (s, TC_ACT_OK)"
    using assms(1,2,4) by (intro nocore_ipv6_stops)
      (auto simp: carries_def AF_INET_def AF_INET6_def IPPROTO_TCP_def IPPROTO_UDP_def IPPROTO_ICMPV6_def)
qed

section \<open>Sample inputs\<close>

text \<open>
  A TCP segment of the sample connection (127.0.0.2:50000 to 127.0.0.1:443), only its first 34
  bytes linear; a UDP datagram with five bytes of payload; process 100 as the only wanted one.
\<close>

definition sample_packet :: bytes where
  "sample_packet = replicate 12 0 @ [0x08, 0x00] @ replicate 9 0 @ [6] @ replicate 2 0 @
     [127, 0, 0, 2] @ [127, 0, 0, 1] @ [0xC3, 0x50] @ [0x01, 0xBB] @ replicate 16 0"

definition sample_skb :: sk_buff where
  "sample_skb = \<lparr>sb_head = take 34 sample_packet, sb_frags = drop 34 sample_packet, sb_ifindex = 2\<rparr>"

definition sample_udp :: sk_buff where
  "sample_udp = \<lparr>sb_head = replicate 12 0 @ [0x08, 0x00] @ replicate 9 0 @ [17] @ replicate 23 0, sb_frags = [],
     sb_ifindex = 2\<rparr>"

definition rodata_pid100 :: rodata where
  "rodata_pid100 = rodata_default\<lparr>less52 := 0, target_pid := 100\<rparr>"

abbreviation pull_exact :: pull_data where
  "pull_exact \<equiv> \<lambda>skb n. Some n"

abbreviation sample_sender :: kernel where
  "sample_sender \<equiv> kernel0\<lparr>k_any := sample_kern\<rparr>"

abbreviation sample_sent :: tc_state where
  "sample_sent \<equiv> fst (tcp_sendmsg vmlinux_layout sample_sender (X86 (regs0\<lparr>x_di := 8192\<rparr>)) tc_init)"

lemma pull_exact_delivers: "pull_delivers pull_exact"
  by (simp add: pull_delivers_def)

lemma sample_skb_packet: "sb_packet sample_skb = sample_packet" "sb_linear sample_skb = 34" "sb_ifindex sample_skb = 2"
    "length sample_packet = 54"
  by (simp_all add: sample_skb_def sb_packet_def sb_linear_def sample_packet_def)

lemma sample_pcap: "filter_pcap_l2 filter_pcap_ebpf_l2 sample_skb 0 34"
  by (simp add: filter_pcap_l2_def filter_pcap_ebpf_l2_def)

lemma sample_packet_carries: "carries CORE IPPROTO_TCP sample_flow sample_packet"
proof -
  have "take 4 (drop 26 sample_packet) = [127, 0, 0, 2]" "take 4 (drop 30 sample_packet) = [127, 0, 0, 1]"
    "take 2 (drop 12 sample_packet) = [0x08, 0x00]" "take 2 (drop 34 sample_packet) = [0xC3, 0x50]"
    "take 2 (drop 36 sample_packet) = [0x01, 0xBB]" "sample_packet ! 23 = 6"
    by (simp_all add: sample_packet_def nth_append)
  moreover have "le_enc 4 (0x0200007f :: u32) = [127, 0, 0, 2]" "le_enc 4 (0x0100007f :: u32) = [127, 0, 0, 1]"
    by (simp_all add: le_enc_def le_enc_nat_numeral)
  ultimately show ?thesis
    using sample_skb_packet(4)
    by (simp add: carries_def sample_flow_def be16_def IPPROTO_TCP_def sizeof_tcphdr_def)
qed

lemma sample_recorded:
  "map_lookup (tc_network_map sample_sent) (flow_net_id IPPROTO_TCP sample_flow) =
     Some \<lparr>nc_pid = 100, nc_uid = 1000, nc_cgroup_id = 7, nc_comm = replicate 16 0\<rparr>"
proof -
  have "sock_holds vmlinux_layout (k_any sample_sender) 8192 sample_flow" using sample_kern_holds by simp
  from sendmsg_conn_id_holds [OF this, of IPPROTO_TCP] show ?thesis
    by (simp add: tcp_sendmsg_def trace_sendmsg_map cur_pid_def cur_uid_def)
qed

lemma rodata_pid100_wants: "wants rodata_pid100 100 uid cgroup" "less52 rodata_pid100 = 0"
  by (simp_all add: wants_def rodata_pid100_def rodata_default_def)

theorem capture_packets_refines_witness:
  "capture_packets CORE filter_pcap_ebpf_l2 pull_exact rodata_pid100 kernel0 sample_skb False tc_init =
     Some (tc_init\<lparr>tc_skb_events := tc_skb_events tc_init @
       packet_report CORE rodata_pid100 kernel0 sample_packet 2 tc_init\<rparr>, TC_ACT_OK)"
  using capture_packets_refines [OF tc_inv_init pull_exact_delivers, of sample_skb rodata_pid100 filter_pcap_ebpf_l2 CORE kernel0 False]
    sample_pcap by (simp add: sample_skb_packet rodata_pid100_wants)

theorem sendmsg_attributes_packets_witness:
  "\<exists>smp. capture_packets CORE filter_pcap_ebpf_l2 pull_exact rodata_pid100 kernel0 sample_skb False sample_sent =
      Some (sample_sent\<lparr>tc_skb_events := tc_skb_events sample_sent @ [smp]\<rparr>, TC_ACT_OK) \<and>
    (\<forall>e pad. PacketEvent_DecodeFromBytes e (smp @ pad) =
      Inr (e\<lparr>Timestamp := 55, Pid := 100, Comm := replicate 16 0, Cmdline := (Cmdline e)[0 := 91],
        PacketLen := 54, InterfaceIndex := 2, PacketData := sample_packet\<rparr>))"
proof -
  have holds: "sock_holds vmlinux_layout (k_any sample_sender) (PT_REGS_PARM1 (X86 (regs0\<lparr>x_di := 8192\<rparr>))) sample_flow"
    using sample_kern_holds by simp
  have "\<exists>smp. capture_packets CORE filter_pcap_ebpf_l2 pull_exact rodata_pid100 kernel0 sample_skb False sample_sent =
      Some (sample_sent\<lparr>tc_skb_events := tc_skb_events sample_sent @ [smp]\<rparr>, TC_ACT_OK) \<and>
    (\<forall>e pad. PacketEvent_DecodeFromBytes e (smp @ pad) =
      Inr (e\<lparr>Timestamp := k_ktime_ns kernel0, Pid := cur_pid sample_sender, Comm := k_comm sample_sender,
        Cmdline := (Cmdline e)[0 := 91], PacketLen := of_nat (length (sb_packet sample_skb)),
        InterfaceIndex := sb_ifindex sample_skb, PacketData := sb_packet sample_skb\<rparr>))"
    by (rule sendmsg_attributes_packets [OF tc_inv_init _ _ holds, where send = tcp_sendmsg and proto = IPPROTO_TCP
          and g = sample_flow and c = rodata_pid100 and pcap = filter_pcap_ebpf_l2 and pull = pull_exact])
      (use sample_recorded sample_packet_carries sample_pcap pull_exact_delivers in
        \<open>simp_all add: others.others_none sample_skb_packet rodata_pid100_wants TASK_COMM_LEN_def cur_pid_def\<close>)
  then show ?thesis by (simp add: sample_skb_packet cur_pid_def)
qed

text \<open>A reachable state with a sample: the segment seen before anything was sent, so unattributed.\<close>

abbreviation sample_seen :: tc_state where
  "sample_seen \<equiv> tc_init\<lparr>tc_skb_events :=
     [packet_sample kernel0 sample_packet 2 0 (replicate TASK_COMM_LEN 0)]\<rparr>"

lemma sample_seen_reachable:
  "tc_reachable CORE vmlinux_layout filter_pcap_ebpf_l2 pull_exact rodata_pid100 sample_seen"
proof -
  have "packet_report CORE rodata_pid100 kernel0 sample_packet 2 tc_init =
      [packet_sample kernel0 sample_packet 2 0 (replicate TASK_COMM_LEN 0)]"
    using carries_key [OF sample_packet_carries] by (simp add: packet_report_def network_lookup_def tc_init_def)
  then have "egress_cls_func CORE filter_pcap_ebpf_l2 pull_exact rodata_pid100 kernel0 sample_skb tc_init =
      Some (sample_seen, TC_ACT_OK)"
    using capture_packets_report [OF tc_inv_init pull_exact_delivers, of sample_skb rodata_pid100 filter_pcap_ebpf_l2 CORE kernel0 False]
      sample_pcap by (simp add: egress_cls_func_def sample_skb_packet rodata_pid100_wants tc_init_def)
  then show ?thesis
    by (intro tc_reachable.tc_more [OF tc_reachable.tc_start tc_step.tc_egress [of sample_skb]])
      (simp_all add: sample_skb_packet)
qed

theorem tc_reachable_invariant_witness:
  "tc_inv sample_seen \<and> sample_ok rodata_pid100 (packet_sample kernel0 sample_packet 2 0 (replicate TASK_COMM_LEN 0))"
  using tc_reachable_invariant [OF sample_seen_reachable] rodata_pid100_wants(2) by simp

theorem short_ipv4_by_build_witness:
  "length (sb_packet sample_udp) = 47 \<and> sb_packet sample_udp ! 23 = IPPROTO_UDP \<and>
   capture_packets CORE filter_pcap_ebpf_l2 pull_exact rodata_default kernel0 sample_udp False tc_init = Some (tc_init, TC_ACT_OK) \<and>
   capture_packets NOCORE filter_pcap_ebpf_l2 pull_exact rodata_default kernel0 sample_udp False tc_init =
     Some (tc_init\<lparr>tc_skb_events := [packet_sample kernel0 (sb_packet sample_udp) 2 0 (replicate TASK_COMM_LEN 0)]\<rparr>, TC_ACT_OK)"
proof -
  have p: "take 2 (drop 12 (sb_packet sample_udp)) = [0x08, 0x00]" "length (sb_packet sample_udp) = 47"
    "sb_packet sample_udp ! 23 = IPPROTO_UDP" "sb_linear sample_udp = 47" "sb_ifindex sample_udp = 2"
    by (simp_all add: sample_udp_def sb_packet_def sb_linear_def nth_append IPPROTO_UDP_def)
  have "less52 rodata_default = 1 \<or> filter_pcap_l2 filter_pcap_ebpf_l2 sample_udp 0 47" "less52 rodata_default = 1 \<longrightarrow> target_cgroup_id rodata_default = 0"
    by (simp_all add: filter_pcap_l2_def filter_pcap_ebpf_l2_def rodata_default_def)
  with short_ipv4_by_build [of sample_udp tc_init pull_exact rodata_default filter_pcap_ebpf_l2 kernel0 False] p tc_inv_init pull_exact_delivers
  show ?thesis by (simp add: owner_sample_def network_lookup_def tc_init_def)
qed

text \<open>A TCP segment over IPv6 with hop limit 64.\<close>

definition sample_ipv6 :: bytes where
  "sample_ipv6 = replicate 12 0 @ [0x86, 0xDD] @ replicate 6 0 @ [6, 64] @ replicate 15 0 @ [1] @ replicate 15 0 @ [2] @
     [0xC3, 0x50] @ [0x01, 0xBB] @ replicate 16 0"

definition sample_ipv6_flow :: flow where
  "sample_ipv6_flow = \<lparr>fl_family = AF_INET6, fl_laddr = le_word (replicate 15 0 @ [1]), fl_lport = 50000,
     fl_raddr = le_word (replicate 15 0 @ [2]), fl_rport = 443\<rparr>"

abbreviation sample_ipv6_skb :: sk_buff where
  "sample_ipv6_skb \<equiv> \<lparr>sb_head = sample_ipv6, sb_frags = [], sb_ifindex = 2\<rparr>"

text \<open>The bytes of an address and its 128-bit word.\<close>

lemma le_enc_le_nat: "le_enc_nat (length bs) (le_nat bs) = bs"
proof (induction bs)
  case (Cons x bs)
  have "unat x < 256" using unsigned_less [of x] by simp
  moreover have "256 * w = 0" for w :: u8
    by (simp only: word_unat_eq_iff) (simp add: unat_word_ariths)
  ultimately show ?case using Cons.IH by simp
qed simp

lemma le_enc_le_word_u128: "length bs = 16 \<Longrightarrow> le_enc 16 (le_word bs :: u128) = bs"
  using le_nat_bound [of bs] le_enc_le_nat [of bs] unat_le_word [of bs, where 'a = 128] by (simp add: le_enc_def)
lemma sample_ipv6_carries: "carries CORE IPPROTO_TCP sample_ipv6_flow sample_ipv6"
proof -
  have "take 16 (drop 22 sample_ipv6) = replicate 15 0 @ [1]" "take 16 (drop 38 sample_ipv6) = replicate 15 0 @ [2]"
    "take 2 (drop 12 sample_ipv6) = [0x86, 0xDD]" "take 2 (drop 54 sample_ipv6) = [0xC3, 0x50]"
    "take 2 (drop 56 sample_ipv6) = [0x01, 0xBB]" "sample_ipv6 ! 20 = 6" "length sample_ipv6 = 74"
    by (simp_all add: sample_ipv6_def nth_append)
  then show ?thesis
    by (simp add: carries_def sample_ipv6_flow_def le_enc_le_word_u128 be16_def IPPROTO_TCP_def)
qed

theorem nocore_ipv6_not_reported_witness:
  "capture_packets CORE filter_pcap_ebpf_l2 pull_exact rodata_default kernel0 sample_ipv6_skb False tc_init =
     Some (tc_init\<lparr>tc_skb_events := [packet_sample kernel0 sample_ipv6 2 0 (replicate TASK_COMM_LEN 0)]\<rparr>, TC_ACT_OK) \<and>
   capture_packets NOCORE filter_pcap_ebpf_l2 pull_exact rodata_default kernel0 sample_ipv6_skb False tc_init = Some (tc_init, TC_ACT_OK)"
proof -
  have p: "sb_packet sample_ipv6_skb = sample_ipv6" "sb_linear sample_ipv6_skb = 74" "length sample_ipv6 = 74" "sample_ipv6 ! 21 = 64"
    by (simp_all add: sb_packet_def sb_linear_def sample_ipv6_def nth_append)
  have "less52 rodata_default = 1 \<or> filter_pcap_l2 filter_pcap_ebpf_l2 sample_ipv6_skb 0 74" "less52 rodata_default = 1 \<longrightarrow> target_cgroup_id rodata_default = 0"
    by (simp_all add: filter_pcap_l2_def filter_pcap_ebpf_l2_def rodata_default_def)
  with nocore_ipv6_not_reported [of sample_ipv6_flow IPPROTO_TCP sample_ipv6_skb tc_init pull_exact rodata_default filter_pcap_ebpf_l2 kernel0 False pull_exact]
    p tc_inv_init pull_exact_delivers sample_ipv6_carries
  show ?thesis by (simp add: owner_sample_def network_lookup_def tc_init_def sample_ipv6_flow_def)
qed

end
