(* ===== verification/Gotls_Probe.thy ===== *)
theory Gotls_Probe
  imports Ssl_Capture Go_Reader
begin

text \<open>
  kern/gotls_kern.c: plaintext and key-log capture for programs that use Go's crypto/tls, and the
  decoders of its events in user space (internal/probe/gotls). This theory holds the state and
  the programs; Gotls_Capture holds what they guarantee.
\<close>

section \<open>Constants and data\<close>

definition MASTER_SECRET_KEY_LEN :: nat where
  "MASTER_SECRET_KEY_LEN = 32"

definition EVP_MAX_MD_SIZE_gotls :: nat where
  "EVP_MAX_MD_SIZE_gotls = 64"

definition GOTLS_EVENT_TYPE_WRITE :: u8 where
  "GOTLS_EVENT_TYPE_WRITE = 0"

definition GOTLS_EVENT_TYPE_READ :: u8 where
  "GOTLS_EVENT_TYPE_READ = 1"

definition GOTLS_MAX_SEGMENTS :: nat where
  "GOTLS_MAX_SEGMENTS = 16"

definition recordTypeApplicationData :: s32 where
  "recordTypeApplicationData = 23"

record go_tls_event =
  ge_ts_ns :: u64
  ge_pid :: u32
  ge_tid :: u32
  ge_data_len :: s32
  ge_event_type :: u8
  ge_pad :: bytes
  ge_fd :: u32
  ge_src_ip :: bytes
  ge_src_port :: u16
  ge_pad2 :: u16
  ge_dst_ip :: bytes
  ge_dst_port :: u16
  ge_ip_version :: u8
  ge_pad3 :: u8
  ge_comm :: bytes
  ge_data :: bytes

definition go_tls_event_zero :: go_tls_event where
  "go_tls_event_zero = \<lparr>ge_ts_ns = 0, ge_pid = 0, ge_tid = 0, ge_data_len = 0, ge_event_type = 0,
     ge_pad = replicate 3 0, ge_fd = 0, ge_src_ip = replicate 16 0, ge_src_port = 0, ge_pad2 = 0,
     ge_dst_ip = replicate 16 0, ge_dst_port = 0, ge_ip_version = 0, ge_pad3 = 0,
     ge_comm = replicate TASK_COMM_LEN 0, ge_data = replicate 16384 0\<rparr>"

text \<open>
  The struct as \<open>bpf_perf_event_output\<close> copies it; \<open>sizeof\<close> rounds up to a multiple of eight, so
  four bytes of padding (never written in the map's memory) follow the data.
\<close>

definition go_tls_event_bytes :: "go_tls_event \<Rightarrow> bytes" where
  "go_tls_event_bytes e =
     le_enc 8 (ge_ts_ns e) @ le_enc 4 (ge_pid e) @ le_enc 4 (ge_tid e) @ le_enc 4 (ge_data_len e) @
     le_enc 1 (ge_event_type e) @ ge_pad e @ le_enc 4 (ge_fd e) @ ge_src_ip e @ le_enc 2 (ge_src_port e) @
     le_enc 2 (ge_pad2 e) @ ge_dst_ip e @ le_enc 2 (ge_dst_port e) @ le_enc 1 (ge_ip_version e) @
     le_enc 1 (ge_pad3 e) @ ge_comm e @ ge_data e @ replicate 4 0"

record mastersecret_gotls_t =
  mg_label :: bytes
  mg_labellen :: u8
  mg_client_random :: bytes
  mg_client_random_len :: u8
  mg_secret :: bytes
  mg_secret_len :: u8

definition mastersecret_gotls_zero :: mastersecret_gotls_t where
  "mastersecret_gotls_zero = \<lparr>mg_label = replicate MASTER_SECRET_KEY_LEN 0, mg_labellen = 0,
     mg_client_random = replicate EVP_MAX_MD_SIZE_gotls 0, mg_client_random_len = 0,
     mg_secret = replicate EVP_MAX_MD_SIZE_gotls 0, mg_secret_len = 0\<rparr>"

text \<open>All members are bytes, so the struct has no padding.\<close>

definition mastersecret_gotls_bytes :: "mastersecret_gotls_t \<Rightarrow> bytes" where
  "mastersecret_gotls_bytes e =
     mg_label e @ [mg_labellen e] @ mg_client_random e @ [mg_client_random_len e] @ mg_secret e @ [mg_secret_len e]"

record gotls_state =
  gs_mastersecret_go_events :: "mastersecret_gotls_t list"
  gs_events :: "go_tls_event list"
  gs_gte_context_gen :: "nat \<Rightarrow> go_tls_event"

definition gotls_init :: gotls_state where
  "gotls_init = \<lparr>gs_mastersecret_go_events = [], gs_events = [], gs_gte_context_gen = (\<lambda>_. go_tls_event_zero)\<rparr>"

definition get_gotls_event :: "kernel \<Rightarrow> gotls_state \<Rightarrow> go_tls_event option" where
  "get_gotls_event k s =
     (case array1_lookup 0 (gs_gte_context_gen s (k_cpu k)) of
        None \<Rightarrow> None
      | Some event \<Rightarrow>
          let pid_tgid = k_pid_tgid k
          in Some (event\<lparr>ge_ts_ns := k_ktime_ns k, ge_pid := ucast (drop_bit 32 pid_tgid), ge_tid := ucast pid_tgid,
               ge_event_type := GOTLS_EVENT_TYPE_WRITE, ge_fd := 0, ge_comm := k_comm k,
               ge_src_ip := replicate 16 0, ge_dst_ip := replicate 16 0, ge_src_port := 0, ge_dst_port := 0,
               ge_ip_version := 0\<rparr>))"

section \<open>The connection of a tls.Conn\<close>

text \<open>A null result is address 0.\<close>

definition get_netfd_ptr_from_tls_conn :: "kernel \<Rightarrow> u64 \<Rightarrow> u64" where
  "get_netfd_ptr_from_tls_conn k tls_conn_ptr =
     (if tls_conn_ptr = 0 then 0
      else
      let (ret, net_conn_ptr) = probe_user_word k (0 :: u64) (tls_conn_ptr + 8)
      in if ret < 0 \<or> net_conn_ptr = 0 then 0
      else
      let (ret, netfd_ptr) = probe_user_word k (0 :: u64) net_conn_ptr
      in if ret < 0 \<or> netfd_ptr = 0 then 0 else netfd_ptr)"

definition extract_fd_from_netfd_ptr :: "kernel \<Rightarrow> u64 \<Rightarrow> s32" where
  "extract_fd_from_netfd_ptr k netfd_ptr =
     (let (ret, fd) = probe_user_word k (0 :: s64) (netfd_ptr + 16)
      in if ret < 0 \<or> sint fd < 0 then 0 else ucast fd)"

text \<open>The out-parameters are members of the event; \<open>extract_ips\<close> is the copy of the two addresses.\<close>

definition extract_ips :: "kernel \<Rightarrow> nat \<Rightarrow> u64 \<Rightarrow> u64 \<Rightarrow> go_tls_event \<Rightarrow> bool \<times> go_tls_event" where
  "extract_ips k n lip_ptr rip_ptr event =
     (let (ret, ip) = probe_read_user_n k n (ge_src_ip event) lip_ptr;
          event = event\<lparr>ge_src_ip := ip\<rparr>
      in if ret < 0 then (False, event)
      else
      let (ret, ip) = probe_read_user_n k n (ge_dst_ip event) rip_ptr;
          event = event\<lparr>ge_dst_ip := ip\<rparr>
      in (\<not> ret < 0, event))"

definition extract_addr_from_netfd_ptr :: "kernel \<Rightarrow> u64 \<Rightarrow> go_tls_event \<Rightarrow> go_tls_event" where
  "extract_addr_from_netfd_ptr k netfd_ptr event =
     (let (ret, laddr_ptr) = probe_user_word k (0 :: u64) (netfd_ptr + 96 + 8)
      in if ret < 0 \<or> laddr_ptr = 0 then event
      else
      let (ret, raddr_ptr) = probe_user_word k (0 :: u64) (netfd_ptr + 112 + 8)
      in if ret < 0 \<or> raddr_ptr = 0 then event
      else
      let (ret, lip_ptr) = probe_user_word k (0 :: u64) laddr_ptr
      in if ret < 0 then event
      else
      let (ret, lip_len) = probe_user_word k (0 :: u64) (laddr_ptr + 8)
      in if ret < 0 then event
      else
      let (ret, rip_ptr) = probe_user_word k (0 :: u64) raddr_ptr
      in if ret < 0 then event
      else
      let (ret, rip_len) = probe_user_word k (0 :: u64) (raddr_ptr + 8)
      in if ret < 0 then event
      else
      let version = (if lip_len = 4 \<and> rip_len = 4 then 4
                     else if lip_len = 16 \<and> rip_len = 16 then 6 else 0)
      in if version = 0 then event
      else
      let (ok, event) = extract_ips k (if version = 4 then 4 else 16) lip_ptr rip_ptr event
      in if \<not> ok then event
      else
      let (ret, lport) = probe_user_word k (0 :: s64) (laddr_ptr + 24)
      in if ret < 0 then event
      else
      let (ret, rport) = probe_user_word k (0 :: s64) (raddr_ptr + 24)
      in if ret < 0 then event
      else event\<lparr>ge_src_port := ucast lport, ge_dst_port := ucast rport, ge_ip_version := version\<rparr>)"

definition fill_fd_and_addr_from_tls_conn :: "kernel \<Rightarrow> u64 \<Rightarrow> go_tls_event \<Rightarrow> go_tls_event" where
  "fill_fd_and_addr_from_tls_conn k tls_conn_ptr event =
     (let netfd_ptr = get_netfd_ptr_from_tls_conn k tls_conn_ptr
      in if netfd_ptr = 0 then event
      else extract_addr_from_netfd_ptr k netfd_ptr
             (event\<lparr>ge_fd := extract_fd_from_netfd_ptr k netfd_ptr\<rparr>))"

section \<open>Emitting a payload in segments\<close>

text \<open>One expansion of the macro; the event and the perf buffer are passed through.\<close>

definition GOTLS_EMIT_SEG ::
    "kernel \<Rightarrow> u64 \<Rightarrow> u32 \<Rightarrow> u32 \<Rightarrow> nat \<Rightarrow> go_tls_event \<times> go_tls_event list \<Rightarrow> go_tls_event \<times> go_tls_event list" where
  "GOTLS_EMIT_SEG k base tot max_chunk seg_idx = (\<lambda>(event, events).
     let off = of_nat seg_idx * max_chunk in
     if off < tot then
       let remain = tot - off;
           chunk = (if remain < max_chunk then remain AND (max_chunk - 1) else max_chunk)
       in if chunk > 0 then
         let event = event\<lparr>ge_data_len := chunk\<rparr>;
             (ret, data) = probe_read_user_n k (unat chunk) (ge_data event) (base + ucast off);
             event = event\<lparr>ge_data := data\<rparr>
         in if ret = 0 then (event, events @ [event]) else (event, events)
       else (event, events)
     else (event, events))"

definition gotls_emit_payload ::
    "kernel \<Rightarrow> go_tls_event \<Rightarrow> u64 \<Rightarrow> s32 \<Rightarrow> u8 \<Rightarrow> gotls_state \<Rightarrow> gotls_state \<times> int" where
  "gotls_emit_payload k event base total_len event_type s =
     (if base = 0 \<or> sint total_len \<le> 0
      then (s\<lparr>gs_gte_context_gen := (gs_gte_context_gen s)(k_cpu k := event)\<rparr>, 0)
      else
      let max_chunk = MAX_DATA_SIZE_OPENSSL;
          max_total = max_chunk * of_nat GOTLS_MAX_SEGMENTS;
          total = total_len;
          total = (if total > max_total then max_total else total);
          event = event\<lparr>ge_event_type := event_type\<rparr>;
          (event, events) = fold (GOTLS_EMIT_SEG k base total max_chunk)
            [0, 1, 2, 3, 4, 5, 6, 7, 8, 9, 10, 11, 12, 13, 14, 15] (event, gs_events s)
      in (s\<lparr>gs_gte_context_gen := (gs_gte_context_gen s)(k_cpu k := event), gs_events := events\<rparr>, 0))"

section \<open>The programs\<close>

text \<open>
  The kernel reads of \<open>&record_type_ptr\<close>, \<open>&len_ptr\<close> and the like copy the low four bytes of the
  program's own stack variables, so they are casts.
\<close>

definition gotls_write :: "bool \<Rightarrow> rodata \<Rightarrow> kernel \<Rightarrow> pt_regs \<Rightarrow> gotls_state \<Rightarrow> gotls_state \<times> int" where
  "gotls_write is_register_abi c k ctx s =
     (if \<not> passes_filter c k (Some ctx) then (s, 0)
      else
      let tls_conn_ptr = go_get_argument k ctx is_register_abi 1;
          record_type = (ucast (go_get_argument k ctx is_register_abi 2) :: s32);
          str = go_get_argument k ctx is_register_abi 3;
          len = (ucast (go_get_argument k ctx is_register_abi 4) :: s32)
      in if len = 0 then (s, 0)
      else if record_type \<noteq> recordTypeApplicationData then (s, 0)
      else
      case get_gotls_event k s of
        None \<Rightarrow> (s, 0)
      | Some event \<Rightarrow>
          let event = fill_fd_and_addr_from_tls_conn k tls_conn_ptr event
          in gotls_emit_payload k event str len GOTLS_EVENT_TYPE_WRITE s)"

definition gotls_write_register :: "rodata \<Rightarrow> kernel \<Rightarrow> pt_regs \<Rightarrow> gotls_state \<Rightarrow> gotls_state \<times> int" where
  "gotls_write_register = gotls_write True"

definition gotls_write_stack :: "rodata \<Rightarrow> kernel \<Rightarrow> pt_regs \<Rightarrow> gotls_state \<Rightarrow> gotls_state \<times> int" where
  "gotls_write_stack = gotls_write False"

definition gotls_read :: "bool \<Rightarrow> rodata \<Rightarrow> kernel \<Rightarrow> pt_regs \<Rightarrow> gotls_state \<Rightarrow> gotls_state \<times> int" where
  "gotls_read is_register_abi c k ctx s =
     (if \<not> passes_filter c k (Some ctx) then (s, 0)
      else
      let tls_conn_ptr = go_get_argument k ctx False 1;
          str = go_get_argument k ctx False 2;
          ret_len_ptr = (if is_register_abi then go_get_argument k ctx is_register_abi 1
                         else go_get_argument k ctx is_register_abi 5);
          ret_len = (ucast ret_len_ptr :: s32)
      in if str \<le> 0 then (s, 0)
      else if sint ret_len \<le> 0 then (s, 0)
      else
      case get_gotls_event k s of
        None \<Rightarrow> (s, 0)
      | Some event \<Rightarrow>
          let event = fill_fd_and_addr_from_tls_conn k tls_conn_ptr event
          in gotls_emit_payload k event str ret_len GOTLS_EVENT_TYPE_READ s)"

definition gotls_read_register :: "rodata \<Rightarrow> kernel \<Rightarrow> pt_regs \<Rightarrow> gotls_state \<Rightarrow> gotls_state \<times> int" where
  "gotls_read_register = gotls_read True"

definition gotls_read_stack :: "rodata \<Rightarrow> kernel \<Rightarrow> pt_regs \<Rightarrow> gotls_state \<Rightarrow> gotls_state \<times> int" where
  "gotls_read_stack = gotls_read False"

text \<open>
  \<open>bpf_probe_read_user_str\<close>: copies up to and including the first NUL; a string that does not fit
  is cut to one byte less than the buffer and terminated.
\<close>

fun user_str :: "memory \<Rightarrow> nat \<Rightarrow> u64 \<Rightarrow> bytes option" where
  "user_str m 0 a = Some []"
| "user_str m (Suc n) a =
     (case m a of None \<Rightarrow> None
      | Some b \<Rightarrow> if b = 0 then Some [] else map_option (Cons b) (user_str m n (a + 1)))"

definition probe_read_user_str :: "kernel \<Rightarrow> bytes \<Rightarrow> u64 \<Rightarrow> int \<times> bytes" where
  "probe_read_user_str k dst a =
     (case user_str (k_user k) (length dst) a of
        None \<Rightarrow> (- EFAULT, map (k_on_fault k) dst)
      | Some bs \<Rightarrow>
          let cs = take (length dst - 1) bs
          in (int (length cs) + 1, cs @ 0 # drop (length cs + 1) dst))"

definition gotls_mastersecret :: "bool \<Rightarrow> rodata \<Rightarrow> kernel \<Rightarrow> pt_regs \<Rightarrow> gotls_state \<Rightarrow> gotls_state \<times> int" where
  "gotls_mastersecret is_register_abi c k ctx s =
     (if \<not> passes_filter c k (Some ctx) then (s, 0)
      else
      let lab_ptr = go_get_argument k ctx is_register_abi 2;
          lab_len = (ucast (go_get_argument k ctx is_register_abi 3) :: s32);
          cr_ptr = go_get_argument k ctx is_register_abi 4;
          cr_len = (ucast (go_get_argument k ctx is_register_abi 5) :: s32);
          secret_ptr = go_get_argument k ctx is_register_abi 7;
          secret_len = (ucast (go_get_argument k ctx is_register_abi 8) :: s32)
      in if sint lab_len \<le> 0 \<or> sint cr_len \<le> 0 \<or> sint secret_len \<le> 0 then (s, 0)
      else
      let m = mastersecret_gotls_zero\<lparr>mg_labellen := ucast lab_len, mg_client_random_len := ucast cr_len,
            mg_secret_len := ucast secret_len\<rparr>;
          (ret, label) = probe_read_user_str k (mg_label m) lab_ptr
      in if ret < 0 then (s, 0)
      else
      let m = m\<lparr>mg_label := label\<rparr>;
          (ret, client_random) = probe_read_user k (mg_client_random m) cr_ptr
      in if ret < 0 then (s, 0)
      else
      let m = m\<lparr>mg_client_random := client_random\<rparr>;
          (ret, secret) = probe_read_user k (mg_secret m) secret_ptr
      in if ret < 0 then (s, 0)
      else
      let m = m\<lparr>mg_secret := secret\<rparr>
      in (s\<lparr>gs_mastersecret_go_events := gs_mastersecret_go_events s @ [m]\<rparr>, 0))"

definition gotls_mastersecret_register :: "rodata \<Rightarrow> kernel \<Rightarrow> pt_regs \<Rightarrow> gotls_state \<Rightarrow> gotls_state \<times> int" where
  "gotls_mastersecret_register = gotls_mastersecret True"

definition gotls_mastersecret_stack :: "rodata \<Rightarrow> kernel \<Rightarrow> pt_regs \<Rightarrow> gotls_state \<Rightarrow> gotls_state \<times> int" where
  "gotls_mastersecret_stack = gotls_mastersecret False"

section \<open>The consumers in user space\<close>

text \<open>
  \<open>GoTLSDataEvent\<close> with its decoder (event.go), without the display string \<open>Tuple\<close> that is derived
  from the addresses; \<open>now\<close> is the wall clock that replaces a zero time stamp.
\<close>

record GoTLSDataEvent =
  gd_Timestamp :: u64
  gd_BpfMonoNs :: u64
  gd_Pid :: u32
  gd_Tid :: u32
  gd_DataLen :: s32
  gd_EventType :: u8
  gd_Fd :: u32
  gd_SrcIP :: bytes
  gd_SrcPort :: u16
  gd_DstIP :: bytes
  gd_DstPort :: u16
  gd_IPVersion :: u8
  gd_Comm :: bytes
  gd_Data :: bytes

definition maxGoTLSPayload :: nat where
  "maxGoTLSPayload = 16 * 1024"

definition GoTLSDataEvent_DecodeFromBytes :: "u64 \<Rightarrow> bytes \<Rightarrow> decode_error + GoTLSDataEvent" where
  "GoTLSDataEvent_DecodeFromBytes now data =
     go_bind (binary_read 8 data) (\<lambda>(ts, buf).
     go_bind (binary_read 4 buf) (\<lambda>(pid, buf).
     go_bind (binary_read 4 buf) (\<lambda>(tid, buf).
     go_bind (binary_read 4 buf) (\<lambda>(dl, buf).
     go_bind (binary_read 1 buf) (\<lambda>(ty, buf).
     go_bind (binary_read 3 buf) (\<lambda>(pad, buf).
     go_bind (binary_read 4 buf) (\<lambda>(fd, buf).
     go_bind (binary_read 16 buf) (\<lambda>(src, buf).
     go_bind (binary_read 2 buf) (\<lambda>(sport, buf).
     go_bind (binary_read 2 buf) (\<lambda>(pad2, buf).
     go_bind (binary_read 16 buf) (\<lambda>(dst, buf).
     go_bind (binary_read 2 buf) (\<lambda>(dport, buf).
     go_bind (binary_read 1 buf) (\<lambda>(ver, buf).
     go_bind (binary_read 1 buf) (\<lambda>(pad3, buf).
     go_bind (binary_read 16 buf) (\<lambda>(comm, buf).
     let dlen = (le_word dl :: s32);
         timestamp = (if (le_word ts :: u64) = 0 then now else le_word ts);
         event = (\<lambda>n d. \<lparr>gd_Timestamp = timestamp, gd_BpfMonoNs = le_word ts, gd_Pid = le_word pid,
           gd_Tid = le_word tid, gd_DataLen = n, gd_EventType = le_word ty, gd_Fd = le_word fd,
           gd_SrcIP = src, gd_SrcPort = le_word sport, gd_DstIP = dst, gd_DstPort = le_word dport,
           gd_IPVersion = le_word ver, gd_Comm = comm, gd_Data = d\<rparr>)
     in if sint dlen > 0 then
          (let remaining = length buf in
           if remaining < unat dlen then Inl LengthExceeds
           else if unat dlen > maxGoTLSPayload then Inl LengthExceeds
           else go_bind (binary_read (unat dlen) buf) (\<lambda>(d, buf). Inr (event dlen d)))
        else Inr (event 0 []))))))))))))))))"

definition GoTLSDataEvent_GetData :: "GoTLSDataEvent \<Rightarrow> bytes" where
  "GoTLSDataEvent_GetData e =
     (let dataLen = sint (gd_DataLen e);
          dataLen = (if dataLen < 0 then 0 else dataLen);
          dataLen = (if dataLen > int (length (gd_Data e)) then int (length (gd_Data e)) else dataLen)
      in take (nat dataLen) (gd_Data e))"

text \<open>\<open>MasterSecretEvent\<close> with its decoder and the getters the key-log writer uses (event_masterkey.go).\<close>

record MasterSecretEvent =
  ms_Label :: bytes
  ms_LabelLen :: u8
  ms_ClientRandom :: bytes
  ms_ClientRandomLen :: u8
  ms_Secret :: bytes
  ms_SecretLen :: u8

definition MasterSecretEvent_DecodeFromBytes :: "bytes \<Rightarrow> decode_error + MasterSecretEvent" where
  "MasterSecretEvent_DecodeFromBytes data =
     (if length data < 32 + 1 + 64 + 1 + 64 + 1 then Inl TooShort
      else go_bind (binary_read MASTER_SECRET_KEY_LEN data) (\<lambda>(label, buf).
        go_bind (binary_read 1 buf) (\<lambda>(labellen, buf).
        go_bind (binary_read EVP_MAX_MD_SIZE_gotls buf) (\<lambda>(cr, buf).
        go_bind (binary_read 1 buf) (\<lambda>(crlen, buf).
        go_bind (binary_read EVP_MAX_MD_SIZE_gotls buf) (\<lambda>(secret, buf).
        go_bind (binary_read 1 buf) (\<lambda>(secretlen, buf).
          Inr \<lparr>ms_Label = label, ms_LabelLen = le_word labellen, ms_ClientRandom = cr,
            ms_ClientRandomLen = le_word crlen, ms_Secret = secret, ms_SecretLen = le_word secretlen\<rparr>)))))))"

text \<open>\<open>a[:n]\<close> of an array panics when \<open>n\<close> is beyond its end.\<close>

definition go_slice :: "bytes \<Rightarrow> nat \<Rightarrow> bytes option" where
  "go_slice a n = (if n \<le> length a then Some (take n a) else None)"

definition GetLabel :: "MasterSecretEvent \<Rightarrow> bytes option" where
  "GetLabel e = go_slice (ms_Label e) (unat (ms_LabelLen e))"

definition GetClientRandom :: "MasterSecretEvent \<Rightarrow> bytes option" where
  "GetClientRandom e = go_slice (ms_ClientRandom e) (unat (ms_ClientRandomLen e))"

definition GetSecret :: "MasterSecretEvent \<Rightarrow> bytes option" where
  "GetSecret e = go_slice (ms_Secret e) (unat (ms_SecretLen e))"

lemmas gotls_hook_defs = gotls_write_register_def gotls_write_stack_def gotls_read_register_def
  gotls_read_stack_def gotls_mastersecret_register_def gotls_mastersecret_stack_def

end
