(* ===== verification/Gotls_Capture.thy ===== *)
theory Gotls_Capture
  imports Gotls_Probe
begin

text \<open>
  What the programs of kern/gotls_kern.c guarantee, up to the decoders in user space: a captured
  payload arrives as the pieces of its first 256 KiB, in order and independently of what an earlier
  run left in the per-CPU buffer; the descriptor and addresses are those of the connection; the
  key-log entry is the one the process logs; and the invariant of the object.
\<close>

section \<open>Segments\<close>

text \<open>
  The members of an event that a segment does not touch, and what one segment does to a readable
  payload.
\<close>

definition gotls_hdr :: "go_tls_event \<Rightarrow> go_tls_event" where
  "gotls_hdr e = e\<lparr>ge_data_len := 0, ge_data := []\<rparr>"

definition seg_event :: "go_tls_event \<Rightarrow> bytes \<Rightarrow> go_tls_event" where
  "seg_event e d = e\<lparr>ge_data_len := of_nat (length d), ge_data := d @ drop (length d) (ge_data e)\<rparr>"

lemma gotls_hdr_seg [simp]: "gotls_hdr (seg_event e d) = gotls_hdr e"
  by (simp add: gotls_hdr_def seg_event_def)

lemma seg_event_data [simp]:
  "length d \<le> length (ge_data e) \<Longrightarrow> length (ge_data (seg_event e d)) = length (ge_data e)"
  "take (length d) (ge_data (seg_event e d)) = d"
  by (simp_all add: seg_event_def)

lemma unat_seg_off: "j < 16 \<Longrightarrow> unat (of_nat j * 16384 :: u32) = j * 16384"
proof -
  assume "j < 16"
  then have "j * 16384 < 2 ^ 32" by simp
  then have "unat (of_nat (j * 16384) :: u32) = j * 16384" by (simp add: unsigned_of_nat take_bit_nat_eq_self del: of_nat_mult)
  then show ?thesis by simp
qed

lemma unat_seg_chunk:
  fixes r :: u32
  shows "unat (if r < 16384 then r AND (16384 - 1) else 16384) = min (unat r) 16384"
proof (cases "unat r < 16384")
  case True
  then have "r AND mask 14 = r" by (intro and_mask_id) simp
  then have "r AND 16383 = r" by (simp add: mask_eq_decr_exp)
  then show ?thesis using True by (simp add: word_less_nat_alt)
qed (simp add: word_less_nat_alt)

lemma GOTLS_EMIT_SEG_readable:
  assumes j: "j < 16" and mem: "read_mem (k_user k) (unat tot) base = Some payload" and ev: "length (ge_data e) = 16384"
  shows "GOTLS_EMIT_SEG k base tot 16384 j (e, es) =
    (if j * 16384 < length payload
     then (let e' = seg_event e (take 16384 (drop (j * 16384) payload)) in (e', es @ [e'])) else (e, es))"
proof -
  let ?off = "of_nat j * 16384 :: u32"
  let ?d = "take 16384 (drop (j * 16384) payload)"
  have len: "length payload = unat tot" using mem by (rule length_read_mem)
  have off: "unat ?off = j * 16384" using j by (rule unat_seg_off)
  show ?thesis
  proof (cases "j * 16384 < unat tot")
    case True
    define chunk where "chunk = (if tot - ?off < 16384 then (tot - ?off) AND (16384 - 1) else (16384 :: u32))"
    have "unat (tot - ?off) = unat tot - j * 16384" using True off by (subst unat_sub) (simp_all add: word_le_nat_alt)
    then have c: "unat chunk = length ?d" unfolding chunk_def using len by (simp only: unat_seg_chunk) (simp add: min.commute)
    then have pos: "0 < chunk" using True len by (simp add: word_less_nat_alt)
    have cw: "of_nat (length ?d) = chunk" unfolding c [symmetric] by simp
    have "(ucast ?off :: u64) = of_nat (unat ?off)" by simp
    then have o64: "(ucast ?off :: u64) = of_nat (j * 16384)" by (simp only: off)
    have lt: "?off < tot" using True off by (simp add: word_less_nat_alt)
    have le: "j * 16384 + unat chunk \<le> unat tot" using c len True by simp
    have "take (unat chunk) (drop (j * 16384) payload) = ?d"
      unfolding c by (cases "16384 \<le> length (drop (j * 16384) payload)") simp_all
    then have "read_mem (k_user k) (unat chunk) (base + ucast ?off) = Some ?d"
      using read_mem_slice [OF mem le] unfolding o64 by simp
    then have "probe_read_user_n k (unat chunk) x (base + ucast ?off) = (0, ?d @ drop (unat chunk) x)" if "length x = 16384" for x
      using c that by (intro probe_read_user_n_ok) simp_all
    then show ?thesis
      using True lt pos ev len
      unfolding GOTLS_EMIT_SEG_def Let_def seg_event_def cw c [symmetric] chunk_def [symmetric] by simp
  qed (use off len in \<open>simp add: GOTLS_EMIT_SEG_def Let_def word_less_nat_alt\<close>)
qed

text \<open>All segments: the payload is cut into pieces, and every piece goes out with the same header.\<close>

lemma fold_segments:
  assumes "j \<le> 16" and mem: "read_mem (k_user k) (unat tot) base = Some payload" and "length (ge_data e) = 16384"
  shows "\<exists>e' new. fold (GOTLS_EMIT_SEG k base tot 16384) [0..<j] (e, es) = (e', es @ new) \<and>
    gotls_hdr e' = gotls_hdr e \<and> length (ge_data e') = 16384 \<and>
    list_all2 (\<lambda>x d. \<exists>y. x = seg_event y d \<and> gotls_hdr y = gotls_hdr e \<and> length (ge_data y) = 16384)
      new (chunks 16384 (take (j * 16384) payload))"
  using assms(1)
proof (induction j)
  case 0
  then show ?case using assms(3) by auto
next
  case (Suc j)
  then obtain e1 new where IH: "fold (GOTLS_EMIT_SEG k base tot 16384) [0..<j] (e, es) = (e1, es @ new)"
      "gotls_hdr e1 = gotls_hdr e" "length (ge_data e1) = 16384"
      "list_all2 (\<lambda>x d. \<exists>y. x = seg_event y d \<and> gotls_hdr y = gotls_hdr e \<and> length (ge_data y) = 16384)
        new (chunks 16384 (take (j * 16384) payload))" by auto
  let ?d = "take 16384 (drop (j * 16384) payload)"
  have seg: "GOTLS_EMIT_SEG k base tot 16384 j (e1, es @ new) =
      (if j * 16384 < length payload then (seg_event e1 ?d, (es @ new) @ [seg_event e1 ?d]) else (e1, es @ new))"
    using GOTLS_EMIT_SEG_readable [OF _ mem IH(3), of j "es @ new"] Suc.prems by (simp add: Let_def)
  have ch: "chunks 16384 (take (Suc j * 16384) payload) =
      chunks 16384 (take (j * 16384) payload) @ (if j * 16384 < length payload then [?d] else [])"
    by (rule chunks_take_Suc) simp
  show ?case
  proof (cases "j * 16384 < length payload")
    case True
    then show ?thesis
      unfolding ch using IH seg
      by (intro exI [of _ "seg_event e1 ?d"] exI [of _ "new @ [seg_event e1 ?d]"])
        (auto intro!: list_all2_appendI)
  next
    case False
    then show ?thesis unfolding ch using IH seg by auto
  qed
qed

section \<open>The header of an event\<close>

text \<open>The per-CPU buffer between two runs, and the header a run starts from, whatever it held.\<close>

definition gotls_event_wf :: "go_tls_event \<Rightarrow> bool" where
  "gotls_event_wf e \<longleftrightarrow> ge_pad e = replicate 3 0 \<and> ge_pad2 e = 0 \<and> ge_pad3 e = 0 \<and> length (ge_src_ip e) = 16 \<and>
     length (ge_dst_ip e) = 16 \<and> length (ge_comm e) = TASK_COMM_LEN \<and> length (ge_data e) = 16384"

definition gotls_hdr0 :: "kernel \<Rightarrow> go_tls_event" where
  "gotls_hdr0 k = go_tls_event_zero\<lparr>ge_ts_ns := k_ktime_ns k, ge_pid := cur_pid k, ge_tid := cur_tid k,
     ge_comm := k_comm k, ge_data := []\<rparr>"

definition gotls_call_header :: "kernel \<Rightarrow> u64 \<Rightarrow> u8 \<Rightarrow> go_tls_event" where
  "gotls_call_header k conn ty = (fill_fd_and_addr_from_tls_conn k conn (gotls_hdr0 k))\<lparr>ge_event_type := ty\<rparr>"

lemma get_gotls_event_hdr:
  assumes "gotls_event_wf (gs_gte_context_gen s (k_cpu k))"
  obtains e where "get_gotls_event k s = Some e" and "gotls_hdr e = gotls_hdr0 k" and "length (ge_data e) = 16384"
proof
  let ?e = "(gs_gte_context_gen s (k_cpu k))\<lparr>ge_ts_ns := k_ktime_ns k, ge_pid := cur_pid k, ge_tid := cur_tid k,
     ge_event_type := GOTLS_EVENT_TYPE_WRITE, ge_fd := 0, ge_comm := k_comm k,
     ge_src_ip := replicate 16 0, ge_dst_ip := replicate 16 0, ge_src_port := 0, ge_dst_port := 0, ge_ip_version := 0\<rparr>"
  show "get_gotls_event k s = Some ?e" by (simp add: get_gotls_event_def Let_def cur_pid_def cur_tid_def)
  show "gotls_hdr ?e = gotls_hdr0 k" "length (ge_data ?e) = 16384"
    using assms by (cases "gs_gte_context_gen s (k_cpu k)"; simp add: gotls_hdr_def gotls_hdr0_def
        go_tls_event_zero_def gotls_event_wf_def GOTLS_EVENT_TYPE_WRITE_def)+
qed

text \<open>Filling in the connection neither reads nor writes the data.\<close>

lemma gotls_hdr_update [simp]:
  "gotls_hdr (e\<lparr>ge_fd := a\<rparr>) = (gotls_hdr e)\<lparr>ge_fd := a\<rparr>"
  "gotls_hdr (e\<lparr>ge_src_ip := b\<rparr>) = (gotls_hdr e)\<lparr>ge_src_ip := b\<rparr>"
  "gotls_hdr (e\<lparr>ge_dst_ip := b\<rparr>) = (gotls_hdr e)\<lparr>ge_dst_ip := b\<rparr>"
  "gotls_hdr (e\<lparr>ge_src_port := p\<rparr>) = (gotls_hdr e)\<lparr>ge_src_port := p\<rparr>"
  "gotls_hdr (e\<lparr>ge_dst_port := p\<rparr>) = (gotls_hdr e)\<lparr>ge_dst_port := p\<rparr>"
  "gotls_hdr (e\<lparr>ge_ip_version := v\<rparr>) = (gotls_hdr e)\<lparr>ge_ip_version := v\<rparr>"
  "gotls_hdr (e\<lparr>ge_event_type := v\<rparr>) = (gotls_hdr e)\<lparr>ge_event_type := v\<rparr>"
  "ge_src_ip (gotls_hdr e) = ge_src_ip e" "ge_dst_ip (gotls_hdr e) = ge_dst_ip e"
  by (simp_all add: gotls_hdr_def)

lemma extract_ips_hdr:
  "extract_ips k n l r (gotls_hdr e) = map_prod id gotls_hdr (extract_ips k n l r e)"
  by (simp add: extract_ips_def Let_def case_prod_beta)

lemma extract_addr_hdr: "extract_addr_from_netfd_ptr k p (gotls_hdr e) = gotls_hdr (extract_addr_from_netfd_ptr k p e)"
  unfolding extract_addr_from_netfd_ptr_def extract_ips_hdr Let_def case_prod_beta by simp

lemma fill_hdr: "fill_fd_and_addr_from_tls_conn k p (gotls_hdr e) = gotls_hdr (fill_fd_and_addr_from_tls_conn k p e)"
  using extract_addr_hdr [of k _ "e\<lparr>ge_fd := _\<rparr>"] by (simp add: fill_fd_and_addr_from_tls_conn_def Let_def)

lemma extract_ips_frame:
  "ge_data (snd (extract_ips k n l r e)) = ge_data e" "ge_pad (snd (extract_ips k n l r e)) = ge_pad e"
  "ge_pad2 (snd (extract_ips k n l r e)) = ge_pad2 e" "ge_pad3 (snd (extract_ips k n l r e)) = ge_pad3 e"
  "ge_comm (snd (extract_ips k n l r e)) = ge_comm e" "ge_pid (snd (extract_ips k n l r e)) = ge_pid e"
  "length (ge_src_ip (snd (extract_ips k n l r e))) = length (ge_src_ip e)"
  "length (ge_dst_ip (snd (extract_ips k n l r e))) = length (ge_dst_ip e)"
  by (simp_all add: extract_ips_def Let_def case_prod_beta)

lemma fill_frame:
  fixes e :: go_tls_event and k :: kernel and p :: u64
  defines "e' \<equiv> fill_fd_and_addr_from_tls_conn k p e"
  shows "ge_data e' = ge_data e" "ge_pad e' = ge_pad e" "ge_pad2 e' = ge_pad2 e" "ge_pad3 e' = ge_pad3 e"
    "ge_comm e' = ge_comm e" "ge_pid e' = ge_pid e"
    "length (ge_src_ip e') = length (ge_src_ip e)" "length (ge_dst_ip e') = length (ge_dst_ip e)"
  unfolding e'_def fill_fd_and_addr_from_tls_conn_def extract_addr_from_netfd_ptr_def Let_def case_prod_beta
  by (simp_all add: extract_ips_frame)

lemma fill_wf: "gotls_event_wf e \<Longrightarrow> gotls_event_wf (fill_fd_and_addr_from_tls_conn k p e)"
  by (simp add: gotls_event_wf_def fill_frame)

section \<open>A payload, from the process to user space\<close>

definition gotls_decoded :: "u64 \<Rightarrow> go_tls_event \<Rightarrow> bytes \<Rightarrow> GoTLSDataEvent" where
  "gotls_decoded now h d =
     \<lparr>gd_Timestamp = (if ge_ts_ns h = 0 then now else ge_ts_ns h), gd_BpfMonoNs = ge_ts_ns h, gd_Pid = ge_pid h,
      gd_Tid = ge_tid h, gd_DataLen = of_nat (length d), gd_EventType = ge_event_type h, gd_Fd = ge_fd h,
      gd_SrcIP = ge_src_ip h, gd_SrcPort = ge_src_port h, gd_DstIP = ge_dst_ip h, gd_DstPort = ge_dst_port h,
      gd_IPVersion = ge_ip_version h, gd_Comm = ge_comm h, gd_Data = d\<rparr>"

lemma small_s32: "n \<le> 16384 \<Longrightarrow> unat (of_nat n :: s32) = n" "n \<le> 16384 \<Longrightarrow> sint (of_nat n :: s32) = int n"
proof -
  assume n: "n \<le> 16384"
  then show u: "unat (of_nat n :: s32) = n" by (simp add: unsigned_of_nat take_bit_nat_eq_self)
  have "unat (of_nat n :: s32) < 2 ^ 31" using n u by simp
  then show "sint (of_nat n :: s32) = int n" using u by (simp add: sint_small del: of_nat_unat)
qed

lemma le_word_enc1: "(le_word (le_enc (Suc 0) (w :: u8)) :: u8) = w"
  using le_word_enc_u8 [of w] by simp

lemma decode_event:
  assumes "gotls_event_wf e" and "ge_data_len e = of_nat n" and "0 < n" and "n \<le> 16384"
  shows "GoTLSDataEvent_DecodeFromBytes now (go_tls_event_bytes e) = Inr (gotls_decoded now e (take n (ge_data e)))"
proof -
  have "binary_read n (ge_data e @ replicate 4 0) = Inr (take n (ge_data e), drop n (ge_data e) @ replicate 4 0)"
    using assms(1,4) by (intro binary_read_prefix) (simp add: gotls_event_wf_def)
  then show ?thesis
    using assms small_s32 [OF assms(4)]
    by (simp add: GoTLSDataEvent_DecodeFromBytes_def go_tls_event_bytes_def gotls_event_wf_def binary_read_append
        TASK_COMM_LEN_def maxGoTLSPayload_def gotls_decoded_def le_word_enc1)
qed

lemma seg_event_members:
  assumes "gotls_hdr y = gotls_hdr e"
  shows "gotls_decoded now (seg_event y d) = gotls_decoded now (gotls_hdr e)"
    and "gotls_event_wf e \<Longrightarrow> length (ge_data y) = 16384 \<Longrightarrow> length d \<le> 16384 \<Longrightarrow> gotls_event_wf (seg_event y d)"
    and "ge_pid (seg_event y d) = ge_pid e"
  using assms by (cases y; cases e; simp add: gotls_hdr_def seg_event_def gotls_event_wf_def gotls_decoded_def fun_eq_iff)+

lemma decode_segments:
  assumes "gotls_event_wf e" and "n \<le> 16384"
    and "list_all2 (\<lambda>x d. \<exists>y. x = seg_event y d \<and> gotls_hdr y = gotls_hdr e \<and> length (ge_data y) = 16384) new (chunks n p)"
  shows "map (GoTLSDataEvent_DecodeFromBytes now \<circ> go_tls_event_bytes) new =
    map (Inr \<circ> gotls_decoded now (gotls_hdr e)) (chunks n p)"
proof -
  have "list_all2 (\<lambda>x d. (GoTLSDataEvent_DecodeFromBytes now \<circ> go_tls_event_bytes) x =
      (Inr \<circ> gotls_decoded now (gotls_hdr e)) d) new (chunks n p)"
    using assms(3)
  proof (rule list.rel_mono_strong)
    fix x d
    assume d: "d \<in> set (chunks n p)"
      and "\<exists>y. x = seg_event y d \<and> gotls_hdr y = gotls_hdr e \<and> length (ge_data y) = 16384"
    then obtain y where y: "x = seg_event y d" "gotls_hdr y = gotls_hdr e" "length (ge_data y) = 16384" by auto
    have l: "0 < length d" "length d \<le> 16384" using chunks_length [OF d] assms(2) by auto
    have "GoTLSDataEvent_DecodeFromBytes now (go_tls_event_bytes x) =
        Inr (gotls_decoded now x (take (length d) (ge_data x)))"
      using seg_event_members(2) [OF y(2) assms(1) y(3) l(2)] l y(1) by (intro decode_event) (simp_all add: seg_event_def)
    then show "(GoTLSDataEvent_DecodeFromBytes now \<circ> go_tls_event_bytes) x =
        (Inr \<circ> gotls_decoded now (gotls_hdr e)) d"
      using seg_event_members(1) [OF y(2)] y(1) by simp
  qed
  then show ?thesis by (simp add: list_all2_map1 list_all2_map2 list.rel_eq [symmetric])
qed

lemma GetData_decoded: "length d \<le> 16384 \<Longrightarrow> GoTLSDataEvent_GetData (gotls_decoded now h d) = d"
  by (simp add: GoTLSDataEvent_GetData_def gotls_decoded_def small_s32 Let_def)

text \<open>The whole payload: sixteen segments are enough for what is left of it after the clip.\<close>

lemma gotls_emit_payload_readable:
  assumes "base \<noteq> 0" and len: "0 < sint tlen" and mem: "read_mem (k_user k) (min (unat tlen) 262144) base = Some payload"
    and e: "length (ge_data e) = 16384"
  obtains e' new where "gotls_emit_payload k e base tlen ty s =
      (s\<lparr>gs_gte_context_gen := (gs_gte_context_gen s)(k_cpu k := e'), gs_events := gs_events s @ new\<rparr>, 0)"
    and "gotls_hdr e' = gotls_hdr (e\<lparr>ge_event_type := ty\<rparr>)" and "length (ge_data e') = 16384"
    and "list_all2 (\<lambda>x d. \<exists>y. x = seg_event y d \<and> gotls_hdr y = gotls_hdr (e\<lparr>ge_event_type := ty\<rparr>) \<and> length (ge_data y) = 16384)
      new (chunks 16384 payload)"
proof -
  define tot :: u32 where "tot = (if tlen > 262144 then 262144 else tlen)"
  have ut: "unat tot = min (unat tlen) 262144" by (simp add: tot_def word_less_nat_alt)
  have l: "length payload = unat tot" using length_read_mem [OF mem] ut by simp
  have mem': "read_mem (k_user k) (unat tot) base = Some payload" using mem ut by simp
  have idx: "[0, 1, 2, 3, 4, 5, 6, 7, 8, 9, 10, 11, 12, 13, 14, 15] = [0..<16::nat]" by (simp add: upt_rec)
  have pl: "take (16 * 16384) payload = payload" using l ut by simp
  obtain e' new where f: "fold (GOTLS_EMIT_SEG k base tot 16384) [0..<16] (e\<lparr>ge_event_type := ty\<rparr>, gs_events s) = (e', gs_events s @ new)"
    "gotls_hdr e' = gotls_hdr (e\<lparr>ge_event_type := ty\<rparr>)" "length (ge_data e') = 16384"
    "list_all2 (\<lambda>x d. \<exists>y. x = seg_event y d \<and> gotls_hdr y = gotls_hdr (e\<lparr>ge_event_type := ty\<rparr>) \<and> length (ge_data y) = 16384)
      new (chunks 16384 (take (16 * 16384) payload))"
    using fold_segments [OF le_refl mem', of "e\<lparr>ge_event_type := ty\<rparr>" "gs_events s"] e by auto
  have "gotls_emit_payload k e base tlen ty s =
      (s\<lparr>gs_gte_context_gen := (gs_gte_context_gen s)(k_cpu k := e'), gs_events := gs_events s @ new\<rparr>, 0)"
    using assms(1) len f(1) unfolding gotls_emit_payload_def idx Let_def MAX_DATA_SIZE_OPENSSL_def GOTLS_MAX_SEGMENTS_def
    by (cases "tlen > 262144") (simp_all add: tot_def)
  then show thesis using that f(2-4) unfolding pl by blast
qed

text \<open>
  The call a hook sees: the type of the events, the \<open>tls.Conn\<close>, the buffer and its length.
\<close>

definition gotls_call ::
    "(rodata \<Rightarrow> kernel \<Rightarrow> pt_regs \<Rightarrow> gotls_state \<Rightarrow> gotls_state \<times> int) \<Rightarrow> kernel \<Rightarrow> pt_regs \<Rightarrow>
     u8 \<Rightarrow> u64 \<Rightarrow> u64 \<Rightarrow> s32 \<Rightarrow> bool" where
  "gotls_call hook k ctx ty conn str len \<longleftrightarrow>
     (\<exists>abi. hook = gotls_write abi \<and> ty = GOTLS_EVENT_TYPE_WRITE \<and>
        ucast (go_get_argument k ctx abi 2) = recordTypeApplicationData \<and>
        conn = go_get_argument k ctx abi 1 \<and> str = go_get_argument k ctx abi 3 \<and>
        len = ucast (go_get_argument k ctx abi 4)) \<or>
     (\<exists>abi. hook = gotls_read abi \<and> ty = GOTLS_EVENT_TYPE_READ \<and>
        conn = go_get_argument k ctx False 1 \<and> str = go_get_argument k ctx False 2 \<and>
        len = ucast (go_get_argument k ctx abi (if abi then 1 else 5)))"

lemma gotls_call_eq:
  assumes "gotls_call hook k ctx ty conn str len" and "passes_filter c k (Some ctx)" and "str \<noteq> 0" and "0 < sint len"
    and "get_gotls_event k s = Some e"
  shows "hook c k ctx s = gotls_emit_payload k (fill_fd_and_addr_from_tls_conn k conn e) str len ty s"
proof -
  have "len \<noteq> 0" using assms(4) by auto
  with assms show ?thesis by (auto simp: gotls_call_def gotls_write_def gotls_read_def Let_def word_le_nat_alt unat_eq_0)
qed

lemma gotls_call_delivers:
  assumes call: "gotls_call hook k ctx ty conn str len" "passes_filter c k (Some ctx)" "str \<noteq> 0" "0 < sint len"
    and mem: "read_mem (k_user k) (min (unat len) 262144) str = Some payload"
    and wf: "gotls_event_wf (gs_gte_context_gen s (k_cpu k))" and comm: "length (k_comm k) = TASK_COMM_LEN"
  obtains e' new where
      "hook c k ctx s = (s\<lparr>gs_gte_context_gen := (gs_gte_context_gen s)(k_cpu k := e'), gs_events := gs_events s @ new\<rparr>, 0)"
    and "map (GoTLSDataEvent_DecodeFromBytes now \<circ> go_tls_event_bytes) new =
      map (Inr \<circ> gotls_decoded now (gotls_call_header k conn ty)) (chunks 16384 payload)"
proof -
  obtain e where e: "get_gotls_event k s = Some e" "gotls_hdr e = gotls_hdr0 k" "length (ge_data e) = 16384"
    using wf by (rule get_gotls_event_hdr)
  let ?e = "fill_fd_and_addr_from_tls_conn k conn e"
  have hdr: "gotls_hdr (?e\<lparr>ge_event_type := ty\<rparr>) = gotls_call_header k conn ty"
    by (simp add: gotls_call_header_def fill_hdr [symmetric] e(2))
  have len: "length (ge_data ?e) = 16384" using e(3) by (simp add: fill_frame)
  have "ge_pad (gotls_hdr e) = replicate 3 0" "ge_pad2 (gotls_hdr e) = 0" "ge_pad3 (gotls_hdr e) = 0"
    "length (ge_src_ip (gotls_hdr e)) = 16" "length (ge_dst_ip (gotls_hdr e)) = 16" "ge_comm (gotls_hdr e) = k_comm k"
    unfolding e(2) by (simp_all add: gotls_hdr0_def go_tls_event_zero_def)
  then have wf_e: "gotls_event_wf (?e\<lparr>ge_event_type := ty\<rparr>)"
    using e(3) comm by (simp add: gotls_event_wf_def fill_frame gotls_hdr_def)
  obtain e' new where emit: "gotls_emit_payload k ?e str len ty s =
      (s\<lparr>gs_gte_context_gen := (gs_gte_context_gen s)(k_cpu k := e'), gs_events := gs_events s @ new\<rparr>, 0)"
    and "gotls_hdr e' = gotls_hdr (?e\<lparr>ge_event_type := ty\<rparr>)" and "length (ge_data e') = 16384"
    and new: "list_all2 (\<lambda>x d. \<exists>y. x = seg_event y d \<and> gotls_hdr y = gotls_hdr (?e\<lparr>ge_event_type := ty\<rparr>) \<and>
      length (ge_data y) = 16384) new (chunks 16384 payload)"
    by (rule gotls_emit_payload_readable [OF call(3,4) mem len])
  show thesis
    by (rule that [OF _ decode_segments [OF wf_e le_refl new, unfolded hdr]]) (simp only: gotls_call_eq [OF call e(1)] emit)
qed

section \<open>Invariant\<close>

definition gotls_inv :: "rodata \<Rightarrow> gotls_state \<Rightarrow> bool" where
  "gotls_inv c s \<longleftrightarrow> (\<forall>i. gotls_event_wf (gs_gte_context_gen s i)) \<and>
     (\<forall>e \<in> set (gs_events s). gotls_event_wf e \<and> 0 < sint (ge_data_len e) \<and> sint (ge_data_len e) \<le> 16384 \<and>
        pid_wanted c (ge_pid e)) \<and>
     (\<forall>m \<in> set (gs_mastersecret_go_events s). length (mg_label m) = 32 \<and> last (mg_label m) = 0 \<and>
        length (mg_client_random m) = 64 \<and> length (mg_secret m) = 64)"

text \<open>
  C2: A Go process's TLS payload reaches user space intact. Whatever the per-CPU buffer held before,
  a write of application data, or a read that returned data, of an accepted process is reported as
  the consecutive 16 KiB pieces of its first 256 KiB: every event of the run decodes, the events
  carry the header of this call, and the data of the decoded events put together is the payload.
\<close>

theorem gotls_payload_delivered:
  assumes "gotls_inv c s" and "length (k_comm k) = TASK_COMM_LEN"
    and "gotls_call hook k ctx ty conn str len" and "passes_filter c k (Some ctx)"
    and "str \<noteq> 0" and "0 < sint len"
    and "read_mem (k_user k) (min (unat len) 262144) str = Some payload"
  shows "\<exists>new. gs_events (fst (hook c k ctx s)) = gs_events s @ new \<and>
    map (GoTLSDataEvent_DecodeFromBytes now \<circ> go_tls_event_bytes) new =
      map (Inr \<circ> gotls_decoded now (gotls_call_header k conn ty)) (chunks 16384 payload) \<and>
    concat (map (\<lambda>e. case GoTLSDataEvent_DecodeFromBytes now (go_tls_event_bytes e) of
      Inl _ \<Rightarrow> [] | Inr d \<Rightarrow> GoTLSDataEvent_GetData d) new) = payload"
proof -
  have wf: "gotls_event_wf (gs_gte_context_gen s (k_cpu k))" using assms(1) by (simp add: gotls_inv_def)
  obtain e' new where r: "hook c k ctx s = (s\<lparr>gs_gte_context_gen := (gs_gte_context_gen s)(k_cpu k := e'),
      gs_events := gs_events s @ new\<rparr>, 0)"
    and dec: "map (GoTLSDataEvent_DecodeFromBytes now \<circ> go_tls_event_bytes) new =
      map (Inr \<circ> gotls_decoded now (gotls_call_header k conn ty)) (chunks 16384 payload)"
    by (rule gotls_call_delivers [OF assms(3-7) wf assms(2)])
  let ?data = "\<lambda>r. case r of Inl (_ :: decode_error) \<Rightarrow> [] | Inr d \<Rightarrow> GoTLSDataEvent_GetData d"
  have "map (\<lambda>e. ?data (GoTLSDataEvent_DecodeFromBytes now (go_tls_event_bytes e))) new =
      map ?data (map (GoTLSDataEvent_DecodeFromBytes now \<circ> go_tls_event_bytes) new)" by simp
  also have "\<dots> = chunks 16384 payload"
    unfolding dec by (simp, rule map_idI) (simp, metis GetData_decoded chunks_length)
  finally show ?thesis using r dec by (auto simp: concat_chunks)
qed

text \<open>What every run keeps, also when parts of the process's memory cannot be read.\<close>

definition event_of :: "u32 \<Rightarrow> go_tls_event \<Rightarrow> bool" where
  "event_of p e \<longleftrightarrow> gotls_event_wf e \<and> ge_pid e = p"

definition sent_of :: "u32 \<Rightarrow> go_tls_event \<Rightarrow> bool" where
  "sent_of p e \<longleftrightarrow> event_of p e \<and> 0 < sint (ge_data_len e) \<and> sint (ge_data_len e) \<le> 16384"

lemma GOTLS_EMIT_SEG_inv:
  assumes "event_of p e"
  shows "\<exists>e' new. GOTLS_EMIT_SEG k base tot 16384 j (e, es) = (e', es @ new) \<and> event_of p e' \<and> (\<forall>x \<in> set new. sent_of p x)"
proof -
  define off :: u32 where "off = of_nat j * 16384"
  define chunk where "chunk = (if tot - off < 16384 then (tot - off) AND (16384 - 1) else (16384 :: u32))"
  have le: "unat chunk \<le> 16384" unfolding chunk_def by (simp only: unat_seg_chunk)
  then have eq: "sint chunk = int (unat chunk)" by (intro sint_small) simp
  have c: "sint chunk \<le> 16384" using le unfolding eq by linarith
  have ev: "event_of p (e\<lparr>ge_data_len := chunk, ge_data := snd (probe_read_user_n k n (ge_data e) a)\<rparr>)" for n a
    using assms by (simp add: event_of_def gotls_event_wf_def)
  have sent: "0 < chunk \<Longrightarrow> sent_of p (e\<lparr>ge_data_len := chunk, ge_data := snd (probe_read_user_n k n (ge_data e) a)\<rparr>)" for n a
    using ev [of n a] c by (simp add: sent_of_def word_less_nat_alt eq del: of_nat_unat)
  show ?thesis
    using assms ev sent unfolding GOTLS_EMIT_SEG_def Let_def off_def [symmetric] chunk_def [symmetric]
    by (auto simp: case_prod_beta)
qed

lemma fold_segments_inv:
  "event_of p e \<Longrightarrow> \<exists>e' new. fold (GOTLS_EMIT_SEG k base tot 16384) js (e, es) = (e', es @ new) \<and>
     event_of p e' \<and> (\<forall>x \<in> set new. sent_of p x)"
proof (induction js arbitrary: e es)
  case (Cons j js)
  obtain e1 n1 where 1: "GOTLS_EMIT_SEG k base tot 16384 j (e, es) = (e1, es @ n1)" "event_of p e1" "\<forall>x \<in> set n1. sent_of p x"
    using GOTLS_EMIT_SEG_inv [OF Cons.prems] by metis
  obtain e2 n2 where "fold (GOTLS_EMIT_SEG k base tot 16384) js (e1, es @ n1) = (e2, (es @ n1) @ n2)" "event_of p e2"
      "\<forall>x \<in> set n2. sent_of p x" using Cons.IH [OF 1(2)] by metis
  with 1 show ?case by (intro exI [of _ e2] exI [of _ "n1 @ n2"]) auto
qed simp

lemma gotls_emit_payload_inv:
  assumes "event_of p e" and "gotls_inv c s" and "pid_wanted c p"
  shows "gotls_inv c (fst (gotls_emit_payload k e base tlen ty s))"
proof -
  have e: "event_of p (e\<lparr>ge_event_type := ty\<rparr>)" using assms(1) by (simp add: event_of_def gotls_event_wf_def)
  have tot: "\<exists>e' new. fold (GOTLS_EMIT_SEG k base tot 16384) js (e\<lparr>ge_event_type := ty\<rparr>, gs_events s) = (e', gs_events s @ new) \<and>
     event_of p e' \<and> (\<forall>x \<in> set new. sent_of p x)" for tot js
    using fold_segments_inv [OF e] by blast
  have keep: "gotls_inv c (s\<lparr>gs_gte_context_gen := (gs_gte_context_gen s)(k_cpu k := e'), gs_events := gs_events s @ new\<rparr>)"
    if "event_of p e'" "\<forall>x \<in> set new. sent_of p x" for e' new
    using that assms(2,3) by (auto simp: gotls_inv_def event_of_def sent_of_def)
  show ?thesis
  proof (cases "base = 0 \<or> sint tlen \<le> 0")
    case True
    then show ?thesis using keep [of e "[]"] assms(1) by (simp add: gotls_emit_payload_def)
  next
    case False
    obtain e' new where f: "fold (GOTLS_EMIT_SEG k base (if tlen > 16384 * of_nat 16 then 16384 * of_nat 16 else tlen) 16384)
        [0, 1, 2, 3, 4, 5, 6, 7, 8, 9, 10, 11, 12, 13, 14, 15] (e\<lparr>ge_event_type := ty\<rparr>, gs_events s) = (e', gs_events s @ new)"
      "event_of p e'" "\<forall>x \<in> set new. sent_of p x"
      using tot by blast
    have mx: "MAX_DATA_SIZE_OPENSSL = 16384" by (simp add: MAX_DATA_SIZE_OPENSSL_def)
    show ?thesis
      using False keep [OF f(2,3)] unfolding gotls_emit_payload_def Let_def GOTLS_MAX_SEGMENTS_def mx
      by (simp only: f(1) prod.case if_False fst_conv)
  qed
qed

lemma get_gotls_event_of:
  assumes "gotls_inv c s" and "length (k_comm k) = TASK_COMM_LEN" and "get_gotls_event k s = Some e"
  shows "event_of (cur_pid k) (fill_fd_and_addr_from_tls_conn k p e)"
  using assms by (auto simp: event_of_def fill_frame gotls_event_wf_def get_gotls_event_def Let_def gotls_inv_def
      TASK_COMM_LEN_def cur_pid_def)

lemma gotls_data_hooks_inv:
  assumes "gotls_inv c s" and "length (k_comm k) = TASK_COMM_LEN"
  shows "gotls_inv c (fst (gotls_write abi c k ctx s))" and "gotls_inv c (fst (gotls_read abi c k ctx s))"
  using assms(1)
  by (auto simp: gotls_write_def gotls_read_def Let_def split: option.split
      intro!: gotls_emit_payload_inv [OF get_gotls_event_of [OF assms]] dest: passes_filter_pid)

text \<open>The label: a Go string has no terminator, the helper reads on until a NUL or the buffer is full.\<close>

lemma length_user_str: "user_str m n a = Some bs \<Longrightarrow> length bs \<le> n"
  by (induction n arbitrary: a bs) (auto split: option.splits if_splits)

lemma user_str_prefix:
  "user_str m n a = Some bs \<Longrightarrow> read_mem m (length lab) a = Some lab \<Longrightarrow> 0 \<notin> set lab \<Longrightarrow> length lab \<le> n \<Longrightarrow>
   length lab \<le> length bs \<and> take (length lab) bs = lab"
proof (induction n arbitrary: a bs lab)
  case (Suc n)
  show ?case
  proof (cases lab)
    case (Cons b lab')
    with Suc.prems obtain bs' where "m a = Some b" "bs = b # bs'" "user_str m n (a + 1) = Some bs'"
      "read_mem m (length lab') (a + 1) = Some lab'" by (auto split: option.splits if_splits)
    with Suc.IH [of "a + 1" bs' lab'] Suc.prems Cons show ?thesis by auto
  qed simp
qed simp

lemma probe_read_user_str_zero:
  assumes "probe_read_user_str k (replicate n 0) a = (r, bs)" and "0 \<le> r" and "0 < n"
  shows "length bs = n" and "last bs = 0"
    and "\<exists>cs. user_str (k_user k) n a = Some cs \<and> take (n - 1) bs = take (n - 1) cs @ replicate (n - 1 - length cs) 0"
proof -
  obtain cs where cs: "user_str (k_user k) n a = Some cs" and bs: "bs = take (n - 1) cs @ 0 # drop (length (take (n - 1) cs) + 1) (replicate n 0)"
    using assms(1,2) by (auto simp: probe_read_user_str_def EFAULT_def Let_def split: option.splits)
  have l: "length (take (n - 1) cs) \<le> n - 1" by simp
  have bs': "bs = take (n - 1) cs @ replicate (n - length (take (n - 1) cs)) 0"
    using bs l assms(3) by (simp add: Cons_replicate_eq Suc_diff_Suc flip: replicate_Suc)
  show "length bs = n" using bs' l assms(3) by simp
  show "last bs = 0" using bs' l assms(3) by (auto simp: last_append)
  show "\<exists>cs. user_str (k_user k) n a = Some cs \<and> take (n - 1) bs = take (n - 1) cs @ replicate (n - 1 - length cs) 0"
    using cs bs' by (auto simp: min_def)
qed

lemma gotls_mastersecret_inv:
  assumes "gotls_inv c s"
  shows "gotls_inv c (fst (gotls_mastersecret abi c k ctx s))"
proof -
  obtain r1 label where l: "probe_read_user_str k (replicate 32 0) (go_get_argument k ctx abi 2) = (r1, label)" by fastforce
  have "length label = 32 \<and> last label = 0" if "\<not> r1 < 0"
    using probe_read_user_str_zero [OF l] that by simp
  then show ?thesis
    using assms l by (auto simp: gotls_mastersecret_def mastersecret_gotls_zero_def MASTER_SECRET_KEY_LEN_def
        EVP_MAX_MD_SIZE_gotls_def Let_def case_prod_beta gotls_inv_def)
qed

inductive gotls_step :: "rodata \<Rightarrow> kernel \<Rightarrow> gotls_state \<Rightarrow> gotls_state \<Rightarrow> bool" for c where
  go_write_register: "gotls_step c k s (fst (gotls_write_register c k ctx s))"
| go_write_stack: "gotls_step c k s (fst (gotls_write_stack c k ctx s))"
| go_read_register: "gotls_step c k s (fst (gotls_read_register c k ctx s))"
| go_read_stack: "gotls_step c k s (fst (gotls_read_stack c k ctx s))"
| go_mastersecret_register: "gotls_step c k s (fst (gotls_mastersecret_register c k ctx s))"
| go_mastersecret_stack: "gotls_step c k s (fst (gotls_mastersecret_stack c k ctx s))"

inductive gotls_reachable :: "rodata \<Rightarrow> gotls_state \<Rightarrow> bool" for c where
  go_start: "gotls_reachable c gotls_init"
| go_more: "gotls_reachable c s \<Longrightarrow> length (k_comm k) = TASK_COMM_LEN \<Longrightarrow> gotls_step c k s t \<Longrightarrow> gotls_reachable c t"

lemma gotls_step_inv: "gotls_step c k s t \<Longrightarrow> gotls_inv c s \<Longrightarrow> length (k_comm k) = TASK_COMM_LEN \<Longrightarrow> gotls_inv c t"
  by (cases rule: gotls_step.cases, assumption)
    (simp_all add: gotls_hook_defs gotls_data_hooks_inv gotls_mastersecret_inv)

lemma gotls_inv_init: "gotls_inv c gotls_init"
  by (simp add: gotls_inv_def gotls_init_def gotls_event_wf_def go_tls_event_zero_def)

text \<open>
  C27: In every state the six programs of the Go object can reach, whatever memory they could not
  read, the per-CPU buffer keeps its sizes and zero padding, every data event announces between 1
  and 16384 bytes and belongs to a process the pid filter wants, and every key-log event has a
  terminated label and full-sized fields.
\<close>

theorem gotls_reachable_invariant:
  assumes "gotls_reachable c s"
  shows "gotls_inv c s"
  using assms by (induction rule: gotls_reachable.induct) (auto intro: gotls_inv_init gotls_step_inv)

section \<open>The connection of a call\<close>

text \<open>
  A connected \<open>tls.Conn\<close> in the memory of the process, as the Go run-time lays it out: the
  \<open>net.Conn\<close> interface, the \<open>netFD\<close> with the descriptor and two \<open>*net.TCPAddr\<close>, and their slices
  and ports.
\<close>

definition go_addr_holds :: "memory \<Rightarrow> u64 \<Rightarrow> bytes \<Rightarrow> u16 \<Rightarrow> bool" where
  "go_addr_holds m a ip port \<longleftrightarrow> (\<exists>p. read_mem m 8 a = Some (le_enc 8 (p :: u64)) \<and>
     read_mem m 8 (a + 8) = Some (le_enc 8 (of_nat (length ip) :: u64)) \<and> read_mem m (length ip) p = Some ip \<and>
     read_mem m 8 (a + 24) = Some (le_enc 8 (ucast port :: u64)))"

definition go_conn_holds :: "memory \<Rightarrow> u64 \<Rightarrow> u32 \<Rightarrow> bytes \<Rightarrow> u16 \<Rightarrow> bytes \<Rightarrow> u16 \<Rightarrow> bool" where
  "go_conn_holds m conn fd sip sport dip dport \<longleftrightarrow> conn \<noteq> 0 \<and>
     (\<exists>nc nfd la ra :: u64. nc \<noteq> 0 \<and> nfd \<noteq> 0 \<and> la \<noteq> 0 \<and> ra \<noteq> 0 \<and>
        read_mem m 8 (conn + 8) = Some (le_enc 8 nc) \<and> read_mem m 8 nc = Some (le_enc 8 nfd) \<and>
        read_mem m 8 (nfd + 16) = Some (le_enc 8 (ucast fd :: u64)) \<and>
        read_mem m 8 (nfd + 104) = Some (le_enc 8 la) \<and> read_mem m 8 (nfd + 120) = Some (le_enc 8 ra) \<and>
        go_addr_holds m la sip sport \<and> go_addr_holds m ra dip dport)"

lemma ucast_u64_nonneg: "0 \<le> sint (ucast (fd :: u32) :: u64)"
  using bit_imp_le_length [of fd 63] by (auto simp: sint_uint bit_unsigned_iff unsigned_ucast_eq bit_take_bit_iff)

lemma ucast_u16_u64: "(ucast (ucast (p :: u16) :: u64) :: u16) = p"
  by (rule bit_word_eqI) (auto simp: bit_simps)

lemma extract_ips_ok:
  assumes "read_mem (k_user k) n l = Some sip" and "read_mem (k_user k) n r = Some dip" and "n \<le> 16"
    and "ge_src_ip e = replicate 16 0" and "ge_dst_ip e = replicate 16 0"
  shows "extract_ips k n l r e = (True, e\<lparr>ge_src_ip := sip @ replicate (16 - n) 0, ge_dst_ip := dip @ replicate (16 - n) 0\<rparr>)"
  using assms by (simp add: extract_ips_def probe_read_user_n_ok Let_def)

text \<open>
  An event names the connection it was captured on: when the tls.Conn of the call is a connected
  TCP connection in the process's memory, with both addresses IPv4 or both IPv6, the header of the
  call's events carries its descriptor, its local and remote address (zero-padded to 16 bytes),
  both ports and the IP version.
\<close>

theorem gotls_connection_reported:
  assumes "go_conn_holds (k_user k) conn fd sip sport dip dport"
    and "length sip = 4 \<and> length dip = 4 \<and> v = 4 \<or> length sip = 16 \<and> length dip = 16 \<and> v = 6"
  shows "gotls_call_header k conn ty = (gotls_hdr0 k)\<lparr>ge_fd := fd,
    ge_src_ip := sip @ replicate (16 - length sip) 0, ge_src_port := sport,
    ge_dst_ip := dip @ replicate (16 - length dip) 0, ge_dst_port := dport,
    ge_ip_version := v, ge_event_type := ty\<rparr>"
proof -
  obtain nc nfd la ra :: u64 where p: "conn \<noteq> 0" "nc \<noteq> 0" "nfd \<noteq> 0" "la \<noteq> 0" "ra \<noteq> 0"
    and m: "read_mem (k_user k) 8 (conn + 8) = Some (le_enc 8 nc)" "read_mem (k_user k) 8 nc = Some (le_enc 8 nfd)"
      "read_mem (k_user k) 8 (nfd + 16) = Some (le_enc 8 (ucast fd :: u64))"
      "read_mem (k_user k) 8 (nfd + 104) = Some (le_enc 8 la)" "read_mem (k_user k) 8 (nfd + 120) = Some (le_enc 8 ra)"
    and ad: "go_addr_holds (k_user k) la sip sport" "go_addr_holds (k_user k) ra dip dport"
    using assms(1) by (auto simp: go_conn_holds_def)
  obtain lp where l: "read_mem (k_user k) 8 la = Some (le_enc 8 (lp :: u64))"
      "read_mem (k_user k) 8 (la + 8) = Some (le_enc 8 (of_nat (length sip) :: u64))"
      "read_mem (k_user k) (length sip) lp = Some sip" "read_mem (k_user k) 8 (la + 24) = Some (le_enc 8 (ucast sport :: u64))"
    using ad(1) by (auto simp: go_addr_holds_def)
  obtain rp where r: "read_mem (k_user k) 8 ra = Some (le_enc 8 (rp :: u64))"
      "read_mem (k_user k) 8 (ra + 8) = Some (le_enc 8 (of_nat (length dip) :: u64))"
      "read_mem (k_user k) (length dip) rp = Some dip" "read_mem (k_user k) 8 (ra + 24) = Some (le_enc 8 (ucast dport :: u64))"
    using ad(2) by (auto simp: go_addr_holds_def)
  have fd: "extract_fd_from_netfd_ptr k nfd = fd"
    using m(3) ucast_u64_nonneg [of fd] by (simp add: extract_fd_from_netfd_ptr_def probe_user_word_ok)
  have nf: "get_netfd_ptr_from_tls_conn k conn = nfd"
    using p m by (simp add: get_netfd_ptr_from_tls_conn_def probe_user_word_ok)
  have offs: "nfd + 96 + 8 = nfd + 104" "nfd + 112 + 8 = nfd + 120" by (simp_all add: add.assoc)
  note addr_defs = gotls_call_header_def fill_fd_and_addr_from_tls_conn_def nf fd Let_def extract_addr_from_netfd_ptr_def offs
  have h0: "ge_src_ip (gotls_hdr0 k) = replicate 16 0" "ge_dst_ip (gotls_hdr0 k) = replicate 16 0"
    by (simp_all add: gotls_hdr0_def go_tls_event_zero_def)
  show ?thesis
    using assms(2)
  proof
    assume v: "length sip = 4 \<and> length dip = 4 \<and> v = 4"
    then show ?thesis
      using p m l r h0 unfolding addr_defs by (simp add: probe_user_word_ok extract_ips_ok ucast_u16_u64)
  next
    assume v: "length sip = 16 \<and> length dip = 16 \<and> v = 6"
    then show ?thesis
      using p m l r h0 unfolding addr_defs by (simp add: probe_user_word_ok extract_ips_ok ucast_u16_u64)
  qed
qed

section \<open>Key log\<close>

text \<open>The \<open>int\<close> and the \<open>u8\<close> of a length that is at most the width of the fields.\<close>

lemma go_len:
  assumes "n \<le> 64"
  shows "unat (ucast (of_nat n :: u64) :: s32) = n" and "unat (ucast (ucast (of_nat n :: u64) :: s32) :: u8) = n"
    and "0 < n \<Longrightarrow> 0 < sint (ucast (of_nat n :: u64) :: s32)"
proof -
  show n: "unat (ucast (of_nat n :: u64) :: s32) = n"
    using assms by (simp add: unsigned_ucast_eq unsigned_of_nat take_bit_nat_eq_self)
  show "unat (ucast (ucast (of_nat n :: u64) :: s32) :: u8) = n"
    using assms n by (simp add: unsigned_ucast_eq [of "ucast (of_nat n :: u64) :: s32"] take_bit_nat_eq_self)
  show "0 < n \<Longrightarrow> 0 < sint (ucast (of_nat n :: u64) :: s32)"
    using assms n by (subst sint_small) (simp_all del: of_nat_unat)
qed

text \<open>
  C10: A key-log line of an accepted Go process arrives as the process wrote it: when the label is a
  NUL-free string of at most 31 bytes and 64 bytes can be read at the client random and at the
  secret, one event is added, it decodes (also with trailing padding), and the label, client random
  and secret that the key-log writer takes from it are exactly the arguments of writeKeyLog.
\<close>

theorem gotls_keylog_delivered:
  assumes "passes_filter c k (Some ctx)"
    and "read_mem (k_user k) (length lab) (go_get_argument k ctx abi 2) = Some lab" and "0 \<notin> set lab"
    and "0 < length lab" and "length lab \<le> 31" and "go_get_argument k ctx abi 3 = of_nat (length lab)"
    and "user_str (k_user k) 32 (go_get_argument k ctx abi 2) \<noteq> None"
    and "read_mem (k_user k) 64 (go_get_argument k ctx abi 4) = Some cr"
    and "go_get_argument k ctx abi 5 = of_nat ncr" and "0 < ncr" and "ncr \<le> 64"
    and "read_mem (k_user k) 64 (go_get_argument k ctx abi 7) = Some sec"
    and "go_get_argument k ctx abi 8 = of_nat nsec" and "0 < nsec" and "nsec \<le> 64"
  shows "\<exists>m d. gs_mastersecret_go_events (fst (gotls_mastersecret abi c k ctx s)) = gs_mastersecret_go_events s @ [m] \<and>
    MasterSecretEvent_DecodeFromBytes (mastersecret_gotls_bytes m @ pad) = Inr d \<and>
    GetLabel d = Some lab \<and> GetClientRandom d = Some (take ncr cr) \<and> GetSecret d = Some (take nsec sec)"
proof -
  obtain r label where l: "probe_read_user_str k (replicate 32 0) (go_get_argument k ctx abi 2) = (r, label)" by fastforce
  have r: "\<not> r < 0" using l assms(7) by (auto simp: probe_read_user_str_def Let_def split: option.splits)
  obtain cs where cs: "user_str (k_user k) 32 (go_get_argument k ctx abi 2) = Some cs"
      "take 31 label = take 31 cs @ replicate (31 - length cs) 0" and ll: "length label = 32"
    using probe_read_user_str_zero [OF l] r by auto
  have "take (length lab) label = take (length lab) (take 31 label)" using assms(5) by (simp add: min_def)
  also have "\<dots> = lab"
    using user_str_prefix [OF cs(1) assms(2,3)] assms(5) cs(2) by (simp add: min_def)
  finally have lab: "take (length lab) label = lab" .
  have lens: "length cr = 64" "length sec = 64" using assms(8,12) by (simp_all add: length_read_mem)
  show ?thesis
    using assms(1,4-6,8-15) l r ll lens lab go_len [of "length lab"] go_len [of ncr] go_len [of nsec]
    by (simp add: gotls_mastersecret_def mastersecret_gotls_zero_def MASTER_SECRET_KEY_LEN_def EVP_MAX_MD_SIZE_gotls_def Let_def
        probe_read_user_ok MasterSecretEvent_DecodeFromBytes_def mastersecret_gotls_bytes_def binary_read_append
        GetLabel_def GetClientRandom_def GetSecret_def go_slice_def)
qed

text \<open>
  C34: The client random and the secret are read with the full 64 bytes of their fields, whatever their lengths. A
  call of an accepted process whose label can be read, with lengths that fit the fields, is reported if and only
  if 64 bytes can be read at both pointers: when fewer are mapped at either, nothing is reported, also when
  the client random's and the secret's own bytes are all there.
\<close>

theorem gotls_keylog_overread_lost:
  assumes "passes_filter c k (Some ctx)" and "user_str (k_user k) 32 (go_get_argument k ctx abi 2) \<noteq> None"
    and "go_get_argument k ctx abi 3 = of_nat nlab" and "0 < nlab" and "nlab \<le> 31"
    and "go_get_argument k ctx abi 5 = of_nat ncr" and "0 < ncr" and "ncr \<le> 64"
    and "go_get_argument k ctx abi 8 = of_nat nsec" and "0 < nsec" and "nsec \<le> 64"
  shows "gotls_mastersecret abi c k ctx s = (s, 0) \<longleftrightarrow>
    read_mem (k_user k) 64 (go_get_argument k ctx abi 4) = None \<or> read_mem (k_user k) 64 (go_get_argument k ctx abi 7) = None"
proof
  assume "read_mem (k_user k) 64 (go_get_argument k ctx abi 4) = None \<or> read_mem (k_user k) 64 (go_get_argument k ctx abi 7) = None"
  then show "gotls_mastersecret abi c k ctx s = (s, 0)"
    by (auto simp: gotls_mastersecret_def mastersecret_gotls_zero_def EVP_MAX_MD_SIZE_gotls_def Let_def case_prod_beta
        probe_read_user_fail EFAULT_def)
next
  obtain r label where l: "probe_read_user_str k (replicate 32 0) (go_get_argument k ctx abi 2) = (r, label)" by fastforce
  have r: "\<not> r < 0" using l assms(2) by (auto simp: probe_read_user_str_def Let_def split: option.splits)
  have noteq: "s\<lparr>gs_mastersecret_go_events := gs_mastersecret_go_events s @ [m]\<rparr> \<noteq> s" for m
    by (cases s) simp
  assume lost: "gotls_mastersecret abi c k ctx s = (s, 0)"
  show "read_mem (k_user k) 64 (go_get_argument k ctx abi 4) = None \<or> read_mem (k_user k) 64 (go_get_argument k ctx abi 7) = None"
  proof (rule ccontr)
    assume "\<not> (read_mem (k_user k) 64 (go_get_argument k ctx abi 4) = None \<or> read_mem (k_user k) 64 (go_get_argument k ctx abi 7) = None)"
    then obtain cr sec where "read_mem (k_user k) 64 (go_get_argument k ctx abi 4) = Some cr"
        "read_mem (k_user k) 64 (go_get_argument k ctx abi 7) = Some sec" by auto
    with lost assms l r go_len(3) [of nlab] go_len(3) [of ncr] go_len(3) [of nsec] noteq show False
      by (simp add: gotls_mastersecret_def mastersecret_gotls_zero_def EVP_MAX_MD_SIZE_gotls_def MASTER_SECRET_KEY_LEN_def Let_def
          probe_read_user_ok)
  qed
qed

section \<open>Sample inputs\<close>

text \<open>
  A Go process: a \<open>tls.Conn\<close> at 4096 with descriptor 7, connected from 10.0.0.1:50000 to 10.0.0.2:443,
  a two-byte payload at 32768, and the arguments of a key-log line.
\<close>

definition go_label :: bytes where
  "go_label = [67, 76, 73, 69, 78, 84, 95, 82, 65, 78, 68, 79, 77]"

definition go_user :: memory where
  "go_user = poke 4104 (le_enc 8 (8192 :: u64)) (poke 8192 (le_enc 8 (12288 :: u64))
     (poke 12304 (le_enc 8 (7 :: u64)) (poke 12392 (le_enc 8 (16384 :: u64)) (poke 12408 (le_enc 8 (20480 :: u64))
     (poke 16384 (le_enc 8 (24576 :: u64)) (poke 16392 (le_enc 8 (4 :: u64)) (poke 16408 (le_enc 8 (50000 :: u64))
     (poke 20480 (le_enc 8 (28672 :: u64)) (poke 20488 (le_enc 8 (4 :: u64)) (poke 20504 (le_enc 8 (443 :: u64))
     (poke 24576 [10, 0, 0, 1] (poke 28672 [10, 0, 0, 2] (poke 32768 [72, 105]
     (poke 36864 (go_label @ replicate 19 0) (poke 40960 (replicate 64 1) (poke 45056 (replicate 64 2)
     (\<lambda>_. None)))))))))))))))))"

abbreviation go_kernel :: kernel where
  "go_kernel \<equiv> kernel0\<lparr>k_user := go_user\<rparr>"

abbreviation go_write_regs :: pt_regs where
  "go_write_regs \<equiv> X86 (regs0\<lparr>x_ax := 4096, x_bx := 23, x_cx := 32768, x_di := 2\<rparr>)"

abbreviation go_keylog_regs :: pt_regs where
  "go_keylog_regs \<equiv> X86 (regs0\<lparr>x_bx := 36864, x_cx := 13, x_di := 40960, x_si := 32, x_r9 := 45056, x_r10 := 48\<rparr>)"

lemma rodata_passes: "passes_filter rodata_default k r"
  by (simp add: passes_filter_def rodata_default_def)

lemma go_user_data: "read_mem go_user 2 32768 = Some [72, 105]"
  "read_mem go_user 32 36864 = Some (go_label @ replicate 19 0)"
  "read_mem go_user 64 40960 = Some (replicate 64 1)" "read_mem go_user 64 45056 = Some (replicate 64 2)"
  by (simp_all add: go_user_def go_label_def read_mem_pokes del: poke.simps)

lemma go_user_conn: "go_conn_holds go_user 4096 7 [10, 0, 0, 1] 50000 [10, 0, 0, 2] 443"
proof -
  have len: "length [10, 0, 0, x :: u8] = 4" for x by simp
  have "go_addr_holds go_user 16384 [10, 0, 0, 1] 50000" unfolding go_addr_holds_def len
    by (intro exI [of _ 24576] conjI) (simp_all add: go_user_def read_mem_pokes del: poke.simps)
  moreover have "go_addr_holds go_user 20480 [10, 0, 0, 2] 443" unfolding go_addr_holds_def len
    by (intro exI [of _ 28672] conjI) (simp_all add: go_user_def read_mem_pokes del: poke.simps)
  moreover have "read_mem go_user 8 4104 = Some (le_enc 8 (8192 :: u64))" "read_mem go_user 8 8192 = Some (le_enc 8 (12288 :: u64))"
    "read_mem go_user 8 12304 = Some (le_enc 8 (7 :: u64))" "read_mem go_user 8 12392 = Some (le_enc 8 (16384 :: u64))"
    "read_mem go_user 8 12408 = Some (le_enc 8 (20480 :: u64))"
    by (simp_all add: go_user_def read_mem_pokes del: poke.simps)
  ultimately show ?thesis
    unfolding go_conn_holds_def
    by (intro conjI exI [of _ 8192] exI [of _ 12288] exI [of _ 16384] exI [of _ 20480]) simp_all
qed

lemma user_str_total: "read_mem m n a = Some bs \<Longrightarrow> user_str m n a \<noteq> None"
  by (induction n arbitrary: a bs) (auto split: option.splits)

lemma go_write_call: "gotls_call (gotls_write True) go_kernel go_write_regs GOTLS_EVENT_TYPE_WRITE 4096 32768 2"
  by (auto simp: gotls_call_def go_get_argument_def go_get_argument_by_reg_def recordTypeApplicationData_def)

theorem gotls_payload_delivered_witness:
  "\<exists>new. gs_events (fst (gotls_write True rodata_default go_kernel go_write_regs gotls_init)) = gs_events gotls_init @ new \<and>
    map (GoTLSDataEvent_DecodeFromBytes 1 \<circ> go_tls_event_bytes) new =
      map (Inr \<circ> gotls_decoded 1 (gotls_call_header go_kernel 4096 GOTLS_EVENT_TYPE_WRITE)) (chunks 16384 [72, 105]) \<and>
    concat (map (\<lambda>e. case GoTLSDataEvent_DecodeFromBytes 1 (go_tls_event_bytes e) of
      Inl _ \<Rightarrow> [] | Inr d \<Rightarrow> GoTLSDataEvent_GetData d) new) = [72, 105]"
  using go_user_data(1)
  by (intro gotls_payload_delivered [OF gotls_inv_init _ go_write_call rodata_passes]) (simp_all add: TASK_COMM_LEN_def)

theorem gotls_reachable_invariant_witness:
  "gotls_inv rodata_default (fst (gotls_write_register rodata_default go_kernel go_write_regs gotls_init))"
  by (rule gotls_reachable_invariant [OF gotls_reachable.go_more [OF gotls_reachable.go_start _ gotls_step.go_write_register]])
    (simp add: TASK_COMM_LEN_def)

theorem gotls_connection_reported_witness:
  "gotls_call_header go_kernel 4096 GOTLS_EVENT_TYPE_WRITE = (gotls_hdr0 go_kernel)\<lparr>ge_fd := 7,
     ge_src_ip := [10, 0, 0, 1] @ replicate 12 0, ge_src_port := 50000,
     ge_dst_ip := [10, 0, 0, 2] @ replicate 12 0, ge_dst_port := 443, ge_ip_version := 4, ge_event_type := GOTLS_EVENT_TYPE_WRITE\<rparr>"
  using gotls_connection_reported [of go_kernel 4096 7 "[10, 0, 0, 1]" 50000 "[10, 0, 0, 2]" 443 4] go_user_conn by simp

theorem gotls_keylog_delivered_witness:
  "\<exists>m d. gs_mastersecret_go_events (fst (gotls_mastersecret True rodata_default go_kernel go_keylog_regs gotls_init)) =
      gs_mastersecret_go_events gotls_init @ [m] \<and>
    MasterSecretEvent_DecodeFromBytes (mastersecret_gotls_bytes m @ []) = Inr d \<and>
    GetLabel d = Some go_label \<and> GetClientRandom d = Some (take 32 (replicate 64 1)) \<and>
    GetSecret d = Some (take 48 (replicate 64 2))"
proof -
  have args: "go_get_argument go_kernel go_keylog_regs True 2 = 36864" "go_get_argument go_kernel go_keylog_regs True 3 = 13"
    "go_get_argument go_kernel go_keylog_regs True 4 = 40960" "go_get_argument go_kernel go_keylog_regs True 5 = 32"
    "go_get_argument go_kernel go_keylog_regs True 7 = 45056" "go_get_argument go_kernel go_keylog_regs True 8 = 48"
    by (simp_all add: go_get_argument_def go_get_argument_by_reg_def)
  have "read_mem go_user (13 + 19) 36864 = Some (go_label @ replicate 19 0)" using go_user_data(2) by simp
  from read_mem_split(1) [OF this] have lab: "read_mem go_user 13 36864 = Some go_label" by (simp add: go_label_def)
  have ll: "length go_label = 13" "0 \<notin> set go_label" by (simp_all add: go_label_def)
  show ?thesis
    by (rule gotls_keylog_delivered [OF rodata_passes])
      (use go_user_data(3,4) lab ll user_str_total [OF go_user_data(2)] in \<open>simp_all add: args\<close>)
qed

text \<open>
  A process with its label, a client random and a secret of 32 and 48 mapped bytes, each followed by unmapped memory.
\<close>

definition go_user_edge :: memory where
  "go_user_edge = poke 36864 (go_label @ replicate 19 0) (poke 40960 (replicate 32 1) (poke 45056 (replicate 48 2) (\<lambda>_. None)))"

theorem gotls_keylog_overread_lost_witness:
  "read_mem go_user_edge 32 36864 = Some (go_label @ replicate 19 0) \<and>
   read_mem go_user_edge 32 40960 = Some (replicate 32 1) \<and> read_mem go_user_edge 48 45056 = Some (replicate 48 2) \<and>
   gotls_mastersecret True rodata_default (kernel0\<lparr>k_user := go_user_edge\<rparr>) go_keylog_regs gotls_init = (gotls_init, 0)"
proof -
  let ?k = "kernel0\<lparr>k_user := go_user_edge\<rparr>"
  have args: "go_get_argument ?k go_keylog_regs True 2 = 36864" "go_get_argument ?k go_keylog_regs True 3 = 13"
    "go_get_argument ?k go_keylog_regs True 4 = 40960" "go_get_argument ?k go_keylog_regs True 5 = 32"
    "go_get_argument ?k go_keylog_regs True 7 = 45056" "go_get_argument ?k go_keylog_regs True 8 = 48"
    by (simp_all add: go_get_argument_def go_get_argument_by_reg_def)
  have mem: "read_mem go_user_edge 32 36864 = Some (go_label @ replicate 19 0)"
    "read_mem go_user_edge 32 40960 = Some (replicate 32 1)" "read_mem go_user_edge 48 45056 = Some (replicate 48 2)"
    "read_mem go_user_edge 32 40992 = None"
    by (simp_all add: go_user_edge_def go_label_def read_mem_pokes del: poke.simps)
  then have "read_mem go_user_edge (32 + 32) 40960 = None" by (subst read_mem_append) simp
  then have "gotls_mastersecret True rodata_default ?k go_keylog_regs gotls_init = (gotls_init, 0)"
    using gotls_keylog_overread_lost [OF rodata_passes, of ?k go_keylog_regs True 13 32 48 gotls_init] user_str_total [OF mem(1)]
    by (simp add: args)
  with mem show ?thesis by simp
qed

end
