(* ===== verification/Offset_Text.thy ===== *)
theory Offset_Text
  imports Prelude "HOL-Library.AList"
begin

text \<open>
  The text layer of the offset generators under src/utils: what \<open>putchar\<close>, \<open>toupper\<close> and the
  \<open>printf\<close> conversions the generators use write (all eight programs share \<open>toUpper\<close> and \<open>format\<close>,
  up to the characters \<open>toUpper\<close> replaces by an underscore), and how the C preprocessor reads the
  result: the object-like \<open>#define\<close> lines, the value of an integer literal, and the expansion
  of a macro whose body is another macro's name. A C string is the list of its characters before the
  terminating NUL. The locale \<open>header_generator\<close> holds what is true of every list of fields
  whose macro names are distinct C identifiers.
\<close>

type_synonym offsetof = "string \<Rightarrow> string \<Rightarrow> u64"
type_synonym macros = "(string \<times> string) list"

abbreviation newline :: char where "newline \<equiv> CHR 0x0A"

section \<open>Writing\<close>

definition toupper :: "char \<Rightarrow> char" where
  "toupper c = (let n = of_char c :: nat in if 97 \<le> n \<and> n \<le> 122 then char_of (n - 32) else c)"

fun toUpper :: "(char \<Rightarrow> bool) \<Rightarrow> string \<Rightarrow> string" where
  "toUpper sep [] = []"
| "toUpper sep (c # s) = (if sep c then CHR ''_'' else toupper c) # toUpper sep s"

text \<open>
  \<open>toUpper\<close> as the source has it: a loop over the array that ends at the terminating NUL (it does not
  return where there is none). The index is an unbounded number, where the source has an \<open>int\<close>: the two agree on
  arrays of fewer than \<open>2\<^sup>31\<close> characters. The generators' calls are on literals, for which
  \<open>toUpper_loop\<close> is \<open>toUpper\<close> of their characters.
\<close>

partial_function (option) toUpper_loop :: "(char \<Rightarrow> bool) \<Rightarrow> (nat \<Rightarrow> char) \<Rightarrow> nat \<Rightarrow> string option" where
  "toUpper_loop sep s i =
     (if s i = CHR 0x00 then Some []
      else Option.bind (toUpper_loop sep s (Suc i))
             (\<lambda>out. Some ((if sep (s i) then CHR ''_'' else toupper (s i)) # out)))"

lemma toUpper_loop_string:
  assumes "s n = CHR 0x00" "i \<le> n"
  shows "toUpper_loop sep s i = Some (toUpper sep (takeWhile (\<lambda>c. c \<noteq> CHR 0x00) (map s [i..<n])))"
  using assms(2)
proof (induction "n - i" arbitrary: i)
  case 0
  with assms(1) show ?case by (subst toUpper_loop.simps) simp
next
  case (Suc k)
  then have "[i..<n] = i # [Suc i..<n]" by (simp add: upt_rec)
  with Suc show ?case by (subst toUpper_loop.simps) simp
qed

definition no_sep :: "char \<Rightarrow> bool" where
  "no_sep c = False"

definition dot_sep :: "char \<Rightarrow> bool" where
  "dot_sep c \<longleftrightarrow> c = CHR ''.''"

definition scope_sep :: "char \<Rightarrow> bool" where
  "scope_sep c \<longleftrightarrow> c = CHR ''.'' \<or> c = CHR '':''"

definition digit_char :: "nat \<Rightarrow> char" where
  "digit_char d = (if d < 10 then char_of (48 + d) else char_of (87 + d))"

fun digits :: "nat \<Rightarrow> nat \<Rightarrow> string" where
  "digits b n = (if n < b \<or> b < 2 then [digit_char n] else digits b (n div b) @ [digit_char (n mod b)])"

declare digits.simps [simp del]

definition printf_lx :: "u64 \<Rightarrow> string" where
  "printf_lx w = digits 16 (unat w)"

definition printf_int :: "int \<Rightarrow> string" where
  "printf_int i = (if i < 0 then CHR ''-'' # digits 10 (nat (- i)) else digits 10 (nat i))"

text \<open>\<open>%x\<close> of a byte slice, and the bytes of a string: the Go side prints with them.\<close>

definition hex_bytes :: "bytes \<Rightarrow> string" where
  "hex_bytes bs = concat (map (\<lambda>b. [digit_char (unat b div 16), digit_char (unat b mod 16)]) bs)"

definition string_bytes :: "string \<Rightarrow> bytes" where
  "string_bytes s = map (\<lambda>c. of_nat (of_char c)) s"

text \<open>
  \<open>OPENSSL_VERSION_NUMBER\<close> is a \<open>long\<close> (64 bits); \<open>%d\<close> reads its low 32 bits as an \<open>int\<close>.
\<close>

definition printf_d :: "u64 \<Rightarrow> string" where
  "printf_d n = printf_int (sint (ucast n :: s32))"

definition printf_ld :: "u64 \<Rightarrow> string" where
  "printf_ld n = printf_int (sint n)"

definition macro_name :: "(char \<Rightarrow> bool) \<Rightarrow> string \<Rightarrow> string \<Rightarrow> string" where
  "macro_name sep struct_name field_name = toUpper sep struct_name @ ''_'' @ toUpper sep field_name"

definition format :: "(char \<Rightarrow> bool) \<Rightarrow> string \<Rightarrow> string \<Rightarrow> u64 \<Rightarrow> string" where
  "format sep struct_name field_name offset =
     ''// '' @ struct_name @ ''->'' @ field_name @ [newline]
     @ ''#define '' @ macro_name sep struct_name field_name
     @ '' 0x'' @ printf_lx offset @ [newline, newline]"

definition version_banner :: "(u64 \<Rightarrow> string) \<Rightarrow> string \<Rightarrow> u64 \<Rightarrow> string" where
  "version_banner conv text num =
     ''/* OPENSSL_VERSION_TEXT: '' @ text @ '' */'' @ [newline]
     @ ''/* OPENSSL_VERSION_NUMBER: '' @ conv num @ '' */'' @ [newline, newline]"

definition emit_all :: "(char \<Rightarrow> bool) \<Rightarrow> offsetof \<Rightarrow> (string \<times> string) list \<Rightarrow> string" where
  "emit_all sep off fields = concat (map (\<lambda>(s, f). format sep s f (off s f)) fields)"

section \<open>Reading\<close>

fun split_lines :: "string \<Rightarrow> string list" where
  "split_lines [] = [[]]"
| "split_lines (c # s) =
     (if c = newline then [] # split_lines s
      else case split_lines s of [] \<Rightarrow> [[c]] | l # ls \<Rightarrow> (c # l) # ls)"

definition parse_define :: "string \<Rightarrow> (string \<times> string) option" where
  "parse_define l =
     (if take 8 l = ''#define ''
      then Some (takeWhile (\<lambda>c. c \<noteq> CHR '' '') (drop 8 l), drop 1 (dropWhile (\<lambda>c. c \<noteq> CHR '' '') (drop 8 l)))
      else None)"

definition define_lines :: "string \<Rightarrow> macros" where
  "define_lines s = List.map_filter parse_define (split_lines s)"

definition digit_value :: "nat \<Rightarrow> char \<Rightarrow> nat option" where
  "digit_value b c =
     (let n = of_char c :: nat;
          d = (if 48 \<le> n \<and> n \<le> 57 then n - 48 else if 97 \<le> n \<and> n \<le> 102 then n - 87
               else if 65 \<le> n \<and> n \<le> 70 then n - 55 else b)
      in if d < b then Some d else None)"

fun read_digits :: "nat \<Rightarrow> nat \<Rightarrow> string \<Rightarrow> nat option" where
  "read_digits b v [] = Some v"
| "read_digits b v (c # s) = (case digit_value b c of None \<Rightarrow> None | Some d \<Rightarrow> read_digits b (v * b + d) s)"

definition int_literal :: "string \<Rightarrow> nat option" where
  "int_literal s =
     (if s = [] then None
      else if take 2 s = ''0x'' then (if length s = 2 then None else read_digits 16 0 (drop 2 s))
      else if hd s = CHR ''0'' then read_digits 8 0 s
      else read_digits 10 0 s)"

text \<open>A name is not expanded again inside its own expansion, so every step removes one definition.\<close>

function expand :: "macros \<Rightarrow> string \<Rightarrow> u64 option" where
  "expand ms s =
     (case int_literal s of
        Some n \<Rightarrow> Some (of_nat n)
      | None \<Rightarrow> (case map_of ms s of None \<Rightarrow> None | Some body \<Rightarrow> expand (AList.delete s ms) body))"
  by auto
termination
proof (relation "measure (length \<circ> fst)")
  fix ms :: macros and s body
  assume "map_of ms s = Some body"
  then have "(s, body) \<in> set ms" by (rule map_of_SomeD)
  then have "length (filter (\<lambda>(k, v). s \<noteq> k) ms) < length ms" by (intro length_filter_less) auto
  then show "((AList.delete s ms, body), (ms, s)) \<in> measure (length \<circ> fst)"
    by (simp add: AList.delete_eq)
qed simp

declare expand.simps [simp del]

definition macro_value :: "string \<Rightarrow> string \<Rightarrow> u64 option" where
  "macro_value header name = expand (define_lines header) name"

section \<open>Numbers read back\<close>

lemma digit_value_digit_char: "d < b \<Longrightarrow> b \<le> 16 \<Longrightarrow> digit_value b (digit_char d) = Some d"
  by (auto simp: digit_value_def digit_char_def Let_def)

lemma read_digits_snoc:
  "read_digits b v (s @ [c]) =
     (case read_digits b v s of None \<Rightarrow> None | Some n \<Rightarrow> map_option (\<lambda>d. n * b + d) (digit_value b c))"
  by (induction b v s rule: read_digits.induct) (auto split: option.splits)

lemma read_digits_digits:
  assumes "2 \<le> b" "b \<le> 16"
  shows "read_digits b 0 (digits b n) = Some n"
  using assms
proof (induction b n rule: digits.induct)
  case (1 b n)
  show ?case
  proof (cases "n < b")
    case True
    with 1 show ?thesis by (subst digits.simps) (simp add: digit_value_digit_char)
  next
    case False
    with 1 have "read_digits b 0 (digits b (n div b)) = Some (n div b)" by simp
    with False 1 show ?thesis
      by (subst digits.simps) (simp add: read_digits_snoc digit_value_digit_char)
  qed
qed

lemma digits_ne [simp]: "digits b n \<noteq> []"
  by (subst digits.simps) simp

definition hex_literal :: "u64 \<Rightarrow> string" where
  "hex_literal w = ''0x'' @ printf_lx w"

lemma int_literal_hex [simp]: "int_literal (hex_literal w) = Some (unat w)"
  by (simp add: hex_literal_def int_literal_def printf_lx_def read_digits_digits)

lemma expand_hex [simp]: "expand ms (hex_literal w) = Some w"
  by (subst expand.simps) simp

lemma digit_char_no_newline: "d < 16 \<Longrightarrow> digit_char d \<noteq> newline"
proof
  assume "d < 16" and "digit_char d = newline"
  then have "(of_char (digit_char d) :: nat) = 10" by simp
  with \<open>d < 16\<close> show False by (auto simp: digit_char_def split: if_splits)
qed

lemma digits_no_newline: "2 \<le> b \<Longrightarrow> b \<le> 16 \<Longrightarrow> newline \<notin> set (digits b n)"
proof (induction b n rule: digits.induct)
  case (1 b n)
  then have "n mod b < 16" by (intro less_le_trans [OF mod_less_divisor]) auto
  then show ?case
    using 1 digit_char_no_newline [of n] digit_char_no_newline [of "n mod b"]
    by (subst digits.simps) (auto simp: eq_commute [of newline])
qed

lemma printf_lx_no_newline [simp]: "newline \<notin> set (printf_lx w)"
  by (simp add: printf_lx_def digits_no_newline)

lemma hex_literal_no_newline [simp]: "newline \<notin> set (hex_literal w)"
  by (simp add: hex_literal_def)

lemma printf_int_no_newline [simp]: "newline \<notin> set (printf_int i)"
  by (simp add: printf_int_def digits_no_newline)

section \<open>Lines read back\<close>

lemma split_lines_line: "newline \<notin> set l \<Longrightarrow> split_lines (l @ newline # s) = l # split_lines s"
  by (induction l) auto

lemma define_lines_line:
  assumes "newline \<notin> set l"
  shows "define_lines (l @ newline # s) =
    (case parse_define l of None \<Rightarrow> define_lines s | Some d \<Rightarrow> d # define_lines s)"
  using assms by (simp add: define_lines_def split_lines_line map_filter_simps split: option.split)

lemma define_lines_Nil [simp]: "define_lines [] = []"
  by (simp add: define_lines_def parse_define_def map_filter_simps)

lemma define_lines_blank [simp]: "define_lines (newline # s) = define_lines s"
  using define_lines_line [of "[]" s] by (simp add: parse_define_def)

lemma define_lines_skip:
  "newline \<notin> set l \<Longrightarrow> take 8 l \<noteq> ''#define '' \<Longrightarrow> define_lines (l @ newline # s) = define_lines s"
  by (simp add: define_lines_line parse_define_def)

lemma define_lines_define:
  assumes "newline \<notin> set name" "CHR '' '' \<notin> set name" "newline \<notin> set body"
  shows "define_lines (''#define '' @ name @ '' '' @ body @ newline # s) = (name, body) # define_lines s"
proof -
  have "takeWhile (\<lambda>c. c \<noteq> CHR '' '') (name @ '' '' @ body) = name"
    and "dropWhile (\<lambda>c. c \<noteq> CHR '' '') (name @ '' '' @ body) = '' '' @ body"
    using assms by (subst takeWhile_append2 dropWhile_append2; auto)+
  then have "parse_define (''#define '' @ name @ '' '' @ body) = Some (name, body)"
    by (simp add: parse_define_def)
  then show ?thesis
    using define_lines_line [of "''#define '' @ name @ '' '' @ body" s] assms by simp
qed

text \<open>An c_ident: a letter or underscore first, then letters, digits and underscores.\<close>

definition ident_char :: "char \<Rightarrow> bool" where
  "ident_char c \<longleftrightarrow> (let n = of_char c :: nat in
     48 \<le> n \<and> n \<le> 57 \<or> 65 \<le> n \<and> n \<le> 90 \<or> n = 95 \<or> 97 \<le> n \<and> n \<le> 122)"

definition c_ident :: "string \<Rightarrow> bool" where
  "c_ident s \<longleftrightarrow> s \<noteq> [] \<and> list_all ident_char s \<and> \<not> (48 \<le> (of_char (hd s) :: nat) \<and> (of_char (hd s) :: nat) \<le> 57)"

text \<open>The characters of the generators' names, evaluated once.\<close>

lemma toupper_letters [simp]:
  "toupper CHR ''a'' = CHR ''A''" "toupper CHR ''b'' = CHR ''B''" "toupper CHR ''c'' = CHR ''C''"
  "toupper CHR ''d'' = CHR ''D''" "toupper CHR ''e'' = CHR ''E''" "toupper CHR ''f'' = CHR ''F''"
  "toupper CHR ''g'' = CHR ''G''" "toupper CHR ''h'' = CHR ''H''" "toupper CHR ''i'' = CHR ''I''"
  "toupper CHR ''j'' = CHR ''J''" "toupper CHR ''k'' = CHR ''K''" "toupper CHR ''l'' = CHR ''L''"
  "toupper CHR ''m'' = CHR ''M''" "toupper CHR ''n'' = CHR ''N''" "toupper CHR ''o'' = CHR ''O''"
  "toupper CHR ''p'' = CHR ''P''" "toupper CHR ''q'' = CHR ''Q''" "toupper CHR ''r'' = CHR ''R''"
  "toupper CHR ''s'' = CHR ''S''" "toupper CHR ''t'' = CHR ''T''" "toupper CHR ''u'' = CHR ''U''"
  "toupper CHR ''v'' = CHR ''V''" "toupper CHR ''w'' = CHR ''W''" "toupper CHR ''x'' = CHR ''X''"
  "toupper CHR ''y'' = CHR ''Y''" "toupper CHR ''z'' = CHR ''Z''" "toupper CHR ''A'' = CHR ''A''"
  "toupper CHR ''B'' = CHR ''B''" "toupper CHR ''C'' = CHR ''C''" "toupper CHR ''D'' = CHR ''D''"
  "toupper CHR ''E'' = CHR ''E''" "toupper CHR ''F'' = CHR ''F''" "toupper CHR ''G'' = CHR ''G''"
  "toupper CHR ''H'' = CHR ''H''" "toupper CHR ''I'' = CHR ''I''" "toupper CHR ''J'' = CHR ''J''"
  "toupper CHR ''K'' = CHR ''K''" "toupper CHR ''L'' = CHR ''L''" "toupper CHR ''M'' = CHR ''M''"
  "toupper CHR ''N'' = CHR ''N''" "toupper CHR ''O'' = CHR ''O''" "toupper CHR ''P'' = CHR ''P''"
  "toupper CHR ''Q'' = CHR ''Q''" "toupper CHR ''R'' = CHR ''R''" "toupper CHR ''S'' = CHR ''S''"
  "toupper CHR ''T'' = CHR ''T''" "toupper CHR ''U'' = CHR ''U''" "toupper CHR ''V'' = CHR ''V''"
  "toupper CHR ''W'' = CHR ''W''" "toupper CHR ''X'' = CHR ''X''" "toupper CHR ''Y'' = CHR ''Y''"
  "toupper CHR ''Z'' = CHR ''Z''" "toupper CHR ''0'' = CHR ''0''" "toupper CHR ''1'' = CHR ''1''"
  "toupper CHR ''2'' = CHR ''2''" "toupper CHR ''3'' = CHR ''3''" "toupper CHR ''4'' = CHR ''4''"
  "toupper CHR ''5'' = CHR ''5''" "toupper CHR ''6'' = CHR ''6''" "toupper CHR ''7'' = CHR ''7''"
  "toupper CHR ''8'' = CHR ''8''" "toupper CHR ''9'' = CHR ''9''" "toupper CHR ''_'' = CHR ''_''"
  by (simp_all add: toupper_def char_of_def bit_0)

lemma ident_char_literals [simp]:
  "ident_char CHR ''0''" "ident_char CHR ''1''" "ident_char CHR ''2''" "ident_char CHR ''3''"
  "ident_char CHR ''4''" "ident_char CHR ''5''" "ident_char CHR ''6''" "ident_char CHR ''7''"
  "ident_char CHR ''8''" "ident_char CHR ''9''" "ident_char CHR ''_''" "ident_char CHR ''A''"
  "ident_char CHR ''B''" "ident_char CHR ''C''" "ident_char CHR ''D''" "ident_char CHR ''E''"
  "ident_char CHR ''F''" "ident_char CHR ''G''" "ident_char CHR ''H''" "ident_char CHR ''I''"
  "ident_char CHR ''J''" "ident_char CHR ''K''" "ident_char CHR ''L''" "ident_char CHR ''M''"
  "ident_char CHR ''N''" "ident_char CHR ''O''" "ident_char CHR ''P''" "ident_char CHR ''Q''"
  "ident_char CHR ''R''" "ident_char CHR ''S''" "ident_char CHR ''T''" "ident_char CHR ''U''"
  "ident_char CHR ''V''" "ident_char CHR ''W''" "ident_char CHR ''X''" "ident_char CHR ''Y''"
  "ident_char CHR ''Z''"
  by (simp_all add: ident_char_def)

lemma c_ident_chars: "c_ident s \<Longrightarrow> newline \<notin> set s \<and> CHR '' '' \<notin> set s"
  by (auto simp: c_ident_def list_all_iff ident_char_def Let_def)

lemma int_literal_c_ident: "c_ident s \<Longrightarrow> int_literal s = None"
  by (cases s) (auto simp: c_ident_def int_literal_def digit_value_def Let_def)

lemma expand_c_ident:
  assumes "c_ident s" "map_of ms s = Some (hex_literal w)"
  shows "expand ms s = Some w"
  using assms by (subst expand.simps) (simp add: int_literal_c_ident)

lemma expand_undefined: "c_ident s \<Longrightarrow> map_of ms s = None \<Longrightarrow> expand ms s = None"
  by (subst expand.simps) (simp add: int_literal_c_ident)

lemma expand_alias:
  assumes "c_ident s" "map_of ms s = Some t" "c_ident t" "s \<noteq> t" "map_of ms t = Some (hex_literal w)"
  shows "expand ms s = Some w"
proof -
  have "map_of (AList.delete s ms) t = Some (hex_literal w)"
    using assms(4,5) by (simp add: AList.delete_conv')
  with assms show ?thesis
    by (subst expand.simps) (simp add: int_literal_c_ident expand_c_ident)
qed

lemma macro_value_literal:
  assumes "c_ident m" "map_of (define_lines header) m = Some body" "int_literal body = Some n"
  shows "macro_value header m = Some (of_nat n)"
proof -
  have "expand (AList.delete m (define_lines header)) body = Some (of_nat n)"
    using assms(3) by (subst expand.simps) simp
  with assms show ?thesis
    unfolding macro_value_def by (subst expand.simps) (simp add: int_literal_c_ident)
qed

lemma macro_values_flat:
  assumes "distinct (map fst (define_lines header))" "list_all (c_ident \<circ> fst) (define_lines header)"
    and "list_all (\<lambda>(_, body). int_literal body \<noteq> None) (define_lines header)"
  shows "list_all (\<lambda>(m, body). macro_value header m = map_option of_nat (int_literal body)) (define_lines header)"
  unfolding list_all_iff
proof clarify
  fix m body
  assume "(m, body) \<in> set (define_lines header)"
  with assms have "map_of (define_lines header) m = Some body" "c_ident m" "int_literal body \<noteq> None"
    by (auto simp: list_all_iff)
  then show "macro_value header m = map_option of_nat (int_literal body)"
    by (auto simp: macro_value_literal)
qed

lemma macro_value_undefined:
  "m \<notin> set (map fst (define_lines header)) \<Longrightarrow> c_ident m \<Longrightarrow> macro_value header m = None"
  by (simp add: macro_value_def expand_undefined map_of_eq_None_iff)

definition define_line :: "string \<Rightarrow> string \<Rightarrow> string" where
  "define_line name body = ''#define '' @ name @ '' '' @ body @ [newline]"

lemma define_lines_define_line:
  "c_ident name \<Longrightarrow> newline \<notin> set body \<Longrightarrow>
     define_lines (define_line name body @ s) = (name, body) # define_lines s"
  using define_lines_define [of name body s] by (simp add: define_line_def c_ident_chars)

section \<open>What a generator's output defines\<close>

lemma define_lines_banner:
  assumes "newline \<notin> set text" "newline \<notin> set (conv num)"
  shows "define_lines (version_banner conv text num @ s) = define_lines s"
  using assms define_lines_skip [of "''/* OPENSSL_VERSION_TEXT: '' @ text @ '' */''"]
    define_lines_skip [of "''/* OPENSSL_VERSION_NUMBER: '' @ conv num @ '' */''"]
  by (simp add: version_banner_def)

lemma define_lines_format:
  assumes "c_ident (macro_name sep s f)" "newline \<notin> set s" "newline \<notin> set f"
  shows "define_lines (format sep s f w @ rest) = (macro_name sep s f, hex_literal w) # define_lines rest"
  using assms define_lines_skip [of "''// '' @ s @ ''->'' @ f"]
    define_lines_define [of "macro_name sep s f" "hex_literal w" "newline # rest"]
  by (simp add: format_def hex_literal_def c_ident_chars)

definition field_macros :: "(char \<Rightarrow> bool) \<Rightarrow> offsetof \<Rightarrow> (string \<times> string) list \<Rightarrow> macros" where
  "field_macros sep off fields = map (\<lambda>(s, f). (macro_name sep s f, hex_literal (off s f))) fields"

definition field_ok :: "(char \<Rightarrow> bool) \<Rightarrow> string \<times> string \<Rightarrow> bool" where
  "field_ok sep = (\<lambda>(s, f). c_ident (macro_name sep s f) \<and> newline \<notin> set s \<and> newline \<notin> set f)"

lemma define_lines_fields:
  assumes "list_all (field_ok sep) fields"
  shows "define_lines (emit_all sep off fields @ rest) = field_macros sep off fields @ define_lines rest"
  using assms by (induction fields) (auto simp: emit_all_def field_macros_def field_ok_def define_lines_format)

locale header_generator =
  fixes sep :: "char \<Rightarrow> bool" and fields :: "(string \<times> string) list"
  assumes fields_ok: "list_all (field_ok sep) fields"
    and macros_distinct: "distinct (map (\<lambda>(s, f). macro_name sep s f) fields)"
begin

lemmas define_lines_emit_all = define_lines_fields [OF fields_ok]

lemma map_of_field_macros:
  assumes "(s, f) \<in> set fields"
  shows "map_of (field_macros sep off fields @ ms) (macro_name sep s f) = Some (hex_literal (off s f))"
proof -
  have "map fst (field_macros sep off fields) = map (\<lambda>(s, f). macro_name sep s f) fields"
    by (simp add: field_macros_def case_prod_beta comp_def)
  then have "map_of (field_macros sep off fields) (macro_name sep s f) = Some (hex_literal (off s f))"
    using assms macros_distinct by (intro map_of_is_SomeI) (simp_all only:, auto simp: field_macros_def)
  then show ?thesis by (simp add: map_add_def)
qed

lemma field_values:
  assumes "define_lines header = field_macros sep off fields @ ms"
  shows "map (\<lambda>(s, f). macro_value header (macro_name sep s f)) fields = map (\<lambda>(s, f). Some (off s f)) fields"
proof (rule map_cong [OF refl], clarify)
  fix s f
  assume sf: "(s, f) \<in> set fields"
  with fields_ok have "c_ident (macro_name sep s f)" by (auto simp: list_all_iff field_ok_def)
  with sf show "macro_value header (macro_name sep s f) = Some (off s f)"
    unfolding macro_value_def assms by (intro expand_c_ident map_of_field_macros)
qed

lemma map_of_other:
  assumes "m \<notin> set (map (\<lambda>(s, f). macro_name sep s f) fields)"
  shows "map_of (field_macros sep off fields @ ms) m = map_of ms m"
proof -
  have "map_of (field_macros sep off fields) m = None"
    using assms by (auto simp: map_of_eq_None_iff field_macros_def image_iff split: prod.splits)
  then show ?thesis by (simp add: map_add_def)
qed

lemma lookup_other:
  assumes "define_lines header = field_macros sep off fields @ ms"
    and "m \<notin> set (map (\<lambda>(s, f). macro_name sep s f) fields)"
  shows "map_of (define_lines header) m = map_of ms m"
  unfolding assms(1) by (rule map_of_other [OF assms(2)])

lemma no_value:
  assumes "define_lines header = field_macros sep off fields @ ms"
    and "m \<notin> set (map (\<lambda>(s, f). macro_name sep s f) fields)" "map_of ms m = None" "c_ident m"
  shows "macro_value header m = None"
  using lookup_other [OF assms(1,2)] assms(3,4) by (simp add: macro_value_def expand_undefined)

lemma other_value:
  assumes "define_lines header = field_macros sep off fields @ ms"
    and "m \<notin> set (map (\<lambda>(s, f). macro_name sep s f) fields)"
    and "map_of ms m = Some body" "int_literal body = Some n" "c_ident m"
  shows "macro_value header m = Some (of_nat n)"
  using lookup_other [OF assms(1,2)] assms(3-) by (simp add: macro_value_literal)

lemma alias_value:
  assumes "define_lines header = field_macros sep off fields @ ms"
    and "m \<notin> set (map (\<lambda>(s, f). macro_name sep s f) fields)"
    and "map_of ms m = Some (macro_name sep s f)" "(s, f) \<in> set fields" "c_ident m"
  shows "macro_value header m = Some (off s f)"
  unfolding macro_value_def
proof (rule expand_alias [OF assms(5)])
  show "map_of (define_lines header) m = Some (macro_name sep s f)"
    using lookup_other [OF assms(1,2)] assms(3) by simp
  show "c_ident (macro_name sep s f)" using fields_ok assms(4) by (auto simp: list_all_iff field_ok_def)
  show "m \<noteq> macro_name sep s f" using assms(2,4) by auto
  show "map_of (define_lines header) (macro_name sep s f) = Some (hex_literal (off s f))"
    unfolding assms(1) by (rule map_of_field_macros [OF assms(4)])
qed

end

end
