(* ===== verification/Offset_Generator.thy ===== *)
theory Offset_Generator
  imports Offset_Text Openssl_Offsets Gnutls_Offsets Boringssl_Offsets "HOL-Library.Monad_Syntax"
begin

text \<open>
  The offset generators src/utils/*_offset.c. Each is compiled against the headers of one library
  version and prints the offset table of kern/*_kern.c for it. The layout the compiler gives the
  library's structs is the argument \<open>off\<close> (\<open>off s f\<close> stands for \<open>offsetof(s, f)\<close>), and so are the version
  text and number. The seven C programs run over an X-macro list of fields; the BoringSSL
  program is C++ and prints different macros depending on which members exist (\<open>has s f\<close>). The readers
  at the end say which macro the objects under kern read for each field of the tables.
\<close>

section \<open>The programs driven by a list\<close>

definition SSL_STRUCT_OFFSETS_1_0_2 :: "(string \<times> string) list" where
  "SSL_STRUCT_OFFSETS_1_0_2 =
     [(''ssl_st'', ''version''),
      (''ssl_st'', ''session''),
      (''ssl_st'', ''s3''),
      (''ssl_st'', ''rbio''),
      (''ssl_st'', ''wbio''),
      (''ssl_st'', ''server''),
      (''ssl_session_st'', ''master_key''),
      (''ssl3_state_st'', ''client_random''),
      (''ssl_session_st'', ''cipher''),
      (''ssl_session_st'', ''cipher_id''),
      (''ssl_cipher_st'', ''id''),
      (''bio_st'', ''num''),
      (''bio_st'', ''method''),
      (''bio_method_st'', ''type'')]"

definition main_1_0_2 :: "offsetof \<Rightarrow> string \<Rightarrow> u64 \<Rightarrow> string" where
  "main_1_0_2 off text num = version_banner printf_d text num @ emit_all no_sep off SSL_STRUCT_OFFSETS_1_0_2"

definition SSL_STRUCT_OFFSETS_1_1_0 :: "(string \<times> string) list" where
  "SSL_STRUCT_OFFSETS_1_1_0 =
     [(''ssl_st'', ''version''),
      (''ssl_st'', ''session''),
      (''ssl_st'', ''s3''),
      (''ssl_st'', ''rbio''),
      (''ssl_st'', ''wbio''),
      (''ssl_st'', ''server''),
      (''ssl_session_st'', ''master_key''),
      (''ssl3_state_st'', ''client_random''),
      (''ssl_session_st'', ''cipher''),
      (''ssl_session_st'', ''cipher_id''),
      (''ssl_cipher_st'', ''id''),
      (''bio_st'', ''num''),
      (''bio_st'', ''method''),
      (''bio_method_st'', ''type'')]"

definition main_1_1_0 :: "offsetof \<Rightarrow> string \<Rightarrow> u64 \<Rightarrow> string" where
  "main_1_1_0 off text num = version_banner printf_d text num @ emit_all no_sep off SSL_STRUCT_OFFSETS_1_1_0"

definition SSL_STRUCT_OFFSETS_1_1_1 :: "(string \<times> string) list" where
  "SSL_STRUCT_OFFSETS_1_1_1 =
     [(''ssl_st'', ''version''),
      (''ssl_st'', ''session''),
      (''ssl_st'', ''s3''),
      (''ssl_st'', ''rbio''),
      (''ssl_st'', ''wbio''),
      (''ssl_st'', ''server''),
      (''ssl_session_st'', ''master_key''),
      (''ssl3_state_st'', ''client_random''),
      (''ssl_session_st'', ''cipher''),
      (''ssl_session_st'', ''cipher_id''),
      (''ssl_cipher_st'', ''id''),
      (''ssl_st'', ''early_secret''),
      (''ssl_st'', ''handshake_secret''),
      (''ssl_st'', ''handshake_traffic_hash''),
      (''ssl_st'', ''client_app_traffic_secret''),
      (''ssl_st'', ''server_app_traffic_secret''),
      (''ssl_st'', ''exporter_master_secret''),
      (''bio_st'', ''num''),
      (''bio_st'', ''method''),
      (''bio_method_st'', ''type'')]"

definition main_1_1_1 :: "offsetof \<Rightarrow> string \<Rightarrow> u64 \<Rightarrow> string" where
  "main_1_1_1 off text num = version_banner printf_d text num @ emit_all no_sep off SSL_STRUCT_OFFSETS_1_1_1"

definition SSL_STRUCT_OFFSETS_3_0 :: "(string \<times> string) list" where
  "SSL_STRUCT_OFFSETS_3_0 =
     [(''ssl_st'', ''version''),
      (''ssl_st'', ''session''),
      (''ssl_st'', ''s3''),
      (''ssl_st'', ''rbio''),
      (''ssl_st'', ''wbio''),
      (''ssl_st'', ''server''),
      (''ssl_session_st'', ''master_key''),
      (''ssl_st'', ''s3.client_random''),
      (''ssl_session_st'', ''cipher''),
      (''ssl_session_st'', ''cipher_id''),
      (''ssl_cipher_st'', ''id''),
      (''ssl_st'', ''early_secret''),
      (''ssl_st'', ''handshake_secret''),
      (''ssl_st'', ''handshake_traffic_hash''),
      (''ssl_st'', ''client_app_traffic_secret''),
      (''ssl_st'', ''server_app_traffic_secret''),
      (''ssl_st'', ''exporter_master_secret''),
      (''bio_st'', ''num''),
      (''bio_st'', ''method''),
      (''bio_method_st'', ''type'')]"

definition main_3_0 :: "offsetof \<Rightarrow> string \<Rightarrow> u64 \<Rightarrow> string" where
  "main_3_0 off text num = version_banner printf_d text num @ emit_all dot_sep off SSL_STRUCT_OFFSETS_3_0"

definition SSL_STRUCT_OFFSETS_3_2_0 :: "(string \<times> string) list" where
  "SSL_STRUCT_OFFSETS_3_2_0 =
     [(''ssl_st'', ''type''),
      (''ssl_connection_st'', ''version''),
      (''ssl_connection_st'', ''session''),
      (''ssl_connection_st'', ''s3''),
      (''ssl_connection_st'', ''rbio''),
      (''ssl_connection_st'', ''wbio''),
      (''ssl_connection_st'', ''server''),
      (''ssl_session_st'', ''master_key''),
      (''ssl_connection_st'', ''s3.client_random''),
      (''ssl_session_st'', ''cipher''),
      (''ssl_session_st'', ''cipher_id''),
      (''ssl_cipher_st'', ''id''),
      (''ssl_connection_st'', ''early_secret''),
      (''ssl_connection_st'', ''handshake_secret''),
      (''ssl_connection_st'', ''handshake_traffic_hash''),
      (''ssl_connection_st'', ''client_app_traffic_secret''),
      (''ssl_connection_st'', ''server_app_traffic_secret''),
      (''ssl_connection_st'', ''exporter_master_secret''),
      (''bio_st'', ''num''),
      (''bio_st'', ''method''),
      (''bio_method_st'', ''type''),
      (''quic_conn_st'', ''tls'')]"

definition main_3_2_0 :: "offsetof \<Rightarrow> string \<Rightarrow> u64 \<Rightarrow> string" where
  "main_3_2_0 off text num = version_banner printf_ld text num @ emit_all dot_sep off SSL_STRUCT_OFFSETS_3_2_0"

definition SSL_STRUCT_OFFSETS_3_5_0 :: "(string \<times> string) list" where
  "SSL_STRUCT_OFFSETS_3_5_0 =
     [(''ssl_st'', ''type''),
      (''ssl_connection_st'', ''version''),
      (''ssl_connection_st'', ''session''),
      (''ssl_connection_st'', ''s3''),
      (''ssl_connection_st'', ''rbio''),
      (''ssl_connection_st'', ''wbio''),
      (''ssl_connection_st'', ''server''),
      (''ssl_session_st'', ''master_key''),
      (''ssl_connection_st'', ''s3.client_random''),
      (''ssl_session_st'', ''cipher''),
      (''ssl_session_st'', ''cipher_id''),
      (''ssl_cipher_st'', ''id''),
      (''ssl_connection_st'', ''early_secret''),
      (''ssl_connection_st'', ''handshake_secret''),
      (''ssl_connection_st'', ''handshake_traffic_hash''),
      (''ssl_connection_st'', ''client_app_traffic_secret''),
      (''ssl_connection_st'', ''server_app_traffic_secret''),
      (''ssl_connection_st'', ''exporter_master_secret''),
      (''bio_st'', ''num''),
      (''bio_st'', ''method''),
      (''bio_method_st'', ''type''),
      (''quic_conn_st'', ''tls'')]"

definition main_3_5_0 :: "offsetof \<Rightarrow> string \<Rightarrow> u64 \<Rightarrow> string" where
  "main_3_5_0 off text num = version_banner printf_ld text num @ emit_all dot_sep off SSL_STRUCT_OFFSETS_3_5_0"

definition SSL_STRUCT_OFFSETS_gnutls :: "(string \<times> string) list" where
  "SSL_STRUCT_OFFSETS_gnutls =
     [(''gnutls_session_int'', ''security_parameters''),
      (''gnutls_session_int'', ''security_parameters.prf''),
      (''mac_entry_st'', ''id''),
      (''gnutls_session_int'', ''security_parameters.client_random''),
      (''gnutls_session_int'', ''security_parameters.master_secret''),
      (''gnutls_session_int'', ''key.proto.tls13.e_ckey''),
      (''gnutls_session_int'', ''key.proto.tls13.hs_ckey''),
      (''gnutls_session_int'', ''key.proto.tls13.hs_skey''),
      (''gnutls_session_int'', ''key.proto.tls13.ap_ckey''),
      (''gnutls_session_int'', ''key.proto.tls13.ap_skey''),
      (''gnutls_session_int'', ''key.proto.tls13.ap_expkey'')]"

definition SSL_ANY_STRUCT_OFFSETS_gnutls :: "(string \<times> string) list" where
  "SSL_ANY_STRUCT_OFFSETS_gnutls =
     [(''security_parameters_st'', ''pversion''),
      (''version_entry_st'', ''id'')]"

definition main_gnutls :: "offsetof \<Rightarrow> string" where
  "main_gnutls off = emit_all dot_sep off SSL_STRUCT_OFFSETS_gnutls @ emit_all dot_sep off SSL_ANY_STRUCT_OFFSETS_gnutls"

section \<open>The BoringSSL program\<close>

text \<open>
  The type traits \<open>ssl_st_has_version\<close>, \<open>ssl_session_has_secret_length\<close> and \<open>ssl3_state_has_version\<close> ask
  whether a member exists; their answers are \<open>has s f\<close>, and select the specialisation of each emitter.
\<close>

definition emit_ssl_st_version :: "bool \<Rightarrow> offsetof \<Rightarrow> string" where
  "emit_ssl_st_version present off =
     (if present then format scope_sep ''ssl_st'' ''version'' (off ''ssl_st'' ''version'')
      else ''// ssl_st->version removed in this BoringSSL version.'' @ [newline]
        @ ''// SSL_SESSION_ST_SSL_VERSION also acts as the Android 16+ feature flag'' @ [newline]
        @ ''// for boringssl_const.h (InplaceVector offsets) and boringssl_masterkey.h.'' @ [newline]
        @ format scope_sep ''ssl_session_st'' ''ssl_version'' (off ''ssl_session_st'' ''ssl_version''))"

definition emit_secret_length :: "bool \<Rightarrow> offsetof \<Rightarrow> string" where
  "emit_secret_length present off =
     (if present then format scope_sep ''ssl_session_st'' ''secret_length'' (off ''ssl_session_st'' ''secret_length'')
      else ''// ssl_session_st->secret_length removed in this BoringSSL version.'' @ [newline]
        @ ''// Sentinel 0xFF: boringssl_masterkey.h uses BORINGSSL_SSL_MAX_MASTER_KEY_LENGTH.'' @ [newline]
        @ ''#define SSL_SESSION_ST_SECRET_LENGTH 0xFF'' @ [newline, newline])"

definition emit_ssl3_state_version :: "bool \<Rightarrow> offsetof \<Rightarrow> string" where
  "emit_ssl3_state_version present off =
     (if present then ''// SSL3_STATE->version added in Android 16 (replaces ssl_st->version).'' @ [newline]
        @ ''// BSSL__SSL3_STATE_VERSION is the Android 16+ feature flag used by'' @ [newline]
        @ ''// boringssl_masterkey.h to read the TLS version before the 1.2/1.3 branch.'' @ [newline]
        @ format scope_sep ''bssl::SSL3_STATE'' ''version'' (off ''bssl::SSL3_STATE'' ''version'')
      else [])"

definition bssl_ssl_st :: "(string \<times> string) list" where
  "bssl_ssl_st = [(''ssl_st'', ''session''), (''ssl_st'', ''rbio''), (''ssl_st'', ''wbio''), (''ssl_st'', ''s3'')]"

definition bssl_session_bio_cipher :: "(string \<times> string) list" where
  "bssl_session_bio_cipher =
     [(''ssl_session_st'', ''secret''), (''ssl_session_st'', ''cipher''),
      (''bio_st'', ''num''), (''bio_st'', ''method''), (''bio_method_st'', ''type''), (''ssl_cipher_st'', ''id''),
      (''bssl::SSL3_STATE'', ''hs''), (''bssl::SSL3_STATE'', ''client_random''),
      (''bssl::SSL3_STATE'', ''exporter_secret''), (''bssl::SSL3_STATE'', ''established_session'')]"

definition bssl_handshake :: "(string \<times> string) list" where
  "bssl_handshake =
     [(''bssl::SSL_HANDSHAKE'', ''new_session''), (''bssl::SSL_HANDSHAKE'', ''early_session''),
      (''bssl::SSL_HANDSHAKE'', ''hints''), (''bssl::SSL_HANDSHAKE'', ''client_version''),
      (''bssl::SSL_HANDSHAKE'', ''state''), (''bssl::SSL_HANDSHAKE'', ''tls13_state''),
      (''bssl::SSL_HANDSHAKE'', ''max_version'')]"

definition main_boringssl :: "(string \<Rightarrow> string \<Rightarrow> bool) \<Rightarrow> offsetof \<Rightarrow> string \<Rightarrow> u64 \<Rightarrow> string" where
  "main_boringssl has off text num =
     version_banner printf_d text num
     @ emit_ssl_st_version (has ''ssl_st'' ''version'') off
     @ emit_all scope_sep off bssl_ssl_st
     @ emit_secret_length (has ''ssl_session_st'' ''secret_length'') off
     @ emit_all scope_sep off bssl_session_bio_cipher
     @ emit_ssl3_state_version (has ''bssl::SSL3_STATE'' ''version'') off
     @ emit_all scope_sep off bssl_handshake"

section \<open>The hand-written rest of a table\<close>

text \<open>
  What follows the generated lines in kern/openssl_1_0_2a_kern.c and kern/openssl_1_1_0a_kern.c (libraries without TLS 1.3),
  and in the files of OpenSSL 3.2 on, where kern/openssl.h finds the fields of \<open>ssl_connection_st\<close> under their old names.
\<close>

definition tls13_defaults :: "string \<Rightarrow> string" where
  "tls13_defaults version =
     ''// openssl '' @ version @ '' does not support TLS 1.3, set 0 default'' @ [newline]
     @ define_line ''SSL_ST_EARLY_SECRET'' ''0''
     @ define_line ''SSL_ST_HANDSHAKE_SECRET'' ''0''
     @ define_line ''SSL_ST_HANDSHAKE_TRAFFIC_HASH'' ''0''
     @ define_line ''SSL_ST_CLIENT_APP_TRAFFIC_SECRET'' ''0''
     @ define_line ''SSL_ST_SERVER_APP_TRAFFIC_SECRET'' ''0''
     @ define_line ''SSL_ST_EXPORTER_MASTER_SECRET'' ''0'' @ [newline]"

definition connection_aliases :: string where
  "connection_aliases =
     define_line ''SSL_ST_VERSION'' ''SSL_CONNECTION_ST_VERSION'' @ [newline]
     @ define_line ''SSL_ST_WBIO'' ''SSL_CONNECTION_ST_WBIO'' @ [newline]
     @ define_line ''SSL_ST_RBIO'' ''SSL_CONNECTION_ST_RBIO'' @ [newline]"

section \<open>The tables the objects are compiled with\<close>

text \<open>
  Which macro each field of a table stands for. A macro the object always uses has to be
  defined (else it does not compile: \<open>None\<close>); the rest are options, as in the records. \<open>st\<close> is the prefix of the
  connection's macros and \<open>client_random\<close> the macro the master-key header reads the random with.
\<close>

definition openssl_table_of :: "string \<Rightarrow> string \<Rightarrow> string \<Rightarrow> openssl_mk_table option" where
  "openssl_table_of st client_random header = do {
     version \<leftarrow> macro_value header ''SSL_ST_VERSION'';
     rbio \<leftarrow> macro_value header ''SSL_ST_RBIO'';
     wbio \<leftarrow> macro_value header ''SSL_ST_WBIO'';
     num \<leftarrow> macro_value header ''BIO_ST_NUM'';
     mthd \<leftarrow> macro_value header ''BIO_ST_METHOD'';
     type \<leftarrow> macro_value header ''BIO_METHOD_ST_TYPE'';
     session \<leftarrow> macro_value header (st @ ''SESSION'');
     s3 \<leftarrow> macro_value header (st @ ''S3'');
     server \<leftarrow> macro_value header (st @ ''SERVER'');
     master_key \<leftarrow> macro_value header ''SSL_SESSION_ST_MASTER_KEY'';
     random \<leftarrow> macro_value header client_random;
     cipher \<leftarrow> macro_value header ''SSL_SESSION_ST_CIPHER'';
     cipher_id \<leftarrow> macro_value header ''SSL_SESSION_ST_CIPHER_ID'';
     id \<leftarrow> macro_value header ''SSL_CIPHER_ST_ID'';
     early \<leftarrow> macro_value header (st @ ''EARLY_SECRET'');
     hs \<leftarrow> macro_value header (st @ ''HANDSHAKE_SECRET'');
     hash \<leftarrow> macro_value header (st @ ''HANDSHAKE_TRAFFIC_HASH'');
     client \<leftarrow> macro_value header (st @ ''CLIENT_APP_TRAFFIC_SECRET'');
     srv \<leftarrow> macro_value header (st @ ''SERVER_APP_TRAFFIC_SECRET'');
     exporter \<leftarrow> macro_value header (st @ ''EXPORTER_MASTER_SECRET'');
     Some \<lparr>SSL_ST_VERSION = version, HAS_SSL_ST_VERSION = True, SSL_ST_RBIO = rbio, SSL_ST_WBIO = wbio,
       BIO_ST_NUM = num, BIO_ST_METHOD = mthd, BIO_METHOD_ST_TYPE = type, OT_SESSION = session, OT_S3 = s3,
       OT_SERVER = server, OT_MASTER_KEY = master_key, OT_CLIENT_RANDOM = random, OT_CIPHER = cipher,
       OT_CIPHER_ID = cipher_id, OT_CIPHER_ST_ID = id, OT_EARLY_SECRET = early, OT_HANDSHAKE_SECRET = hs,
       OT_HANDSHAKE_TRAFFIC_HASH = hash, OT_CLIENT_APP_TRAFFIC_SECRET = client,
       OT_SERVER_APP_TRAFFIC_SECRET = srv, OT_EXPORTER_MASTER_SECRET = exporter,
       OT_TYPE = macro_value header ''SSL_ST_TYPE'', OT_QUIC_TLS = macro_value header ''QUIC_CONN_ST_TLS''\<rparr>
   }"

definition gnutls_table_of :: "string \<Rightarrow> gnutls_table option" where
  "gnutls_table_of header = do {
     sp \<leftarrow> macro_value header ''GNUTLS_SESSION_INT_SECURITY_PARAMETERS'';
     prf \<leftarrow> macro_value header ''GNUTLS_SESSION_INT_SECURITY_PARAMETERS_PRF'';
     mac_id \<leftarrow> macro_value header ''MAC_ENTRY_ST_ID'';
     random \<leftarrow> macro_value header ''GNUTLS_SESSION_INT_SECURITY_PARAMETERS_CLIENT_RANDOM'';
     master \<leftarrow> macro_value header ''GNUTLS_SESSION_INT_SECURITY_PARAMETERS_MASTER_SECRET'';
     e_ckey \<leftarrow> macro_value header ''GNUTLS_SESSION_INT_KEY_PROTO_TLS13_E_CKEY'';
     hs_ckey \<leftarrow> macro_value header ''GNUTLS_SESSION_INT_KEY_PROTO_TLS13_HS_CKEY'';
     hs_skey \<leftarrow> macro_value header ''GNUTLS_SESSION_INT_KEY_PROTO_TLS13_HS_SKEY'';
     ap_ckey \<leftarrow> macro_value header ''GNUTLS_SESSION_INT_KEY_PROTO_TLS13_AP_CKEY'';
     ap_skey \<leftarrow> macro_value header ''GNUTLS_SESSION_INT_KEY_PROTO_TLS13_AP_SKEY'';
     ap_expkey \<leftarrow> macro_value header ''GNUTLS_SESSION_INT_KEY_PROTO_TLS13_AP_EXPKEY'';
     pversion \<leftarrow> macro_value header ''SECURITY_PARAMETERS_ST_PVERSION'';
     version_id \<leftarrow> macro_value header ''VERSION_ENTRY_ST_ID'';
     Some \<lparr>GT_SECURITY_PARAMETERS = sp, GT_SP_PRF = prf, GT_MAC_ENTRY_ST_ID = mac_id,
       GT_SP_CLIENT_RANDOM = random, GT_SP_MASTER_SECRET = master, GT_TLS13_E_CKEY = e_ckey,
       GT_TLS13_HS_CKEY = hs_ckey, GT_TLS13_HS_SKEY = hs_skey, GT_TLS13_AP_CKEY = ap_ckey,
       GT_TLS13_AP_SKEY = ap_skey, GT_TLS13_AP_EXPKEY = ap_expkey, GT_SP_ST_PVERSION = pversion,
       GT_VERSION_ENTRY_ST_ID = version_id\<rparr>
   }"

text \<open>kern/openssl.h reads \<open>SSL_ST_VERSION\<close> only where \<open>SSL_SESSION_ST_SSL_VERSION\<close> is not defined.\<close>

definition bssl_table_of :: "string \<Rightarrow> bssl_table option" where
  "bssl_table_of header = do {
     let session_version = macro_value header ''SSL_SESSION_ST_SSL_VERSION'';
     version \<leftarrow> if session_version = None then macro_value header ''SSL_ST_VERSION'' else Some 0;
     rbio \<leftarrow> macro_value header ''SSL_ST_RBIO'';
     wbio \<leftarrow> macro_value header ''SSL_ST_WBIO'';
     num \<leftarrow> macro_value header ''BIO_ST_NUM'';
     mthd \<leftarrow> macro_value header ''BIO_ST_METHOD'';
     type \<leftarrow> macro_value header ''BIO_METHOD_ST_TYPE'';
     session \<leftarrow> macro_value header ''SSL_ST_SESSION'';
     s3 \<leftarrow> macro_value header ''SSL_ST_S3'';
     secret_length \<leftarrow> macro_value header ''SSL_SESSION_ST_SECRET_LENGTH'';
     secret \<leftarrow> macro_value header ''SSL_SESSION_ST_SECRET'';
     cipher \<leftarrow> macro_value header ''SSL_SESSION_ST_CIPHER'';
     id \<leftarrow> macro_value header ''SSL_CIPHER_ST_ID'';
     hs \<leftarrow> macro_value header ''BSSL__SSL3_STATE_HS'';
     random \<leftarrow> macro_value header ''BSSL__SSL3_STATE_CLIENT_RANDOM'';
     exporter \<leftarrow> macro_value header ''BSSL__SSL3_STATE_EXPORTER_SECRET'';
     new_session \<leftarrow> macro_value header ''BSSL__SSL_HANDSHAKE_NEW_SESSION'';
     early_session \<leftarrow> macro_value header ''BSSL__SSL_HANDSHAKE_EARLY_SESSION'';
     hints \<leftarrow> macro_value header ''BSSL__SSL_HANDSHAKE_HINTS'';
     client_version \<leftarrow> macro_value header ''BSSL__SSL_HANDSHAKE_CLIENT_VERSION'';
     state \<leftarrow> macro_value header ''BSSL__SSL_HANDSHAKE_STATE'';
     tls13_state \<leftarrow> macro_value header ''BSSL__SSL_HANDSHAKE_TLS13_STATE'';
     max_version \<leftarrow> macro_value header ''BSSL__SSL_HANDSHAKE_MAX_VERSION'';
     Some \<lparr>SSL_ST_VERSION = version, HAS_SSL_ST_VERSION = (session_version = None), SSL_ST_RBIO = rbio,
       SSL_ST_WBIO = wbio, BIO_ST_NUM = num, BIO_ST_METHOD = mthd, BIO_METHOD_ST_TYPE = type,
       BT_SESSION = session, BT_S3 = s3, BT_SECRET_LENGTH = secret_length, BT_SECRET = secret,
       BT_CIPHER = cipher, BT_CIPHER_ST_ID = id, BT_HS = hs, BT_CLIENT_RANDOM = random,
       BT_EXPORTER_SECRET = exporter, BT_NEW_SESSION = new_session, BT_EARLY_SESSION = early_session,
       BT_HINTS = hints, BT_CLIENT_VERSION = client_version, BT_STATE = state, BT_TLS13_STATE = tls13_state,
       BT_MAX_VERSION = max_version,
       BT_SERVER_TS = macro_value header ''BSSL__SSL3_STATE_SERVER_TRAFFIC_SECRET_0'',
       BT_CLIENT_TS = macro_value header ''BSSL__SSL3_STATE_CLIENT_TRAFFIC_SECRET_0'',
       BT_SERVER_TS_LEN = macro_value header ''BSSL__SSL3_STATE_SERVER_TRAFFIC_SECRET_0_LEN'',
       BT_CLIENT_TS_LEN = macro_value header ''BSSL__SSL3_STATE_CLIENT_TRAFFIC_SECRET_0_LEN'',
       BT_ESTABLISHED = macro_value header ''BSSL__SSL3_STATE_ESTABLISHED_SESSION'',
       BT_S3_VERSION = macro_value header ''BSSL__SSL3_STATE_VERSION'',
       BT_SESSION_VERSION = session_version\<rparr>
   }"

section \<open>The programs as header generators\<close>

lemmas offset_lists = SSL_STRUCT_OFFSETS_1_0_2_def SSL_STRUCT_OFFSETS_1_1_0_def SSL_STRUCT_OFFSETS_1_1_1_def
  SSL_STRUCT_OFFSETS_3_0_def SSL_STRUCT_OFFSETS_3_2_0_def SSL_STRUCT_OFFSETS_3_5_0_def
  SSL_STRUCT_OFFSETS_gnutls_def SSL_ANY_STRUCT_OFFSETS_gnutls_def

lemmas name_simps = field_ok_def c_ident_def macro_name_def no_sep_def dot_sep_def scope_sep_def

interpretation g102: header_generator no_sep SSL_STRUCT_OFFSETS_1_0_2
  by unfold_locales (simp_all add: offset_lists name_simps)

interpretation g110: header_generator no_sep SSL_STRUCT_OFFSETS_1_1_0
  by unfold_locales (simp_all add: offset_lists name_simps)

interpretation g111: header_generator no_sep SSL_STRUCT_OFFSETS_1_1_1
  by unfold_locales (simp_all add: offset_lists name_simps)

interpretation g30: header_generator dot_sep SSL_STRUCT_OFFSETS_3_0
  by unfold_locales (simp_all add: offset_lists name_simps)

interpretation g32: header_generator dot_sep SSL_STRUCT_OFFSETS_3_2_0
  by unfold_locales (simp_all add: offset_lists name_simps)

interpretation g35: header_generator dot_sep SSL_STRUCT_OFFSETS_3_5_0
  by unfold_locales (simp_all add: offset_lists name_simps)

interpretation gtls: header_generator dot_sep "SSL_STRUCT_OFFSETS_gnutls @ SSL_ANY_STRUCT_OFFSETS_gnutls"
  by unfold_locales (simp_all add: offset_lists name_simps)

lemma define_lines_main_1_0_2:
  "newline \<notin> set text \<Longrightarrow>
     define_lines (main_1_0_2 off text num @ s) = field_macros no_sep off SSL_STRUCT_OFFSETS_1_0_2 @ define_lines s"
  by (simp add: main_1_0_2_def printf_d_def define_lines_banner g102.define_lines_emit_all)

lemma define_lines_main_1_1_0:
  "newline \<notin> set text \<Longrightarrow>
     define_lines (main_1_1_0 off text num @ s) = field_macros no_sep off SSL_STRUCT_OFFSETS_1_1_0 @ define_lines s"
  by (simp add: main_1_1_0_def printf_d_def define_lines_banner g110.define_lines_emit_all)

lemma define_lines_main_1_1_1:
  "newline \<notin> set text \<Longrightarrow>
     define_lines (main_1_1_1 off text num @ s) = field_macros no_sep off SSL_STRUCT_OFFSETS_1_1_1 @ define_lines s"
  by (simp add: main_1_1_1_def printf_d_def define_lines_banner g111.define_lines_emit_all)

lemma define_lines_main_3_0:
  "newline \<notin> set text \<Longrightarrow>
     define_lines (main_3_0 off text num @ s) = field_macros dot_sep off SSL_STRUCT_OFFSETS_3_0 @ define_lines s"
  by (simp add: main_3_0_def printf_d_def define_lines_banner g30.define_lines_emit_all)

lemma define_lines_main_3_2_0:
  "newline \<notin> set text \<Longrightarrow>
     define_lines (main_3_2_0 off text num @ s) = field_macros dot_sep off SSL_STRUCT_OFFSETS_3_2_0 @ define_lines s"
  by (simp add: main_3_2_0_def printf_ld_def define_lines_banner g32.define_lines_emit_all)

lemma define_lines_main_3_5_0:
  "newline \<notin> set text \<Longrightarrow>
     define_lines (main_3_5_0 off text num @ s) = field_macros dot_sep off SSL_STRUCT_OFFSETS_3_5_0 @ define_lines s"
  by (simp add: main_3_5_0_def printf_ld_def define_lines_banner g35.define_lines_emit_all)

lemma emit_all_append [simp]: "emit_all sep off (as @ bs) = emit_all sep off as @ emit_all sep off bs"
  by (simp add: emit_all_def)

lemma define_lines_main_gnutls:
  "define_lines (main_gnutls off @ s) =
     field_macros dot_sep off (SSL_STRUCT_OFFSETS_gnutls @ SSL_ANY_STRUCT_OFFSETS_gnutls) @ define_lines s"
  using gtls.define_lines_emit_all [of off s] by (simp add: main_gnutls_def)

lemma define_lines_tls13_defaults:
  assumes "newline \<notin> set version"
  shows "define_lines (tls13_defaults version) =
    [(''SSL_ST_EARLY_SECRET'', ''0''), (''SSL_ST_HANDSHAKE_SECRET'', ''0''), (''SSL_ST_HANDSHAKE_TRAFFIC_HASH'', ''0''),
     (''SSL_ST_CLIENT_APP_TRAFFIC_SECRET'', ''0''), (''SSL_ST_SERVER_APP_TRAFFIC_SECRET'', ''0''),
     (''SSL_ST_EXPORTER_MASTER_SECRET'', ''0'')]"
  using assms define_lines_skip [of "''// openssl '' @ version @ '' does not support TLS 1.3, set 0 default''"]
  by (simp add: tls13_defaults_def define_lines_define_line c_ident_def)

lemma define_lines_connection_aliases:
  "define_lines connection_aliases =
    [(''SSL_ST_VERSION'', ''SSL_CONNECTION_ST_VERSION''), (''SSL_ST_WBIO'', ''SSL_CONNECTION_ST_WBIO''),
     (''SSL_ST_RBIO'', ''SSL_CONNECTION_ST_RBIO'')]"
  by (simp add: connection_aliases_def define_lines_define_line c_ident_def)

section \<open>The tables that come out\<close>

text \<open>
  The table of a layout: every field holds the offset of the member it is named after. \<open>conn\<close> is the
  struct of a connection, \<open>random\<close> where the client random is, and without TLS 1.3 its offsets are 0.
\<close>

definition openssl_layout ::
  "string \<Rightarrow> u64 \<Rightarrow> bool \<Rightarrow> u64 option \<Rightarrow> u64 option \<Rightarrow> offsetof \<Rightarrow> openssl_mk_table" where
  "openssl_layout conn random tls13 typ quic off =
     \<lparr>SSL_ST_VERSION = off conn ''version'', HAS_SSL_ST_VERSION = True, SSL_ST_RBIO = off conn ''rbio'',
      SSL_ST_WBIO = off conn ''wbio'', BIO_ST_NUM = off ''bio_st'' ''num'', BIO_ST_METHOD = off ''bio_st'' ''method'',
      BIO_METHOD_ST_TYPE = off ''bio_method_st'' ''type'', OT_SESSION = off conn ''session'', OT_S3 = off conn ''s3'',
      OT_SERVER = off conn ''server'', OT_MASTER_KEY = off ''ssl_session_st'' ''master_key'',
      OT_CLIENT_RANDOM = random, OT_CIPHER = off ''ssl_session_st'' ''cipher'',
      OT_CIPHER_ID = off ''ssl_session_st'' ''cipher_id'', OT_CIPHER_ST_ID = off ''ssl_cipher_st'' ''id'',
      OT_EARLY_SECRET = (if tls13 then off conn ''early_secret'' else 0),
      OT_HANDSHAKE_SECRET = (if tls13 then off conn ''handshake_secret'' else 0),
      OT_HANDSHAKE_TRAFFIC_HASH = (if tls13 then off conn ''handshake_traffic_hash'' else 0),
      OT_CLIENT_APP_TRAFFIC_SECRET = (if tls13 then off conn ''client_app_traffic_secret'' else 0),
      OT_SERVER_APP_TRAFFIC_SECRET = (if tls13 then off conn ''server_app_traffic_secret'' else 0),
      OT_EXPORTER_MASTER_SECRET = (if tls13 then off conn ''exporter_master_secret'' else 0),
      OT_TYPE = typ, OT_QUIC_TLS = quic\<rparr>"

lemma int_literal_0: "int_literal ''0'' = Some 0"
  by (simp add: int_literal_def digit_value_def)

lemmas table_simps = openssl_table_of_def openssl_layout_def offset_lists name_simps

lemma table_1_0_2:
  assumes "newline \<notin> set text"
  shows "openssl_table_of ''SSL_ST_'' ''SSL3_STATE_ST_CLIENT_RANDOM'' (main_1_0_2 off text num @ tls13_defaults ''1.0.2'') =
    Some (openssl_layout ''ssl_st'' (off ''ssl3_state_st'' ''client_random'') False None None off)"
proof -
  have version_line: "newline \<notin> set ''1.0.2''" by simp
  let ?h = "main_1_0_2 off text num @ tls13_defaults ''1.0.2''"
  have d: "define_lines ?h = field_macros no_sep off SSL_STRUCT_OFFSETS_1_0_2 @ define_lines (tls13_defaults ''1.0.2'')"
    using define_lines_main_1_0_2 [OF assms, of off num "tls13_defaults ''1.0.2''"] by simp
  have n: "macro_value ?h ''SSL_ST_TYPE'' = None \<and> macro_value ?h ''QUIC_CONN_ST_TLS'' = None"
    by (intro conjI; rule g102.no_value [OF d]) (simp_all add: offset_lists name_simps define_lines_tls13_defaults)
  have z: "list_all (\<lambda>m. macro_value ?h m = Some (of_nat 0)) (map fst (define_lines (tls13_defaults ''1.0.2'')))"
    unfolding define_lines_tls13_defaults [OF version_line] list.map fst_conv list.pred_inject
    by (intro conjI list.pred_inject(1); rule g102.other_value [OF d _ _ int_literal_0])
      (simp_all add: define_lines_tls13_defaults offset_lists name_simps)
  show ?thesis
    using g102.field_values [OF d] n z by (simp add: table_simps define_lines_tls13_defaults)
qed

lemma table_1_1_0:
  assumes "newline \<notin> set text"
  shows "openssl_table_of ''SSL_ST_'' ''SSL3_STATE_ST_CLIENT_RANDOM'' (main_1_1_0 off text num @ tls13_defaults ''1.1.0'') =
    Some (openssl_layout ''ssl_st'' (off ''ssl3_state_st'' ''client_random'') False None None off)"
proof -
  have version_line: "newline \<notin> set ''1.1.0''" by simp
  let ?h = "main_1_1_0 off text num @ tls13_defaults ''1.1.0''"
  have d: "define_lines ?h = field_macros no_sep off SSL_STRUCT_OFFSETS_1_1_0 @ define_lines (tls13_defaults ''1.1.0'')"
    using define_lines_main_1_1_0 [OF assms, of off num "tls13_defaults ''1.1.0''"] by simp
  have n: "macro_value ?h ''SSL_ST_TYPE'' = None \<and> macro_value ?h ''QUIC_CONN_ST_TLS'' = None"
    by (intro conjI; rule g110.no_value [OF d]) (simp_all add: offset_lists name_simps define_lines_tls13_defaults)
  have z: "list_all (\<lambda>m. macro_value ?h m = Some (of_nat 0)) (map fst (define_lines (tls13_defaults ''1.1.0'')))"
    unfolding define_lines_tls13_defaults [OF version_line] list.map fst_conv list.pred_inject
    by (intro conjI list.pred_inject(1); rule g110.other_value [OF d _ _ int_literal_0])
      (simp_all add: define_lines_tls13_defaults offset_lists name_simps)
  show ?thesis
    using g110.field_values [OF d] n z by (simp add: table_simps define_lines_tls13_defaults)
qed

lemma table_1_1_1:
  assumes "newline \<notin> set text"
  shows "openssl_table_of ''SSL_ST_'' ''SSL3_STATE_ST_CLIENT_RANDOM'' (main_1_1_1 off text num) =
    Some (openssl_layout ''ssl_st'' (off ''ssl3_state_st'' ''client_random'') True None None off)"
proof -
  let ?h = "main_1_1_1 off text num"
  have d: "define_lines ?h = field_macros no_sep off SSL_STRUCT_OFFSETS_1_1_1 @ []"
    using define_lines_main_1_1_1 [OF assms, of off num "[]"] by simp
  have n: "macro_value ?h ''SSL_ST_TYPE'' = None \<and> macro_value ?h ''QUIC_CONN_ST_TLS'' = None"
    by (intro conjI; rule g111.no_value [OF d]) (simp_all add: offset_lists name_simps define_lines_tls13_defaults)
  show ?thesis
    using g111.field_values [OF d] n by (simp add: table_simps)
qed

lemma table_3_0:
  assumes "newline \<notin> set text"
  shows "openssl_table_of ''SSL_ST_'' ''SSL_ST_S3_CLIENT_RANDOM'' (main_3_0 off text num) =
    Some (openssl_layout ''ssl_st'' (off ''ssl_st'' ''s3.client_random'') True None None off)"
proof -
  let ?h = "main_3_0 off text num"
  have d: "define_lines ?h = field_macros dot_sep off SSL_STRUCT_OFFSETS_3_0 @ []"
    using define_lines_main_3_0 [OF assms, of off num "[]"] by simp
  have n: "macro_value ?h ''SSL_ST_TYPE'' = None \<and> macro_value ?h ''QUIC_CONN_ST_TLS'' = None"
    by (intro conjI; rule g30.no_value [OF d]) (simp_all add: offset_lists name_simps define_lines_tls13_defaults)
  show ?thesis
    using g30.field_values [OF d] n by (simp add: table_simps)
qed

lemma table_3_2_0:
  assumes "newline \<notin> set text"
  shows "openssl_table_of ''SSL_CONNECTION_ST_'' ''SSL_CONNECTION_ST_S3_CLIENT_RANDOM'' (main_3_2_0 off text num @ connection_aliases) =
    Some (openssl_layout ''ssl_connection_st'' (off ''ssl_connection_st'' ''s3.client_random'') True (Some (off ''ssl_st'' ''type'')) (Some (off ''quic_conn_st'' ''tls'')) off)"
proof -
  let ?h = "main_3_2_0 off text num @ connection_aliases"
  have d: "define_lines ?h = field_macros dot_sep off SSL_STRUCT_OFFSETS_3_2_0 @ define_lines connection_aliases"
    using define_lines_main_3_2_0 [OF assms, of off num "connection_aliases"] by simp
  have a: "list_all (\<lambda>(m, f). macro_value ?h m = Some (off ''ssl_connection_st'' f))
      [(''SSL_ST_VERSION'', ''version''), (''SSL_ST_WBIO'', ''wbio''), (''SSL_ST_RBIO'', ''rbio'')]"
    by (simp, intro conjI; rule g32.alias_value [OF d])
      (simp_all add: define_lines_connection_aliases offset_lists name_simps)
  show ?thesis
    using g32.field_values [OF d] a by (simp add: table_simps)
qed

lemma table_3_5_0:
  assumes "newline \<notin> set text"
  shows "openssl_table_of ''SSL_CONNECTION_ST_'' ''SSL_CONNECTION_ST_S3_CLIENT_RANDOM'' (main_3_5_0 off text num @ connection_aliases) =
    Some (openssl_layout ''ssl_connection_st'' (off ''ssl_connection_st'' ''s3.client_random'') True (Some (off ''ssl_st'' ''type'')) (Some (off ''quic_conn_st'' ''tls'')) off)"
proof -
  let ?h = "main_3_5_0 off text num @ connection_aliases"
  have d: "define_lines ?h = field_macros dot_sep off SSL_STRUCT_OFFSETS_3_5_0 @ define_lines connection_aliases"
    using define_lines_main_3_5_0 [OF assms, of off num "connection_aliases"] by simp
  have a: "list_all (\<lambda>(m, f). macro_value ?h m = Some (off ''ssl_connection_st'' f))
      [(''SSL_ST_VERSION'', ''version''), (''SSL_ST_WBIO'', ''wbio''), (''SSL_ST_RBIO'', ''rbio'')]"
    by (simp, intro conjI; rule g35.alias_value [OF d])
      (simp_all add: define_lines_connection_aliases offset_lists name_simps)
  show ?thesis
    using g35.field_values [OF d] a by (simp add: table_simps)
qed

definition gnutls_layout :: "offsetof \<Rightarrow> gnutls_table" where
  "gnutls_layout off =
     \<lparr>GT_SECURITY_PARAMETERS = off ''gnutls_session_int'' ''security_parameters'',
      GT_SP_PRF = off ''gnutls_session_int'' ''security_parameters.prf'', GT_MAC_ENTRY_ST_ID = off ''mac_entry_st'' ''id'',
      GT_SP_CLIENT_RANDOM = off ''gnutls_session_int'' ''security_parameters.client_random'',
      GT_SP_MASTER_SECRET = off ''gnutls_session_int'' ''security_parameters.master_secret'',
      GT_TLS13_E_CKEY = off ''gnutls_session_int'' ''key.proto.tls13.e_ckey'',
      GT_TLS13_HS_CKEY = off ''gnutls_session_int'' ''key.proto.tls13.hs_ckey'',
      GT_TLS13_HS_SKEY = off ''gnutls_session_int'' ''key.proto.tls13.hs_skey'',
      GT_TLS13_AP_CKEY = off ''gnutls_session_int'' ''key.proto.tls13.ap_ckey'',
      GT_TLS13_AP_SKEY = off ''gnutls_session_int'' ''key.proto.tls13.ap_skey'',
      GT_TLS13_AP_EXPKEY = off ''gnutls_session_int'' ''key.proto.tls13.ap_expkey'',
      GT_SP_ST_PVERSION = off ''security_parameters_st'' ''pversion'',
      GT_VERSION_ENTRY_ST_ID = off ''version_entry_st'' ''id''\<rparr>"

lemma table_gnutls: "gnutls_table_of (main_gnutls off) = Some (gnutls_layout off)"
proof -
  have d: "define_lines (main_gnutls off) =
      field_macros dot_sep off (SSL_STRUCT_OFFSETS_gnutls @ SSL_ANY_STRUCT_OFFSETS_gnutls) @ []"
    using define_lines_main_gnutls [of off "[]"] by simp
  show ?thesis
    using gtls.field_values [OF d] by (simp add: gnutls_table_of_def gnutls_layout_def offset_lists name_simps)
qed

subsection \<open>BoringSSL\<close>

definition bssl_macros :: "(string \<Rightarrow> string \<Rightarrow> bool) \<Rightarrow> offsetof \<Rightarrow> macros" where
  "bssl_macros has off =
     (if has ''ssl_st'' ''version'' then field_macros scope_sep off [(''ssl_st'', ''version'')]
      else field_macros scope_sep off [(''ssl_session_st'', ''ssl_version'')])
     @ field_macros scope_sep off bssl_ssl_st
     @ [(''SSL_SESSION_ST_SECRET_LENGTH'',
         if has ''ssl_session_st'' ''secret_length'' then hex_literal (off ''ssl_session_st'' ''secret_length'') else ''0xFF'')]
     @ field_macros scope_sep off bssl_session_bio_cipher
     @ (if has ''bssl::SSL3_STATE'' ''version'' then field_macros scope_sep off [(''bssl::SSL3_STATE'', ''version'')] else [])
     @ field_macros scope_sep off bssl_handshake"

lemmas bssl_lists = bssl_ssl_st_def bssl_session_bio_cipher_def bssl_handshake_def

lemma define_lines_ssl_st_version:
  "define_lines (emit_ssl_st_version present off @ s) =
     (if present then field_macros scope_sep off [(''ssl_st'', ''version'')]
      else field_macros scope_sep off [(''ssl_session_st'', ''ssl_version'')]) @ define_lines s"
  using define_lines_skip [of "''// ssl_st->version removed in this BoringSSL version.''"]
    define_lines_skip [of "''// SSL_SESSION_ST_SSL_VERSION also acts as the Android 16+ feature flag''"]
    define_lines_skip [of "''// for boringssl_const.h (InplaceVector offsets) and boringssl_masterkey.h.''"]
  by (simp add: emit_ssl_st_version_def field_macros_def define_lines_format name_simps)

lemma define_lines_secret_length:
  "define_lines (emit_secret_length present off @ s) =
     (''SSL_SESSION_ST_SECRET_LENGTH'',
      if present then hex_literal (off ''ssl_session_st'' ''secret_length'') else ''0xFF'') # define_lines s"
  using define_lines_skip [of "''// ssl_session_st->secret_length removed in this BoringSSL version.''"]
    define_lines_skip [of "''// Sentinel 0xFF: boringssl_masterkey.h uses BORINGSSL_SSL_MAX_MASTER_KEY_LENGTH.''"]
    define_lines_define [of "''SSL_SESSION_ST_SECRET_LENGTH''" "''0xFF''" "newline # s"]
  by (simp add: emit_secret_length_def define_lines_format name_simps)

lemma define_lines_ssl3_state_version:
  "define_lines (emit_ssl3_state_version present off @ s) =
     (if present then field_macros scope_sep off [(''bssl::SSL3_STATE'', ''version'')] else []) @ define_lines s"
  using define_lines_skip [of "''// SSL3_STATE->version added in Android 16 (replaces ssl_st->version).''"]
    define_lines_skip [of "''// BSSL__SSL3_STATE_VERSION is the Android 16+ feature flag used by''"]
    define_lines_skip [of "''// boringssl_masterkey.h to read the TLS version before the 1.2/1.3 branch.''"]
  by (simp add: emit_ssl3_state_version_def field_macros_def define_lines_format name_simps)

lemma bssl_fields_ok:
  "list_all (field_ok scope_sep) bssl_ssl_st" "list_all (field_ok scope_sep) bssl_session_bio_cipher"
  "list_all (field_ok scope_sep) bssl_handshake"
  by (simp_all add: bssl_lists name_simps)

lemma define_lines_main_boringssl:
  assumes "newline \<notin> set text"
  shows "define_lines (main_boringssl has off text num) = bssl_macros has off"
  using assms define_lines_fields [OF bssl_fields_ok(3), of off "[]"]
  by (simp add: main_boringssl_def bssl_macros_def define_lines_banner printf_d_def define_lines_ssl_st_version
      define_lines_secret_length define_lines_ssl3_state_version define_lines_fields [OF bssl_fields_ok(1)]
      define_lines_fields [OF bssl_fields_ok(2)])

definition bssl_layout :: "(string \<Rightarrow> string \<Rightarrow> bool) \<Rightarrow> offsetof \<Rightarrow> bssl_table" where
  "bssl_layout has off =
     \<lparr>SSL_ST_VERSION = (if has ''ssl_st'' ''version'' then off ''ssl_st'' ''version'' else 0),
      HAS_SSL_ST_VERSION = has ''ssl_st'' ''version'', SSL_ST_RBIO = off ''ssl_st'' ''rbio'',
      SSL_ST_WBIO = off ''ssl_st'' ''wbio'', BIO_ST_NUM = off ''bio_st'' ''num'', BIO_ST_METHOD = off ''bio_st'' ''method'',
      BIO_METHOD_ST_TYPE = off ''bio_method_st'' ''type'', BT_SESSION = off ''ssl_st'' ''session'', BT_S3 = off ''ssl_st'' ''s3'',
      BT_SECRET_LENGTH = (if has ''ssl_session_st'' ''secret_length'' then off ''ssl_session_st'' ''secret_length'' else 0xFF),
      BT_SECRET = off ''ssl_session_st'' ''secret'', BT_CIPHER = off ''ssl_session_st'' ''cipher'',
      BT_CIPHER_ST_ID = off ''ssl_cipher_st'' ''id'', BT_HS = off ''bssl::SSL3_STATE'' ''hs'',
      BT_CLIENT_RANDOM = off ''bssl::SSL3_STATE'' ''client_random'',
      BT_EXPORTER_SECRET = off ''bssl::SSL3_STATE'' ''exporter_secret'',
      BT_NEW_SESSION = off ''bssl::SSL_HANDSHAKE'' ''new_session'',
      BT_EARLY_SESSION = off ''bssl::SSL_HANDSHAKE'' ''early_session'', BT_HINTS = off ''bssl::SSL_HANDSHAKE'' ''hints'',
      BT_CLIENT_VERSION = off ''bssl::SSL_HANDSHAKE'' ''client_version'', BT_STATE = off ''bssl::SSL_HANDSHAKE'' ''state'',
      BT_TLS13_STATE = off ''bssl::SSL_HANDSHAKE'' ''tls13_state'', BT_MAX_VERSION = off ''bssl::SSL_HANDSHAKE'' ''max_version'',
      BT_SERVER_TS = None, BT_CLIENT_TS = None, BT_SERVER_TS_LEN = None, BT_CLIENT_TS_LEN = None,
      BT_ESTABLISHED = Some (off ''bssl::SSL3_STATE'' ''established_session''),
      BT_S3_VERSION = (if has ''bssl::SSL3_STATE'' ''version'' then Some (off ''bssl::SSL3_STATE'' ''version'') else None),
      BT_SESSION_VERSION = (if has ''ssl_st'' ''version'' then None else Some (off ''ssl_session_st'' ''ssl_version''))\<rparr>"

lemma int_literal_sentinel: "int_literal ''0xFF'' = Some 255"
  by (simp add: int_literal_def digit_value_def)

text \<open>The names of the macros, whichever members exist.\<close>

lemma bssl_macro_names:
  "map fst (bssl_macros has off) =
     [if has ''ssl_st'' ''version'' then ''SSL_ST_VERSION'' else ''SSL_SESSION_ST_SSL_VERSION'',
      ''SSL_ST_SESSION'', ''SSL_ST_RBIO'', ''SSL_ST_WBIO'', ''SSL_ST_S3'',
      ''SSL_SESSION_ST_SECRET_LENGTH'', ''SSL_SESSION_ST_SECRET'', ''SSL_SESSION_ST_CIPHER'',
      ''BIO_ST_NUM'', ''BIO_ST_METHOD'', ''BIO_METHOD_ST_TYPE'', ''SSL_CIPHER_ST_ID'', ''BSSL__SSL3_STATE_HS'',
      ''BSSL__SSL3_STATE_CLIENT_RANDOM'', ''BSSL__SSL3_STATE_EXPORTER_SECRET'', ''BSSL__SSL3_STATE_ESTABLISHED_SESSION'']
     @ (if has ''bssl::SSL3_STATE'' ''version'' then [''BSSL__SSL3_STATE_VERSION''] else [])
     @ [''BSSL__SSL_HANDSHAKE_NEW_SESSION'', ''BSSL__SSL_HANDSHAKE_EARLY_SESSION'', ''BSSL__SSL_HANDSHAKE_HINTS'',
        ''BSSL__SSL_HANDSHAKE_CLIENT_VERSION'', ''BSSL__SSL_HANDSHAKE_STATE'', ''BSSL__SSL_HANDSHAKE_TLS13_STATE'',
        ''BSSL__SSL_HANDSHAKE_MAX_VERSION'']"
  by (simp add: bssl_macros_def field_macros_def bssl_lists name_simps)

lemma bssl_macros_distinct: "distinct (map fst (bssl_macros has off))"
  unfolding bssl_macro_names
  by (cases "has ''ssl_st'' ''version''"; cases "has ''bssl::SSL3_STATE'' ''version''") simp_all

lemma bssl_macros_ident: "list_all (c_ident \<circ> fst) (bssl_macros has off)"
  unfolding list.pred_map [symmetric] bssl_macro_names by (simp add: c_ident_def)

lemma bssl_macros_literal: "list_all (\<lambda>(_, body). int_literal body \<noteq> None) (bssl_macros has off)"
  by (auto simp: bssl_macros_def list_all_iff field_macros_def int_literal_sentinel)

lemma bssl_macro_values:
  assumes "newline \<notin> set text"
  shows "list_all (\<lambda>(m, body). macro_value (main_boringssl has off text num) m = map_option of_nat (int_literal body))
    (bssl_macros has off)"
  using macro_values_flat [of "main_boringssl has off text num"] bssl_macros_distinct [of has off]
    bssl_macros_ident [of has off] bssl_macros_literal [of has off]
  unfolding define_lines_main_boringssl [OF assms] by blast

lemma bssl_undefined:
  assumes "newline \<notin> set text" "m \<notin> set (map fst (bssl_macros has off))" "c_ident m"
  shows "macro_value (main_boringssl has off text num) m = None"
  using macro_value_undefined [of m "main_boringssl has off text num"] assms
  by (simp add: define_lines_main_boringssl)

lemma bssl_absent:
  assumes "newline \<notin> set text"
  shows "list_all (\<lambda>m. macro_value (main_boringssl has off text num) m = None)
      ([''BSSL__SSL3_STATE_SERVER_TRAFFIC_SECRET_0'', ''BSSL__SSL3_STATE_CLIENT_TRAFFIC_SECRET_0'',
        ''BSSL__SSL3_STATE_SERVER_TRAFFIC_SECRET_0_LEN'', ''BSSL__SSL3_STATE_CLIENT_TRAFFIC_SECRET_0_LEN'']
       @ (if has ''ssl_st'' ''version'' then [''SSL_SESSION_ST_SSL_VERSION''] else [])
       @ (if has ''bssl::SSL3_STATE'' ''version'' then [] else [''BSSL__SSL3_STATE_VERSION'']))"
  unfolding list_all_iff
  by (intro ballI bssl_undefined [OF assms], unfold bssl_macro_names) (auto simp: c_ident_def split: if_splits)

lemma table_boringssl:
  assumes "newline \<notin> set text"
  shows "bssl_table_of (main_boringssl has off text num) = Some (bssl_layout has off)"
  using bssl_macro_values [OF assms, of has off num] bssl_absent [OF assms, of has off num]
  by (cases "has ''ssl_st'' ''version''"; cases "has ''ssl_session_st'' ''secret_length''";
      cases "has ''bssl::SSL3_STATE'' ''version''")
    (simp_all add: bssl_table_of_def bssl_layout_def bssl_macros_def bssl_lists field_macros_def name_simps
      int_literal_sentinel)

end
