(* ===== verification/Offset_Headers.thy ===== *)
theory Offset_Headers
  imports Offset_Generator
begin

text \<open>
  What the offset generators guarantee: the macros they print read back as the offsets of the members
  (\<open>generated_macros_read_back\<close>), the objects compiled with their output use every offset for
  the member it belongs to (\<open>generated_tables\<close>, \<open>generated_boringssl_table\<close>), the loop of \<open>toUpper\<close>
  ends, and where the shipped Android 16 table differs from what the program prints.
\<close>

section \<open>Printed macros\<close>

definition c_generators :: "offsetof \<Rightarrow> string \<Rightarrow> u64 \<Rightarrow> ((char \<Rightarrow> bool) \<times> (string \<times> string) list \<times> string) list" where
  "c_generators off text num =
     [(no_sep, SSL_STRUCT_OFFSETS_1_0_2, main_1_0_2 off text num),
      (no_sep, SSL_STRUCT_OFFSETS_1_1_0, main_1_1_0 off text num),
      (no_sep, SSL_STRUCT_OFFSETS_1_1_1, main_1_1_1 off text num),
      (dot_sep, SSL_STRUCT_OFFSETS_3_0, main_3_0 off text num),
      (dot_sep, SSL_STRUCT_OFFSETS_3_2_0, main_3_2_0 off text num),
      (dot_sep, SSL_STRUCT_OFFSETS_3_5_0, main_3_5_0 off text num),
      (dot_sep, SSL_STRUCT_OFFSETS_gnutls @ SSL_ANY_STRUCT_OFFSETS_gnutls, main_gnutls off)]"

definition reads_back :: "offsetof \<Rightarrow> (char \<Rightarrow> bool) \<Rightarrow> (string \<times> string) list \<Rightarrow> string \<Rightarrow> bool" where
  "reads_back off sep members out \<longleftrightarrow>
     map fst (define_lines out) = map (\<lambda>(s, f). macro_name sep s f) members
     \<and> distinct (map fst (define_lines out)) \<and> list_all c_ident (map fst (define_lines out))
     \<and> list_all (\<lambda>(s, f). macro_value out (macro_name sep s f) = Some (off s f)) members"

lemma reads_backI:
  assumes "header_generator sep members" "define_lines out = field_macros sep off members @ []"
  shows "reads_back off sep members out"
proof -
  have names: "map fst (define_lines out) = map (\<lambda>(s, f). macro_name sep s f) members"
    using assms(2) by (simp add: field_macros_def case_prod_beta comp_def)
  moreover have "distinct (map fst (define_lines out))"
    using header_generator.macros_distinct [OF assms(1)] by (simp only: names)
  moreover have "list_all c_ident (map fst (define_lines out))"
    using header_generator.fields_ok [OF assms(1)] unfolding names
    by (auto simp: list_all_iff field_ok_def split: prod.splits)
  moreover have "list_all (\<lambda>(s, f). macro_value out (macro_name sep s f) = Some (off s f)) members"
    using header_generator.field_values [OF assms] by (auto simp: list_all_iff split: prod.splits)
  ultimately show ?thesis by (simp add: reads_back_def)
qed

text \<open>
  The macros each of the seven C generators prints are distinct C identifiers, one per
  field of its list and in that order, and the preprocessor reads each as exactly the offset the compiler gave
  for the member, whatever the 64-bit value. (The version text is one line.)
\<close>

theorem generated_macros_read_back:
  assumes "newline \<notin> set text"
  shows "list_all (\<lambda>(sep, members, out). reads_back off sep members out) (c_generators off text num)"
  using define_lines_main_1_0_2 [OF assms, of off num "[]"] define_lines_main_1_1_0 [OF assms, of off num "[]"]
    define_lines_main_1_1_1 [OF assms, of off num "[]"] define_lines_main_3_0 [OF assms, of off num "[]"]
    define_lines_main_3_2_0 [OF assms, of off num "[]"] define_lines_main_3_5_0 [OF assms, of off num "[]"]
    define_lines_main_gnutls [of off "[]"]
  by (simp add: c_generators_def reads_backI g102.header_generator_axioms g110.header_generator_axioms
      g111.header_generator_axioms g30.header_generator_axioms g32.header_generator_axioms
      g35.header_generator_axioms gtls.header_generator_axioms)

lemma generated_macros_read_back_witness:
  "reads_back (\<lambda>_ _. 0x1f8) no_sep SSL_STRUCT_OFFSETS_1_1_1 (main_1_1_1 (\<lambda>_ _. 0x1f8) ''OpenSSL 1.1.1j'' 0x101010af)"
  using generated_macros_read_back [of "''OpenSSL 1.1.1j''" "\<lambda>_ _. 0x1f8" "0x101010af"]
  by (simp add: c_generators_def)

text \<open>
  C23: The loop of \<open>toUpper\<close> returns on every NUL-terminated array, and what it prints depends on the characters
  before the first NUL only.
\<close>

theorem toUpper_loop_returns:
  assumes "s n = CHR 0x00"
  shows "toUpper_loop sep s 0 = Some (toUpper sep (takeWhile (\<lambda>c. c \<noteq> CHR 0x00) (map s [0..<n])))"
  using toUpper_loop_string [of s n 0 sep] assms by simp

lemma toUpper_loop_returns_witness:
  "toUpper_loop dot_sep (\<lambda>i. if i < 3 then ''s3.'' ! i else CHR 0x00) 0 = Some ''S3_''"
  using toUpper_loop_returns [of "\<lambda>i. if i < 3 then ''s3.'' ! i else CHR 0x00" 3 dot_sep]
  by (simp add: upt_rec dot_sep_def numeral_3_eq_3)

section \<open>Tables\<close>

text \<open>
  C22: An object compiled with the output of its generator (followed by the hand-written lines of
  its kern file) has, in every field of its table, the offset of the member that field is named after; before 3.0 the client
  random is relative to \<open>ssl3_state_st\<close>, from 3.0 on to the connection, and from 3.2 on kern/openssl.h
  gets the members of \<open>ssl_connection_st\<close> through the aliases.
\<close>

theorem generated_tables:
  assumes "newline \<notin> set text"
  shows "openssl_table_of ''SSL_ST_'' ''SSL3_STATE_ST_CLIENT_RANDOM'' (main_1_0_2 off text num @ tls13_defaults ''1.0.2'') =
      Some (openssl_layout ''ssl_st'' (off ''ssl3_state_st'' ''client_random'') False None None off)
    \<and> openssl_table_of ''SSL_ST_'' ''SSL3_STATE_ST_CLIENT_RANDOM'' (main_1_1_0 off text num @ tls13_defaults ''1.1.0'') =
      Some (openssl_layout ''ssl_st'' (off ''ssl3_state_st'' ''client_random'') False None None off)
    \<and> openssl_table_of ''SSL_ST_'' ''SSL3_STATE_ST_CLIENT_RANDOM'' (main_1_1_1 off text num) =
      Some (openssl_layout ''ssl_st'' (off ''ssl3_state_st'' ''client_random'') True None None off)
    \<and> openssl_table_of ''SSL_ST_'' ''SSL_ST_S3_CLIENT_RANDOM'' (main_3_0 off text num) =
      Some (openssl_layout ''ssl_st'' (off ''ssl_st'' ''s3.client_random'') True None None off)
    \<and> openssl_table_of ''SSL_CONNECTION_ST_'' ''SSL_CONNECTION_ST_S3_CLIENT_RANDOM'' (main_3_2_0 off text num @ connection_aliases) =
      Some (openssl_layout ''ssl_connection_st'' (off ''ssl_connection_st'' ''s3.client_random'') True
        (Some (off ''ssl_st'' ''type'')) (Some (off ''quic_conn_st'' ''tls'')) off)
    \<and> openssl_table_of ''SSL_CONNECTION_ST_'' ''SSL_CONNECTION_ST_S3_CLIENT_RANDOM'' (main_3_5_0 off text num @ connection_aliases) =
      Some (openssl_layout ''ssl_connection_st'' (off ''ssl_connection_st'' ''s3.client_random'') True
        (Some (off ''ssl_st'' ''type'')) (Some (off ''quic_conn_st'' ''tls'')) off)
    \<and> gnutls_table_of (main_gnutls off) = Some (gnutls_layout off)"
  using assms by (simp add: table_1_0_2 table_1_1_0 table_1_1_1 table_3_0 table_3_2_0 table_3_5_0 table_gnutls)

text \<open>The layouts of the libraries the shipped tables were generated from, where the programs below need one.\<close>

definition layout_of_list :: "((string \<times> string) \<times> u64) list \<Rightarrow> offsetof" where
  "layout_of_list l s f = (case map_of l (s, f) of Some w \<Rightarrow> w | None \<Rightarrow> 0)"

definition openssl_1_1_1j_layout :: offsetof where
  "openssl_1_1_1j_layout = layout_of_list (zip SSL_STRUCT_OFFSETS_1_1_1
     [0x0, 0x510, 0xa8, 0x10, 0x18, 0x38, 0x50, 0xb8, 0x1f0, 0x1f8, 0x18, 0x13c, 0x17c, 0x2fc, 0x33c, 0x37c, 0x3bc,
      0x30, 0x0, 0x0])"

definition boringssl_a_16_has :: "string \<Rightarrow> string \<Rightarrow> bool" where
  "boringssl_a_16_has s f \<longleftrightarrow> (s, f) = (''bssl::SSL3_STATE'', ''version'')"

definition boringssl_a_16_layout :: offsetof where
  "boringssl_a_16_layout = layout_of_list (zip
     ((''ssl_session_st'', ''ssl_version'') # (''bssl::SSL3_STATE'', ''version'')
      # bssl_ssl_st @ bssl_session_bio_cipher @ bssl_handshake)
     [0x4, 0xd0, 0x58, 0x18, 0x20, 0x30, 0xa, 0xc8, 0x20, 0x0, 0x0, 0x10, 0x118, 0x30, 0x182, 0x1d0,
      0x5f0, 0x5f8, 0x628, 0x634, 0x14, 0x18, 0x1e])"

text \<open>With the layout of OpenSSL 1.1.1j this is the shipped table.\<close>

lemma generated_tables_witness:
  "openssl_table_of ''SSL_ST_'' ''SSL3_STATE_ST_CLIENT_RANDOM''
     (main_1_1_1 openssl_1_1_1j_layout ''OpenSSL 1.1.1j  16 Feb 2021'' 0x101010af) = Some openssl_1_1_1j"
  using generated_tables [of "''OpenSSL 1.1.1j  16 Feb 2021''" openssl_1_1_1j_layout "0x101010af"]
  by (simp add: openssl_layout_def openssl_1_1_1j_layout_def layout_of_list_def offset_lists openssl_1_1_1j_def)

text \<open>
  The BoringSSL program follows the members that exist: the object reads the version from the connection exactly
  where \<open>ssl_st\<close> has one and otherwise takes the Android 16 branch of boringssl_const.h, the secret length is
  its offset or the sentinel, and all other fields of the table are the members' offsets.
\<close>

theorem generated_boringssl_table:
  assumes "newline \<notin> set text"
  shows "bssl_table_of (main_boringssl has off text num) = Some (bssl_layout has off)
    \<and> (HAS_SSL_ST_VERSION (bssl_layout has off) \<longleftrightarrow> has ''ssl_st'' ''version'')
    \<and> (android16 (bssl_layout has off) \<longleftrightarrow> \<not> has ''ssl_st'' ''version'')"
  using assms by (simp add: table_boringssl bssl_layout_def android16_def)

lemma generated_boringssl_table_witness:
  "bssl_table_of (main_boringssl boringssl_a_16_has boringssl_a_16_layout ''OpenSSL 1.1.1 (compatible; BoringSSL)'' 0x1010107f) =
     Some (boringssl_a_16 \<lparr>BT_SERVER_TS := None, BT_CLIENT_TS := None, BT_SERVER_TS_LEN := None, BT_CLIENT_TS_LEN := None\<rparr>)"
  using generated_boringssl_table [of "''OpenSSL 1.1.1 (compatible; BoringSSL)''" boringssl_a_16_has boringssl_a_16_layout "0x1010107f"]
  by (simp add: bssl_layout_def boringssl_a_16_has_def boringssl_a_16_layout_def layout_of_list_def bssl_lists boringssl_a_16_def)

text \<open>
  C35: The shipped Android 16 table holds four offsets of \<open>SSL3_STATE\<close> the program never prints. A header made by the
  program alone, from any layout, falls back to the defaults of boringssl_masterkey.h: the client
  traffic secret is then read one byte before its place, and the two lengths from other bytes.
\<close>

theorem regenerated_android16_header:
  assumes "newline \<notin> set text"
  shows "\<exists>tab. bssl_table_of (main_boringssl has off text num) = Some tab
    \<and> CLIENT_TRAFFIC_SECRET_0 tab + 1 = CLIENT_TRAFFIC_SECRET_0 boringssl_a_16
    \<and> SERVER_TRAFFIC_SECRET_0_LEN tab \<noteq> SERVER_TRAFFIC_SECRET_0_LEN boringssl_a_16
    \<and> CLIENT_TRAFFIC_SECRET_0_LEN tab \<noteq> CLIENT_TRAFFIC_SECRET_0_LEN boringssl_a_16"
  using assms by (simp add: table_boringssl bssl_layout_def bssl_const_defs boringssl_a_16_def)

lemma regenerated_android16_header_witness:
  "\<exists>tab. bssl_table_of (main_boringssl boringssl_a_16_has boringssl_a_16_layout ''BoringSSL'' 0) = Some tab
    \<and> CLIENT_TRAFFIC_SECRET_0 tab + 1 = CLIENT_TRAFFIC_SECRET_0 boringssl_a_16"
  using regenerated_android16_header [of "''BoringSSL''" boringssl_a_16_has boringssl_a_16_layout 0] by auto

end
