(* ===== verification/Keylog_Handler.thy ===== *)
theory Keylog_Handler
  imports Gotls_Probe Offset_Text "HOL-Library.Monad_Syntax"
begin

text \<open>
  The consumer of the key events: \<open>KeylogHandler\<close> of internal/probe/base/handlers, which prints TLS
  secrets as lines of the NSS key log, with \<open>ExpandLabel\<close> of pkg/util/hkdf, the \<open>MasterSecretEvent\<close> of
  internal/probe/openssl with its decoder, and \<open>KeylogWriter\<close> of internal/output/writers. A Go slice
  expression beyond the end of its operand panics: such calls return \<open>None\<close>. The arguments
  \<open>io\<close> are what the file does with a write, a flush and a close, and the order in which \<open>range\<close> visits a map
  (Go leaves it open). \<open>hkdf.Expand\<close> is third-party code and an argument too.
\<close>

section \<open>The event of the OpenSSL probe\<close>

record OpensslSecretEvent =
  se_Version :: s32
  se_ClientRandom :: bytes
  se_MasterKey :: bytes
  se_CipherId :: u32
  se_EarlySecret :: bytes
  se_HandshakeSecret :: bytes
  se_HandshakeTrafficHash :: bytes
  se_ClientAppTrafficSecret :: bytes
  se_ServerAppTrafficSecret :: bytes
  se_ExporterMasterSecret :: bytes

datatype go_error = ErrEventDecode | ErrEventValidation | ErrEventDispatch | ErrWriter

definition Ssl3RandomSize :: nat where
  "Ssl3RandomSize = 32"

definition MasterSecretMaxLen :: nat where
  "MasterSecretMaxLen = 48"

definition EvpMaxMdSize :: nat where
  "EvpMaxMdSize = 64"

text \<open>\<open>if buf.Len() >= n\<close> read a field, else leave it zero.\<close>

definition read_if_left :: "nat \<Rightarrow> bytes \<Rightarrow> bytes \<times> bytes" where
  "read_if_left n buf = (if n \<le> length buf then (take n buf, drop n buf) else (replicate n 0, buf))"

definition OpensslSecret_DecodeFromBytes :: "bytes \<Rightarrow> decode_error + OpensslSecretEvent" where
  "OpensslSecret_DecodeFromBytes data =
     go_bind (binary_read 4 data) (\<lambda>(version, buf).
     go_bind (binary_read Ssl3RandomSize buf) (\<lambda>(random, buf).
     go_bind (binary_read MasterSecretMaxLen buf) (\<lambda>(key, buf).
       let (cipher, buf) = read_if_left 4 buf;
           (early, buf) = read_if_left EvpMaxMdSize buf;
           (hs, buf) = read_if_left EvpMaxMdSize buf;
           (hash, buf) = read_if_left EvpMaxMdSize buf;
           (client, buf) = read_if_left EvpMaxMdSize buf;
           (server, buf) = read_if_left EvpMaxMdSize buf;
           (exporter, buf) = read_if_left EvpMaxMdSize buf
       in Inr \<lparr>se_Version = le_word version, se_ClientRandom = random, se_MasterKey = key,
            se_CipherId = le_word cipher, se_EarlySecret = early, se_HandshakeSecret = hs,
            se_HandshakeTrafficHash = hash, se_ClientAppTrafficSecret = client,
            se_ServerAppTrafficSecret = server, se_ExporterMasterSecret = exporter\<rparr>)))"

fun isZeroBytes :: "bytes \<Rightarrow> bool" where
  "isZeroBytes [] = True"
| "isZeroBytes (b # data) = (if b \<noteq> 0 then False else isZeroBytes data)"

definition OpensslSecret_Validate :: "OpensslSecretEvent \<Rightarrow> go_error option" where
  "OpensslSecret_Validate e =
     (if sint (se_Version e) < 0x0301 \<or> sint (se_Version e) > 0x0304 then Some ErrEventValidation
      else if isZeroBytes (se_ClientRandom e) then Some ErrEventValidation
      else None)"

definition masterSecretEventDecoder_Decode :: "bytes \<Rightarrow> go_error + OpensslSecretEvent" where
  "masterSecretEventDecoder_Decode data =
     (case OpensslSecret_DecodeFromBytes data of
        Inl _ \<Rightarrow> Inl ErrEventDecode
      | Inr e \<Rightarrow> (case OpensslSecret_Validate e of Some err \<Rightarrow> Inl err | None \<Rightarrow> Inr e))"

section \<open>Printing\<close>

definition keylog_line :: "string \<Rightarrow> bytes \<Rightarrow> bytes \<Rightarrow> string" where
  "keylog_line label random secret = label @ '' '' @ hex_bytes random @ '' '' @ hex_bytes secret"

definition dedup_key :: "string \<Rightarrow> bytes \<Rightarrow> string" where
  "dedup_key label random = label @ ''_'' @ hex_bytes random"

definition KeyLogLabelTLS12 :: string where
  "KeyLogLabelTLS12 = ''CLIENT_RANDOM''"

definition KeyLogLabelClientHandshake :: string where
  "KeyLogLabelClientHandshake = ''CLIENT_HANDSHAKE_TRAFFIC_SECRET''"

definition KeyLogLabelServerHandshake :: string where
  "KeyLogLabelServerHandshake = ''SERVER_HANDSHAKE_TRAFFIC_SECRET''"

definition KeyLogLabelClientTraffic :: string where
  "KeyLogLabelClientTraffic = ''CLIENT_TRAFFIC_SECRET_0''"

definition KeyLogLabelServerTraffic :: string where
  "KeyLogLabelServerTraffic = ''SERVER_TRAFFIC_SECRET_0''"

definition KeyLogLabelExporterSecret :: string where
  "KeyLogLabelExporterSecret = ''EXPORTER_SECRET''"

definition KeyLogLabelClientEarlyTafficSecret :: string where
  "KeyLogLabelClientEarlyTafficSecret = ''CLIENT_EARLY_TRAFFIC_SECRET''"

lemmas keylog_labels = KeyLogLabelTLS12_def KeyLogLabelClientHandshake_def KeyLogLabelServerHandshake_def
  KeyLogLabelClientTraffic_def KeyLogLabelServerTraffic_def KeyLogLabelExporterSecret_def
  KeyLogLabelClientEarlyTafficSecret_def

section \<open>ExpandLabel\<close>

datatype hash = SHA256 | SHA384

type_synonym hkdf_expand = "hash \<Rightarrow> bytes \<Rightarrow> bytes \<Rightarrow> nat \<Rightarrow> bytes option"

text \<open>\<open>AddUint8LengthPrefixed\<close>, and the panic of \<open>BytesOrPanic\<close> when the length does not fit.\<close>

definition uint8_prefixed :: "bytes \<Rightarrow> bytes option" where
  "uint8_prefixed bs = (if length bs < 256 then Some (of_nat (length bs) # bs) else None)"

definition ExpandLabel :: "hkdf_expand \<Rightarrow> bytes \<Rightarrow> string \<Rightarrow> bytes \<Rightarrow> nat \<Rightarrow> hash \<Rightarrow> bytes option" where
  "ExpandLabel hkdf secret label context len transcript = do {
     name \<leftarrow> uint8_prefixed (string_bytes ''tls13 '' @ string_bytes label);
     context \<leftarrow> go_slice context len;
     context \<leftarrow> uint8_prefixed context;
     secret \<leftarrow> go_slice secret len;
     out \<leftarrow> hkdf transcript secret (rev (le_enc 2 (of_nat len :: u16)) @ name @ context) len;
     if length out \<noteq> len then None else Some out
   }"

section \<open>The handler\<close>

record keylog_handler =
  seenKeys :: "string set"
  kw_lines :: "string list"

record keylog_io =
  io_write :: "string \<Rightarrow> bool"
  io_flush :: bool
  io_close :: bool
  io_order :: "(string \<times> bytes) list \<Rightarrow> (string \<times> bytes) list"

definition NewKeylogHandler :: keylog_handler where
  "NewKeylogHandler = \<lparr>seenKeys = {}, kw_lines = []\<rparr>"

text \<open>\<open>KeylogWriter.Write\<close> appends the newline; \<open>kw_lines\<close> is what the file accepted, in order.\<close>

definition KeylogWriter_Write :: "keylog_io \<Rightarrow> string \<Rightarrow> keylog_handler \<Rightarrow> keylog_handler option" where
  "KeylogWriter_Write io p h =
     (let data = p @ [newline]
      in if io_write io data then Some (h\<lparr>kw_lines := kw_lines h @ [data]\<rparr>) else None)"

text \<open>A handler's result: the error it returns, if any, and the state; \<open>None\<close> is a panic.\<close>

type_synonym handled = "(go_error option \<times> keylog_handler) option"

definition handleTLS12 :: "keylog_io \<Rightarrow> OpensslSecretEvent \<Rightarrow> keylog_handler \<Rightarrow> handled" where
  "handleTLS12 io event h =
     (let clientRandom = se_ClientRandom event; masterKey = se_MasterKey event
      in if length clientRandom < Ssl3RandomSize then Some (Some ErrEventValidation, h)
      else if length masterKey < MasterSecretMaxLen then Some (Some ErrEventValidation, h)
      else if isZeroBytes (take MasterSecretMaxLen masterKey) then Some (None, h)
      else
      let line = keylog_line KeyLogLabelTLS12 (take Ssl3RandomSize clientRandom) (take MasterSecretMaxLen masterKey);
          dedupKey = dedup_key KeyLogLabelTLS12 (take Ssl3RandomSize clientRandom)
      in if dedupKey \<in> seenKeys h then Some (None, h)
      else
      case KeylogWriter_Write io line h of
        None \<Rightarrow> Some (Some ErrEventDispatch, h)
      | Some h \<Rightarrow>
          if \<not> io_flush io then Some (Some ErrEventDispatch, h)
          else Some (None, h\<lparr>seenKeys := insert dedupKey (seenKeys h)\<rparr>))"

definition handleGoTLS :: "keylog_io \<Rightarrow> MasterSecretEvent \<Rightarrow> keylog_handler \<Rightarrow> handled" where
  "handleGoTLS io event h = do {
     label \<leftarrow> GetLabel event;
     clientRandom \<leftarrow> GetClientRandom event;
     secret \<leftarrow> GetSecret event;
     let label = map (\<lambda>b. char_of (unat b)) label;
     if label = [] then Some (Some ErrEventValidation, h)
     else if clientRandom = [] then Some (Some ErrEventValidation, h)
     else if secret = [] then Some (Some ErrEventValidation, h)
     else if isZeroBytes secret then Some (None, h)
     else if dedup_key label clientRandom \<in> seenKeys h then Some (None, h)
     else case KeylogWriter_Write io (keylog_line label clientRandom secret) h of
       None \<Rightarrow> Some (Some ErrEventDispatch, h)
     | Some h \<Rightarrow> Some (None, h\<lparr>seenKeys := insert (dedup_key label clientRandom) (seenKeys h)\<rparr>)
   }"

definition TlsAes128GcmSha256 :: u16 where
  "TlsAes128GcmSha256 = 0x1301"

definition TlsAes256GcmSha384 :: u16 where
  "TlsAes256GcmSha384 = 0x1302"

definition TlsChacha20Poly1305Sha256 :: u16 where
  "TlsChacha20Poly1305Sha256 = 0x1303"

lemmas cipher_ids = TlsAes128GcmSha256_def TlsAes256GcmSha384_def TlsChacha20Poly1305Sha256_def

definition cipher_hash :: "u32 \<Rightarrow> nat \<times> hash option" where
  "cipher_hash cipherId =
     (let suite = ucast (cipherId AND 0x0000FFFF) :: u16
      in if suite = TlsAes128GcmSha256 \<or> suite = TlsChacha20Poly1305Sha256 then (32, Some SHA256)
      else if suite = TlsAes256GcmSha384 then (48, Some SHA384)
      else (EvpMaxMdSize, None))"

definition present :: "bytes \<Rightarrow> bool" where
  "present data \<longleftrightarrow> length data \<noteq> 0 \<and> \<not> isZeroBytes data"

text \<open>The map \<open>secrets\<close>, in the order the source fills it.\<close>

definition keylog_secrets13 :: "hkdf_expand \<Rightarrow> OpensslSecretEvent \<Rightarrow> (string \<times> bytes) list option" where
  "keylog_secrets13 hkdf event =
     (let (len, transcript) = cipher_hash (se_CipherId event);
          secrets = [(KeyLogLabelClientTraffic, se_ClientAppTrafficSecret event),
            (KeyLogLabelServerTraffic, se_ServerAppTrafficSecret event),
            (KeyLogLabelExporterSecret, se_ExporterMasterSecret event),
            (KeyLogLabelClientEarlyTafficSecret, se_EarlySecret event)]
      in case transcript of
        Some h \<Rightarrow>
          if present (se_HandshakeSecret event) \<and> present (se_HandshakeTrafficHash event) then do {
            secret \<leftarrow> go_slice (se_HandshakeSecret event) len;
            context \<leftarrow> go_slice (se_HandshakeTrafficHash event) len;
            client \<leftarrow> ExpandLabel hkdf secret ''c hs traffic'' context len h;
            server \<leftarrow> ExpandLabel hkdf secret ''s hs traffic'' context len h;
            Some (secrets @ [(KeyLogLabelClientHandshake, client), (KeyLogLabelServerHandshake, server)])
          } else Some secrets
      | None \<Rightarrow> Some secrets)"

fun write_secrets :: "keylog_io \<Rightarrow> bytes \<Rightarrow> nat \<Rightarrow> (string \<times> bytes) list \<Rightarrow> keylog_handler \<Rightarrow> handled" where
  "write_secrets io random n [] h = Some (None, h)"
| "write_secrets io random n ((label, data) # secrets) h =
     (if length data = 0 \<or> isZeroBytes data then write_secrets io random n secrets h
      else if dedup_key label random \<in> seenKeys h then write_secrets io random n secrets h
      else
      case go_slice data n of
        None \<Rightarrow> None
      | Some d \<Rightarrow>
          (case KeylogWriter_Write io (keylog_line label random d) h of
             None \<Rightarrow> Some (Some ErrEventDispatch, h)
           | Some h \<Rightarrow>
               write_secrets io random n secrets (h\<lparr>seenKeys := insert (dedup_key label random) (seenKeys h)\<rparr>)))"

definition handleTLS13 :: "keylog_io \<Rightarrow> hkdf_expand \<Rightarrow> OpensslSecretEvent \<Rightarrow> keylog_handler \<Rightarrow> handled" where
  "handleTLS13 io hkdf event h =
     (let clientRandom = se_ClientRandom event
      in if length clientRandom < Ssl3RandomSize then Some (Some ErrEventValidation, h)
      else do {
        secrets \<leftarrow> keylog_secrets13 hkdf event;
        write_secrets io (take Ssl3RandomSize clientRandom) (fst (cipher_hash (se_CipherId event))) (io_order io secrets) h
      })"

text \<open>
  The dynamic type of an event: the interface \<open>GoTLSMasterSecretEvent\<close> is tried first, then
  \<open>MasterSecretEvent\<close>; everything else, the GnuTLS probe's secret event (which has no
  \<open>GetEarlySecret\<close>, \<open>GetHandshakeSecret\<close> and \<open>GetHandshakeTrafficHash\<close>) included, is \<open>OtherEvent\<close>.
\<close>

datatype go_event = NilEvent | GoTLSEvent MasterSecretEvent | OpensslSecret OpensslSecretEvent | OtherEvent

fun Handle :: "keylog_io \<Rightarrow> hkdf_expand \<Rightarrow> go_event \<Rightarrow> keylog_handler \<Rightarrow> handled" where
  "Handle io hkdf NilEvent h = Some (Some ErrEventValidation, h)"
| "Handle io hkdf (GoTLSEvent e) h = handleGoTLS io e h"
| "Handle io hkdf (OpensslSecret e) h =
     (if sint (se_Version e) \<le> 0x0303 then handleTLS12 io e h else handleTLS13 io hkdf e h)"
| "Handle io hkdf OtherEvent h = Some (Some ErrEventValidation, h)"

text \<open>\<open>Close\<close> forgets the keys before it flushes and closes the writer, whose errors it passes on.\<close>

definition Close :: "keylog_io \<Rightarrow> keylog_handler \<Rightarrow> go_error option \<times> keylog_handler" where
  "Close io h =
     (let h = h\<lparr>seenKeys := {}\<rparr>
      in if \<not> io_flush io then (Some ErrWriter, h)
      else if \<not> io_close io then (Some ErrWriter, h) else (None, h))"

end
