(* ===== verification/Keylog_Output.thy ===== *)
theory Keylog_Output
  imports Keylog_Handler Openssl_Masterkey Boringssl_Masterkey "HOL-Library.Multiset"
begin

text \<open>
  What reaches the key log: the lines are the first secret offered for each label and client random
  (\<open>keylog_refines\<close>), and what the kernel programs report arrives there, followed from the sample of
  the perf buffer through the decoder and the handler to the file.
\<close>

section \<open>Reading a line back\<close>

fun unhex :: "string \<Rightarrow> bytes option" where
  "unhex [] = Some []"
| "unhex [c] = None"
| "unhex (c # d # s) = do {
     x \<leftarrow> digit_value 16 c;
     y \<leftarrow> digit_value 16 d;
     bs \<leftarrow> unhex s;
     Some (of_nat (16 * x + y) # bs)
   }"

definition parse_keylog :: "string \<Rightarrow> (string \<times> bytes \<times> bytes) option" where
  "parse_keylog l =
     (let label = takeWhile (\<lambda>c. c \<noteq> CHR '' '') l; l = drop 1 (dropWhile (\<lambda>c. c \<noteq> CHR '' '') l);
          random = takeWhile (\<lambda>c. c \<noteq> CHR '' '') l; l = drop 1 (dropWhile (\<lambda>c. c \<noteq> CHR '' '') l);
          secret = takeWhile (\<lambda>c. c \<noteq> newline) l
      in do { r \<leftarrow> unhex random; s \<leftarrow> unhex secret; Some (label, r, s) })"

lemma hex_bytes_simps [simp]:
  "hex_bytes [] = []"
  "hex_bytes (b # bs) = digit_char (unat b div 16) # digit_char (unat b mod 16) # hex_bytes bs"
  by (simp_all add: hex_bytes_def)

lemma unhex_hex_bytes: "unhex (hex_bytes bs) = Some bs"
proof (induction bs)
  case (Cons b bs)
  have "unat b < 256" using unsigned_less [of b] by simp
  then have "digit_value 16 (digit_char (unat b div 16)) = Some (unat b div 16)"
    and "digit_value 16 (digit_char (unat b mod 16)) = Some (unat b mod 16)"
    by (auto intro!: digit_value_digit_char)
  moreover have "16 * (unat b div 16) + unat b mod 16 = unat b" by simp
  then have "(of_nat (16 * (unat b div 16) + unat b mod 16) :: u8) = b" by (simp only: of_nat_unat ucast_id)
  ultimately show ?case using Cons by (simp del: of_nat_add of_nat_mult)
qed simp

lemma digit_char_no_space: "d < 16 \<Longrightarrow> digit_char d \<noteq> CHR '' ''"
proof
  assume "d < 16" and "digit_char d = CHR '' ''"
  then have "(of_char (digit_char d) :: nat) = 32" by simp
  with \<open>d < 16\<close> show False by (auto simp: digit_char_def split: if_splits)
qed

lemma hex_bytes_chars: "newline \<notin> set (hex_bytes bs) \<and> CHR '' '' \<notin> set (hex_bytes bs)"
proof (induction bs)
  case (Cons b bs)
  have "unat b < 16 * 16" using unsigned_less [of b] by simp
  then have "unat b div 16 < 16" "unat b mod 16 < 16" by (simp_all add: less_mult_imp_div_less)
  then show ?case
    using Cons digit_char_no_newline digit_char_no_space by (auto simp: eq_commute [of newline] eq_commute [of "CHR '' ''"])
qed simp

lemma digit_char_no_underscore: "d < 16 \<Longrightarrow> digit_char d \<noteq> CHR ''_''"
proof
  assume "d < 16" and "digit_char d = CHR ''_''"
  then have "(of_char (digit_char d) :: nat) = 95" by simp
  with \<open>d < 16\<close> show False by (auto simp: digit_char_def split: if_splits)
qed

lemma hex_bytes_no_underscore: "CHR ''_'' \<notin> set (hex_bytes bs)"
proof (induction bs)
  case (Cons b bs)
  have "unat b < 16 * 16" using unsigned_less [of b] by simp
  then have "unat b div 16 < 16" "unat b mod 16 < 16" by (simp_all add: less_mult_imp_div_less)
  then show ?case using Cons digit_char_no_underscore by (auto simp: eq_commute [of "CHR ''_''"])
qed simp

lemma hex_bytes_inj: "hex_bytes a = hex_bytes b \<Longrightarrow> a = b"
  by (metis option.inject unhex_hex_bytes)

lemma split_at_space:
  assumes "CHR '' '' \<notin> set a"
  shows "takeWhile (\<lambda>c. c \<noteq> CHR '' '') (a @ CHR '' '' # b) = a"
    and "dropWhile (\<lambda>c. c \<noteq> CHR '' '') (a @ CHR '' '' # b) = CHR '' '' # b"
  using assms by (subst takeWhile_append2 dropWhile_append2; auto)+

lemma parse_keylog_line:
  assumes "CHR '' '' \<notin> set label"
  shows "parse_keylog (keylog_line label random secret @ [newline]) = Some (label, random, secret)"
proof -
  have "takeWhile (\<lambda>c. c \<noteq> newline) (hex_bytes secret @ [newline]) = hex_bytes secret"
    using hex_bytes_chars [of secret] by (subst takeWhile_append2) auto
  then show ?thesis
    using assms hex_bytes_chars [of random]
    by (simp add: parse_keylog_def keylog_line_def split_at_space unhex_hex_bytes Let_def)
qed

section \<open>The keys of the deduplication\<close>

text \<open>
  The string under which the handler remembers a secret stands for the pair of its label and client random: it ends
  in hexadecimal digits, so its last underscore is the one between the two parts.
\<close>

lemma last_separator:
  assumes "c \<notin> set a" and "c \<notin> set b" and "x @ c # a = y @ c # b"
  shows "x = y \<and> a = b"
proof -
  have w: "takeWhile (\<lambda>d. d \<noteq> c) (rev (z @ c # u)) = rev u" "dropWhile (\<lambda>d. d \<noteq> c) (rev (z @ c # u)) = c # rev z"
    if "c \<notin> set u" for u z
    using that by (simp_all, subst takeWhile_append2 dropWhile_append2; auto)+
  show ?thesis using w [OF assms(1), of x] w [OF assms(2), of y] assms(3) by simp
qed

lemma dedup_key_inj: "dedup_key l r = dedup_key l' r' \<longleftrightarrow> l = l' \<and> r = r'"
  using last_separator [OF hex_bytes_no_underscore [of r] hex_bytes_no_underscore [of r'], of l l'] hex_bytes_inj
  by (auto simp: dedup_key_def)

section \<open>The handler against its specification\<close>

text \<open>
  The entries an event offers to the log, and the first for each pair of label and client random.
  \<open>seen_keys\<close> are the pairs the handler has in \<open>seenKeys\<close>.
\<close>

type_synonym entry = "string \<times> bytes \<times> bytes"

definition entry_key :: "entry \<Rightarrow> string \<times> bytes" where
  "entry_key = (\<lambda>(l, r, s). (l, r))"

definition seen_keys :: "keylog_handler \<Rightarrow> (string \<times> bytes) set" where
  "seen_keys h = {(l, r). dedup_key l r \<in> seenKeys h}"

definition entry_line :: "entry \<Rightarrow> string" where
  "entry_line = (\<lambda>(l, r, s). keylog_line l r s @ [newline])"

definition gotls_offer :: "MasterSecretEvent \<Rightarrow> entry list" where
  "gotls_offer e =
     (case (GetLabel e, GetClientRandom e, GetSecret e) of
        (Some l, Some r, Some s) \<Rightarrow>
          if l \<noteq> [] \<and> r \<noteq> [] \<and> present s then [(map (\<lambda>b. char_of (unat b)) l, r, s)] else []
      | _ \<Rightarrow> [])"

definition tls12_offer :: "OpensslSecretEvent \<Rightarrow> entry list" where
  "tls12_offer e =
     (if 32 \<le> length (se_ClientRandom e) \<and> 48 \<le> length (se_MasterKey e) \<and> \<not> isZeroBytes (take 48 (se_MasterKey e))
      then [(''CLIENT_RANDOM'', take 32 (se_ClientRandom e), take 48 (se_MasterKey e))] else [])"

definition tls13_offer :: "keylog_io \<Rightarrow> hkdf_expand \<Rightarrow> OpensslSecretEvent \<Rightarrow> entry list" where
  "tls13_offer io hkdf e =
     (if 32 \<le> length (se_ClientRandom e)
      then map (\<lambda>(l, d). (l, take 32 (se_ClientRandom e), take (fst (cipher_hash (se_CipherId e))) d))
        (filter (\<lambda>(_, d). present d) (io_order io (case keylog_secrets13 hkdf e of Some ss \<Rightarrow> ss | None \<Rightarrow> [])))
      else [])"

fun offers :: "keylog_io \<Rightarrow> hkdf_expand \<Rightarrow> go_event \<Rightarrow> entry list" where
  "offers io hkdf (GoTLSEvent e) = gotls_offer e"
| "offers io hkdf (OpensslSecret e) =
     (if sint (se_Version e) \<le> 0x0303 then tls12_offer e else tls13_offer io hkdf e)"
| "offers io hkdf _ = []"

fun first_per_key :: "(string \<times> bytes) set \<Rightarrow> entry list \<Rightarrow> entry list" where
  "first_per_key seen [] = []"
| "first_per_key seen (e # es) =
     (if entry_key e \<in> seen then first_per_key seen es else e # first_per_key (insert (entry_key e) seen) es)"

definition io_ok :: "keylog_io \<Rightarrow> bool" where
  "io_ok io \<longleftrightarrow> io_flush io \<and> (\<forall>p. io_write io p)"

fun handle_all :: "hkdf_expand \<Rightarrow> (keylog_io \<times> go_event) list \<Rightarrow> keylog_handler \<Rightarrow> keylog_handler option" where
  "handle_all hkdf [] h = Some h"
| "handle_all hkdf ((io, ev) # evs) h =
     (case Handle io hkdf ev h of None \<Rightarrow> None | Some (_, h) \<Rightarrow> handle_all hkdf evs h)"

definition logs :: "keylog_handler \<Rightarrow> entry list \<Rightarrow> keylog_handler \<Rightarrow> bool" where
  "logs h es h' \<longleftrightarrow> kw_lines h' = kw_lines h @ map entry_line (first_per_key (seen_keys h) es)
     \<and> seen_keys h' = seen_keys h \<union> entry_key ` set es"

lemma first_per_key_append:
  "first_per_key seen (as @ bs) = first_per_key seen as @ first_per_key (seen \<union> entry_key ` set as) bs"
  by (induction as arbitrary: seen) (auto simp: insert_absorb)

lemma first_per_key_distinct:
  "distinct (map entry_key (first_per_key seen es)) \<and> entry_key ` set (first_per_key seen es) \<inter> seen = {}"
  by (induction es arbitrary: seen) auto

lemma first_per_key_keys: "entry_key ` set (first_per_key seen es) = entry_key ` set es - seen"
  by (induction es arbitrary: seen) auto

lemma logs_Nil: "logs h [] h"
  by (simp add: logs_def)

lemma logs_trans: "logs h as h' \<Longrightarrow> logs h' bs h'' \<Longrightarrow> logs h (as @ bs) h''"
  by (auto simp: logs_def first_per_key_append)

lemma seen_keys_lookup: "(l, r) \<in> seen_keys h \<longleftrightarrow> dedup_key l r \<in> seenKeys h"
  by (simp add: seen_keys_def)

lemma seen_keys_insert: "seen_keys (h\<lparr>kw_lines := ls, seenKeys := insert (dedup_key l r) (seenKeys h)\<rparr>) = insert (l, r) (seen_keys h)"
  by (auto simp: seen_keys_def dedup_key_inj)

lemma write_ok:
  "io_ok io \<Longrightarrow> KeylogWriter_Write io p h = Some (h\<lparr>kw_lines := kw_lines h @ [p @ [newline]]\<rparr>)"
  by (simp add: KeylogWriter_Write_def io_ok_def)

lemma logs_write:
  "dedup_key l r \<notin> seenKeys h \<Longrightarrow>
     logs h [(l, r, s)] (h\<lparr>kw_lines := kw_lines h @ [keylog_line l r s @ [newline]], seenKeys := insert (dedup_key l r) (seenKeys h)\<rparr>)"
  by (simp add: logs_def entry_key_def entry_line_def seen_keys_lookup seen_keys_insert)

lemma logs_seen: "dedup_key l r \<in> seenKeys h \<Longrightarrow> logs h [(l, r, s)] h"
  by (auto simp: logs_def entry_key_def seen_keys_lookup)

lemma handleTLS12_logs:
  assumes "io_ok io" "handleTLS12 io e h = Some (err, h')"
  shows "logs h (tls12_offer e) h'"
  using assms(2) write_ok [OF assms(1)] assms(1)
  by (auto simp: handleTLS12_def tls12_offer_def Let_def Ssl3RandomSize_def MasterSecretMaxLen_def KeyLogLabelTLS12_def
      io_ok_def intro: logs_Nil logs_write logs_seen split: if_splits)

lemma handleGoTLS_logs:
  assumes "io_ok io" "handleGoTLS io e h = Some (err, h')"
  shows "logs h (gotls_offer e) h'"
  using assms(2) write_ok [OF assms(1)]
  by (auto simp: handleGoTLS_def gotls_offer_def present_def Let_def bind_eq_Some_conv
      intro: logs_Nil logs_write logs_seen split: if_splits)

definition secret_entries :: "bytes \<Rightarrow> nat \<Rightarrow> (string \<times> bytes) list \<Rightarrow> entry list" where
  "secret_entries random n ss = map (\<lambda>(l, d). (l, random, take n d)) (filter (\<lambda>(_, d). present d) ss)"

lemma secret_entries_Cons:
  "secret_entries random n ((l, d) # ss) =
     (if present d then [(l, random, take n d)] else []) @ secret_entries random n ss"
  by (simp add: secret_entries_def)

lemma write_secrets_logs:
  assumes "io_ok io" "write_secrets io random n ss h = Some (err, h')"
  shows "err = None \<and> logs h (secret_entries random n ss) h'"
  using assms(2)
proof (induction ss arbitrary: h)
  case Nil
  then show ?case by (simp add: secret_entries_def logs_Nil)
next
  case (Cons x ss)
  obtain l d where x: "x = (l, d)" by fastforce
  show ?case
  proof (cases "present d")
    case False
    with Cons x show ?thesis by (auto simp: secret_entries_Cons present_def)
  next
    case True
    show ?thesis
    proof (cases "dedup_key l random \<in> seenKeys h")
      case seen: True
      with Cons x True have "err = None \<and> logs h (secret_entries random n ss) h'" by (simp add: present_def)
      with logs_trans [OF logs_seen [OF seen]] x True show ?thesis by (auto simp: secret_entries_Cons)
    next
      case False
      let ?h = "h\<lparr>kw_lines := kw_lines h @ [keylog_line l random (take n d) @ [newline]],
        seenKeys := insert (dedup_key l random) (seenKeys h)\<rparr>"
      have "write_secrets io random n ss ?h = Some (err, h')"
        using Cons.prems x True False write_ok [OF assms(1)]
        by (auto simp: present_def go_slice_def split: if_splits)
      then have "err = None \<and> logs ?h (secret_entries random n ss) h'" by (rule Cons.IH)
      with logs_trans [OF logs_write [OF False]] x True show ?thesis by (auto simp: secret_entries_Cons)
    qed
  qed
qed

lemma handleTLS13_logs:
  assumes "io_ok io" "handleTLS13 io hkdf e h = Some (err, h')"
  shows "logs h (tls13_offer io hkdf e) h'"
proof (cases "length (se_ClientRandom e) < 32")
  case True
  with assms(2) show ?thesis by (simp add: handleTLS13_def tls13_offer_def Ssl3RandomSize_def logs_Nil)
next
  case False
  with assms(2) obtain ss where ss: "keylog_secrets13 hkdf e = Some ss"
      "write_secrets io (take 32 (se_ClientRandom e)) (fst (cipher_hash (se_CipherId e))) (io_order io ss) h = Some (err, h')"
    by (auto simp: handleTLS13_def Ssl3RandomSize_def bind_eq_Some_conv Let_def)
  from write_secrets_logs [OF assms(1) this(2)] False ss(1) show ?thesis
    by (simp add: tls13_offer_def secret_entries_def)
qed

lemma Handle_logs:
  assumes "io_ok io" "Handle io hkdf ev h = Some (err, h')"
  shows "logs h (offers io hkdf ev) h'"
  using assms by (cases ev) (auto simp: logs_Nil handleGoTLS_logs handleTLS12_logs handleTLS13_logs split: if_splits)

lemma handle_all_logs:
  assumes "list_all (io_ok \<circ> fst) evs" "handle_all hkdf evs h = Some h'"
  shows "logs h (concat (map (\<lambda>(io, ev). offers io hkdf ev) evs)) h'"
  using assms
proof (induction evs arbitrary: h)
  case (Cons x evs)
  obtain io ev where x: "x = (io, ev)" by fastforce
  with Cons.prems obtain err h1 where h1: "Handle io hkdf ev h = Some (err, h1)" "handle_all hkdf evs h1 = Some h'"
    by (auto split: option.splits)
  with Cons x have "logs h1 (concat (map (\<lambda>(io, ev). offers io hkdf ev) evs)) h'" by simp
  with logs_trans [OF Handle_logs [OF _ h1(1)]] Cons.prems x show ?case by simp
qed (simp add: logs_Nil)

text \<open>
  C13: For every sequence of events of any kind, on a file that accepts what is written, the key log holds
  exactly the first secret offered for each pair of label and client random, in the order they were offered: no
  pair is written twice, none that was offered is missing (secrets with another label or another client random
  never suppress one another), and each line reads back as its entry when its label has no space.
\<close>

theorem keylog_refines:
  assumes "list_all (io_ok \<circ> fst) evs" and "handle_all hkdf evs NewKeylogHandler = Some h"
  shows "let log = first_per_key {} (concat (map (\<lambda>(io, ev). offers io hkdf ev) evs))
    in kw_lines h = map entry_line log \<and> distinct (map entry_key log) \<and> seen_keys h = entry_key ` set log
    \<and> list_all (\<lambda>e. CHR '' '' \<notin> set (fst e) \<longrightarrow> parse_keylog (entry_line e) = Some e) log"
proof -
  let ?es = "concat (map (\<lambda>(io, ev). offers io hkdf ev) evs)"
  have "logs NewKeylogHandler ?es h" by (rule handle_all_logs [OF assms])
  then have "kw_lines h = map entry_line (first_per_key {} ?es)" and "seen_keys h = entry_key ` set (first_per_key {} ?es)"
    by (simp_all add: logs_def seen_keys_def NewKeylogHandler_def first_per_key_keys)
  moreover have "list_all (\<lambda>e. CHR '' '' \<notin> set (fst e) \<longrightarrow> parse_keylog (entry_line e) = Some e) (first_per_key {} ?es)"
    by (auto simp: list_all_iff entry_line_def parse_keylog_line)
  ultimately show ?thesis using first_per_key_distinct [of "{}" ?es] by (simp add: Let_def)
qed

section \<open>From the OpenSSL object to the file\<close>

text \<open>The sample of an event: \<open>struct mastersecret_t\<close> has no padding.\<close>

definition mastersecret_bytes :: "mastersecret_t \<Rightarrow> bytes" where
  "mastersecret_bytes e =
     le_enc 4 (ms_version e) @ client_random e @ master_key e @ le_enc 4 (cipher_id e) @ early_secret e
     @ handshake_secret e @ handshake_traffic_hash e @ client_app_traffic_secret e @ server_app_traffic_secret e
     @ exporter_master_secret e"

definition openssl_secret_event :: "mastersecret_t \<Rightarrow> OpensslSecretEvent" where
  "openssl_secret_event e =
     \<lparr>se_Version = ms_version e, se_ClientRandom = client_random e, se_MasterKey = master_key e,
      se_CipherId = cipher_id e, se_EarlySecret = early_secret e, se_HandshakeSecret = handshake_secret e,
      se_HandshakeTrafficHash = handshake_traffic_hash e, se_ClientAppTrafficSecret = client_app_traffic_secret e,
      se_ServerAppTrafficSecret = server_app_traffic_secret e, se_ExporterMasterSecret = exporter_master_secret e\<rparr>"

lemma read_if_left_append: "length xs = n \<Longrightarrow> read_if_left n (xs @ ys) = (xs, ys)"
  by (auto simp: read_if_left_def)

lemmas go_sizes = Ssl3RandomSize_def MasterSecretMaxLen_def EvpMaxMdSize_def

lemma decode_secret_sample:
  assumes "length random = 32" "length key = 48" "length s1 = 64" "length s2 = 64" "length s3 = 64" "length s4 = 64"
    "length s5 = 64" "length s6 = 64"
  shows "OpensslSecret_DecodeFromBytes
      (le_enc 4 (v :: s32) @ random @ key @ le_enc 4 (c :: u32) @ s1 @ s2 @ s3 @ s4 @ s5 @ s6 @ pad) =
    Inr \<lparr>se_Version = v, se_ClientRandom = random, se_MasterKey = key, se_CipherId = c, se_EarlySecret = s1,
      se_HandshakeSecret = s2, se_HandshakeTrafficHash = s3, se_ClientAppTrafficSecret = s4,
      se_ServerAppTrafficSecret = s5, se_ExporterMasterSecret = s6\<rparr>"
  using assms
  by (simp add: OpensslSecret_DecodeFromBytes_def go_sizes binary_read_append read_if_left_append le_word_enc)

lemma decode_mastersecret:
  assumes "mk_event_ok e" "0x0301 \<le> sint (ms_version e)" "sint (ms_version e) \<le> 0x0304" "\<not> isZeroBytes (client_random e)"
  shows "masterSecretEventDecoder_Decode (mastersecret_bytes e @ pad) = Inr (openssl_secret_event e)"
proof -
  have "OpensslSecret_DecodeFromBytes (mastersecret_bytes e @ pad) = Inr (openssl_secret_event e)"
    using assms(1) by (simp add: mastersecret_bytes_def openssl_secret_event_def decode_secret_sample mk_event_ok_def)
  then show ?thesis
    using assms(2-) by (simp add: masterSecretEventDecoder_Decode_def OpensslSecret_Validate_def openssl_secret_event_def)
qed

text \<open>
  C14: Every event a master-key object of OpenSSL reports in any reachable state for a connection of TLS 1.0 to
  1.2, with a client random and a master key that are not zero, passes the decoder, and the handler adds
  exactly one line to the key log unless it has one for this client random; the line reads back as the
  client random and the master key of the event.
\<close>

theorem openssl_tls12_logged:
  assumes "mk_program prog" and "mk_reachable prog c s" and "e \<in> set (mk_events s)"
    and "0x0301 \<le> sint (ms_version e)" and "sint (ms_version e) \<le> 0x0303"
    and "\<not> isZeroBytes (client_random e)" and "\<not> isZeroBytes (master_key e)"
    and "io_ok io" and "dedup_key ''CLIENT_RANDOM'' (client_random e) \<notin> seenKeys h"
  shows "\<exists>ev h' line. masterSecretEventDecoder_Decode (mastersecret_bytes e @ pad) = Inr ev
    \<and> Handle io hkdf (OpensslSecret ev) h = Some (None, h') \<and> kw_lines h' = kw_lines h @ [line]
    \<and> parse_keylog line = Some (''CLIENT_RANDOM'', client_random e, master_key e)
    \<and> Handle io hkdf (OpensslSecret ev) h' = Some (None, h')"
proof -
  have ok: "mk_event_ok e" using mk_reachable_inv [OF assms(2,1)] assms(3) by (simp add: mk_inv_def)
  then have len: "length (client_random e) = 32" "length (master_key e) = 48" by (simp_all add: mk_event_ok_def)
  let ?line = "keylog_line ''CLIENT_RANDOM'' (client_random e) (master_key e) @ [newline]"
  let ?h = "h\<lparr>kw_lines := kw_lines h @ [?line], seenKeys := insert (dedup_key ''CLIENT_RANDOM'' (client_random e)) (seenKeys h)\<rparr>"
  have "Handle io hkdf (OpensslSecret (openssl_secret_event e)) h = Some (None, ?h)"
    and "Handle io hkdf (OpensslSecret (openssl_secret_event e)) ?h = Some (None, ?h)"
    using assms(5,7-9) len write_ok [OF assms(8)]
    by (simp_all add: handleTLS12_def openssl_secret_event_def go_sizes KeyLogLabelTLS12_def io_ok_def Let_def)
  then show ?thesis
    using decode_mastersecret [OF ok assms(4) _ assms(6), of pad] assms(5)
    by (intro exI [of _ "openssl_secret_event e"] exI [of _ ?h] exI [of _ ?line]) (simp add: parse_keylog_line)
qed

section \<open>TLS 1.3\<close>

lemma first_per_key_fresh:
  "distinct (map entry_key es) \<Longrightarrow> entry_key ` set es \<inter> seen = {} \<Longrightarrow> first_per_key seen es = es"
  by (induction es arbitrary: seen) auto

lemma write_secrets_total:
  assumes "io_ok io" "list_all (\<lambda>(l, d). n \<le> length d) ss"
  shows "write_secrets io random n ss h \<noteq> None"
  using assms(2) write_ok [OF assms(1)] by (induction ss arbitrary: h) (auto simp: go_slice_def)

text \<open>A permutation of the map's entries, as Go's \<open>range\<close> gives one.\<close>

definition order_ok :: "keylog_io \<Rightarrow> bool" where
  "order_ok io \<longleftrightarrow> (\<forall>xs. mset (io_order io xs) = mset xs)"

definition fresh_random :: "bytes \<Rightarrow> keylog_handler \<Rightarrow> bool" where
  "fresh_random random h \<longleftrightarrow> (\<forall>label. dedup_key label random \<notin> seenKeys h)"

definition printable :: "nat \<Rightarrow> (string \<times> bytes) list \<Rightarrow> bool" where
  "printable n ss \<longleftrightarrow> distinct (map fst ss) \<and> list_all (\<lambda>(l, d). CHR '' '' \<notin> set l \<and> n \<le> length d) ss"

lemma printable_order:
  assumes "printable n ss" "order_ok io"
  shows "printable n (io_order io ss)"
proof -
  have m: "mset (io_order io ss) = mset ss" using assms(2) by (simp add: order_ok_def)
  then have "mset (map fst (io_order io ss)) = mset (map fst ss)" by simp
  then have "distinct (map fst (io_order io ss)) = distinct (map fst ss)" by (rule mset_eq_imp_distinct_iff)
  with assms(1) mset_eq_setD [OF m] show ?thesis by (simp add: printable_def list_all_iff)
qed

lemma write_secrets_fresh:
  assumes "io_ok io" "printable n ss" "fresh_random random h"
  shows "\<exists>h'. write_secrets io random n ss h = Some (None, h')
    \<and> kw_lines h' = kw_lines h @ map entry_line (secret_entries random n ss)"
proof -
  have "write_secrets io random n ss h \<noteq> None"
    using assms(2) by (intro write_secrets_total [OF assms(1)]) (auto simp: printable_def list_all_iff)
  then obtain err h' where w: "write_secrets io random n ss h = Some (err, h')" by auto
  have "distinct (map entry_key (secret_entries random n ss))"
    using assms(2)
    by (induction ss) (auto simp: printable_def secret_entries_def entry_key_def case_prod_beta image_iff)
  moreover have "entry_key ` set (secret_entries random n ss) \<inter> seen_keys h = {}"
    using assms(3) by (auto simp: secret_entries_def entry_key_def fresh_random_def seen_keys_lookup)
  ultimately show ?thesis
    using w write_secrets_logs [OF assms(1) w] by (auto simp: logs_def first_per_key_fresh)
qed

lemma parse_entries:
  assumes "printable n ss"
  shows "map parse_keylog (map entry_line (secret_entries random n ss)) =
    map (\<lambda>(l, d). Some (l, random, take n d)) (filter (\<lambda>(_, d). present d) ss)"
  using assms by (induction ss) (auto simp: printable_def secret_entries_def entry_line_def parse_keylog_line)

lemma handleTLS13_fresh:
  assumes "io_ok io" "order_ok io" "keylog_secrets13 hkdf ev = Some ss" "printable (fst (cipher_hash (se_CipherId ev))) ss"
    and "length (se_ClientRandom ev) = 32" "fresh_random (se_ClientRandom ev) h"
  shows "\<exists>h' new. handleTLS13 io hkdf ev h = Some (None, h') \<and> kw_lines h' = kw_lines h @ new
    \<and> mset (map parse_keylog new) = mset (map (\<lambda>(l, d). Some (l, se_ClientRandom ev, take (fst (cipher_hash (se_CipherId ev))) d))
        (filter (\<lambda>(_, d). present d) ss))"
proof -
  let ?n = "fst (cipher_hash (se_CipherId ev))"
  let ?es = "secret_entries (se_ClientRandom ev) ?n (io_order io ss)"
  have p: "printable ?n (io_order io ss)" using assms(4,2) by (rule printable_order)
  obtain h' where h': "write_secrets io (se_ClientRandom ev) ?n (io_order io ss) h = Some (None, h')"
      "kw_lines h' = kw_lines h @ map entry_line ?es"
    using write_secrets_fresh [OF assms(1) p assms(6)] by blast
  have "handleTLS13 io hkdf ev h = Some (None, h')"
    using h'(1) assms(3,5) by (simp add: handleTLS13_def Ssl3RandomSize_def Let_def)
  moreover have "mset (map parse_keylog (map entry_line ?es)) =
      mset (map (\<lambda>(l, d). Some (l, se_ClientRandom ev, take ?n d)) (filter (\<lambda>(_, d). present d) ss))"
    unfolding parse_entries [OF p] using assms(2) by (simp add: order_ok_def mset_filter)
  ultimately show ?thesis using h'(2) by blast
qed

text \<open>What \<open>hkdf.Expand\<close> documents: it fills an output of up to 255 times the size of the hash.\<close>

definition hkdf_fills :: "hkdf_expand \<Rightarrow> bool" where
  "hkdf_fills hkdf \<longleftrightarrow> (\<forall>t secret info n. n \<le> 64 \<longrightarrow> (\<exists>out. hkdf t secret info n = Some out \<and> length out = n))"

lemma ExpandLabel_total:
  assumes "hkdf_fills hkdf" "n \<le> 64" "n \<le> length secret" "n \<le> length context" "length label < 250"
  shows "\<exists>out. ExpandLabel hkdf secret label context n t = Some out \<and> length out = n"
proof -
  obtain out where "hkdf t (take n secret) (rev (le_enc 2 (of_nat n :: u16)) @
      (of_nat (length (string_bytes ''tls13 '' @ string_bytes label)) # string_bytes ''tls13 '' @ string_bytes label) @
      (of_nat n # take n context)) n = Some out" "length out = n"
    using assms(1,2) unfolding hkdf_fills_def by blast
  then show ?thesis
    using assms(2-) by (simp add: ExpandLabel_def go_slice_def uint8_prefixed_def string_bytes_def)
qed

lemma cipher_hash_bound: "fst (cipher_hash c) \<le> 64"
  by (simp add: cipher_hash_def EvpMaxMdSize_def Let_def)

lemma handshake_secrets:
  assumes "hkdf_fills hkdf" "cipher_hash (se_CipherId ev) = (n, Some t)" "present (se_HandshakeSecret ev)"
    and "present (se_HandshakeTrafficHash ev)" "length (se_HandshakeSecret ev) = 64" "length (se_HandshakeTrafficHash ev) = 64"
  obtains ch sh where
    "ExpandLabel hkdf (take n (se_HandshakeSecret ev)) ''c hs traffic'' (take n (se_HandshakeTrafficHash ev)) n t = Some ch"
    and "ExpandLabel hkdf (take n (se_HandshakeSecret ev)) ''s hs traffic'' (take n (se_HandshakeTrafficHash ev)) n t = Some sh"
    and "length ch = n" and "length sh = n"
    and "keylog_secrets13 hkdf ev = Some [(KeyLogLabelClientTraffic, se_ClientAppTrafficSecret ev),
        (KeyLogLabelServerTraffic, se_ServerAppTrafficSecret ev), (KeyLogLabelExporterSecret, se_ExporterMasterSecret ev),
        (KeyLogLabelClientEarlyTafficSecret, se_EarlySecret ev),
        (KeyLogLabelClientHandshake, ch), (KeyLogLabelServerHandshake, sh)]"
proof -
  have n: "n \<le> 64" using cipher_hash_bound [of "se_CipherId ev"] assms(2) by simp
  have total: "\<exists>out. ExpandLabel hkdf (take n (se_HandshakeSecret ev)) l (take n (se_HandshakeTrafficHash ev)) n t = Some out
      \<and> length out = n" if "length l < 250" for l
    using ExpandLabel_total [OF assms(1) n _ _ that] n assms(5,6) by simp
  obtain ch sh where x:
    "ExpandLabel hkdf (take n (se_HandshakeSecret ev)) ''c hs traffic'' (take n (se_HandshakeTrafficHash ev)) n t = Some ch"
    "ExpandLabel hkdf (take n (se_HandshakeSecret ev)) ''s hs traffic'' (take n (se_HandshakeTrafficHash ev)) n t = Some sh"
    "length ch = n" "length sh = n"
    using total [of "''c hs traffic''"] total [of "''s hs traffic''"] by auto
  with that [OF x] assms(2-) n show ?thesis by (simp add: keylog_secrets13_def go_slice_def)
qed

text \<open>The TLS 1.3 cipher suites with the size of their hash (RFC 8446, B.4).\<close>

definition known_suite :: "u32 \<Rightarrow> nat \<Rightarrow> hash \<Rightarrow> bool" where
  "known_suite c n t \<longleftrightarrow>
     (c AND 0xFFFF, n, t) \<in> {(0x1301, 32, SHA256), (0x1302, 48, SHA384), (0x1303, 32, SHA256)}"

lemma cipher_hash_known: "known_suite c n t \<Longrightarrow> cipher_hash c = (n, Some t)"
  by (auto simp: known_suite_def cipher_hash_def cipher_ids)

text \<open>The secrets of a TLS 1.3 event under their labels; \<open>ch\<close> and \<open>sh\<close> are the handshake traffic secrets.\<close>

definition secrets13 :: "mastersecret_t \<Rightarrow> bytes \<Rightarrow> bytes \<Rightarrow> (string \<times> bytes) list" where
  "secrets13 e ch sh =
     [(''CLIENT_TRAFFIC_SECRET_0'', client_app_traffic_secret e), (''SERVER_TRAFFIC_SECRET_0'', server_app_traffic_secret e),
      (''EXPORTER_SECRET'', exporter_master_secret e), (''CLIENT_EARLY_TRAFFIC_SECRET'', early_secret e),
      (''CLIENT_HANDSHAKE_TRAFFIC_SECRET'', ch), (''SERVER_HANDSHAKE_TRAFFIC_SECRET'', sh)]"

text \<open>
  C5: Every TLS 1.3 event a master-key object of OpenSSL reports in any reachable state, with one of the three
  cipher suites the handler knows, a client random that is not zero and new to the log, and a handshake
  secret and hash, is logged completely: whatever order the map is visited in, the new lines read back as
  the application traffic, exporter and early secrets of the event that are not zero, cut to the length of the
  suite's hash, and the two handshake traffic secrets expanded from the handshake secret.
\<close>

theorem openssl_tls13_logged:
  assumes "mk_program prog" and "mk_reachable prog c s" and "e \<in> set (mk_events s)" and "ms_version e = TLS1_3_VERSION"
    and "\<not> isZeroBytes (client_random e)" and "known_suite (cipher_id e) n t"
    and "\<not> isZeroBytes (handshake_secret e)" and "\<not> isZeroBytes (handshake_traffic_hash e)"
    and "hkdf_fills hkdf" and "io_ok io" and "order_ok io" and "fresh_random (client_random e) h"
  shows "\<exists>ev h' new ch sh. masterSecretEventDecoder_Decode (mastersecret_bytes e @ pad) = Inr ev
    \<and> Handle io hkdf (OpensslSecret ev) h = Some (None, h') \<and> kw_lines h' = kw_lines h @ new
    \<and> ExpandLabel hkdf (take n (handshake_secret e)) ''c hs traffic'' (take n (handshake_traffic_hash e)) n t = Some ch
    \<and> ExpandLabel hkdf (take n (handshake_secret e)) ''s hs traffic'' (take n (handshake_traffic_hash e)) n t = Some sh
    \<and> mset (map parse_keylog new) = mset (map (\<lambda>(l, d). Some (l, client_random e, take n d)) (filter (\<lambda>(_, d). present d) (secrets13 e ch sh)))"
proof -
  let ?ev = "openssl_secret_event e"
  have ok: "mk_event_ok e" using mk_reachable_inv [OF assms(2,1)] assms(3) by (simp add: mk_inv_def)
  have v: "sint (ms_version e) = 0x0304" using assms(4) by (simp add: TLS1_3_VERSION_def)
  have suite: "cipher_hash (cipher_id e) = (n, Some t)" using assms(6) by (rule cipher_hash_known)
  have n: "n \<le> 64" using cipher_hash_bound [of "cipher_id e"] suite by simp
  have hs: "present (se_HandshakeSecret ?ev)" "present (se_HandshakeTrafficHash ?ev)"
    "length (se_HandshakeSecret ?ev) = 64" "length (se_HandshakeTrafficHash ?ev) = 64"
    "cipher_hash (se_CipherId ?ev) = (n, Some t)"
    using ok suite assms(7,8) by (auto simp: present_def openssl_secret_event_def mk_event_ok_def)
  obtain ch sh where x:
    "ExpandLabel hkdf (take n (se_HandshakeSecret ?ev)) ''c hs traffic'' (take n (se_HandshakeTrafficHash ?ev)) n t = Some ch"
    "ExpandLabel hkdf (take n (se_HandshakeSecret ?ev)) ''s hs traffic'' (take n (se_HandshakeTrafficHash ?ev)) n t = Some sh"
    "length ch = n" "length sh = n"
    "keylog_secrets13 hkdf ?ev = Some (secrets13 e ch sh)"
    using handshake_secrets [OF assms(9) hs(5,1-4)] by (auto simp: secrets13_def keylog_labels openssl_secret_event_def)
  have "printable n (secrets13 e ch sh)"
    using ok n x(3,4) by (simp add: printable_def secrets13_def mk_event_ok_def)
  from handleTLS13_fresh [OF assms(10,11) x(5), of h] this hs(5) ok assms(12) obtain h' new where
    new: "handleTLS13 io hkdf ?ev h = Some (None, h')" "kw_lines h' = kw_lines h @ new"
      "mset (map parse_keylog new) = mset (map (\<lambda>(l, d). Some (l, client_random e, take n d)) (filter (\<lambda>(_, d). present d) (secrets13 e ch sh)))"
    by (auto simp: openssl_secret_event_def mk_event_ok_def)
  moreover have "Handle io hkdf (OpensslSecret ?ev) h = Some (None, h')"
    using new(1) v by (simp add: openssl_secret_event_def)
  moreover have "masterSecretEventDecoder_Decode (mastersecret_bytes e @ pad) = Inr ?ev"
    using decode_mastersecret [OF ok _ _ assms(5)] v by simp
  moreover note x(1,2)
  ultimately show ?thesis unfolding openssl_secret_event_def OpensslSecretEvent.simps by blast
qed

section \<open>From the BoringSSL object to the file\<close>

text \<open>
  The BoringSSL object sends its events through the same perf array, and user space reads them with the same
  decoder. \<open>struct mastersecret_bssl_t\<close> has the size of \<open>struct mastersecret_t\<close>, but \<open>hash_len\<close> lies where the decoder
  reads the cipher suite, and the two handshake traffic secrets where it reads the handshake secret and hash.
\<close>

definition mastersecret_bssl_bytes :: "mastersecret_bssl_t \<Rightarrow> bytes" where
  "mastersecret_bssl_bytes e =
     le_enc 4 (bs_version e) @ bs_client_random e @ bs_secret e @ le_enc 4 (bs_hash_len e) @ bs_early_traffic_secret e
     @ bs_client_handshake_secret e @ bs_server_handshake_secret e @ bs_client_traffic_secret_0 e
     @ bs_server_traffic_secret_0 e @ bs_exporter_secret e"

lemma cipher_hash_small:
  assumes "c < 256"
  shows "cipher_hash c = (64, None)"
proof -
  have "(0xFFFF :: u32) = mask 16" by (simp add: mask_eq_exp_minus_1)
  then have "unat (ucast (c AND 0xFFFF) :: u16) = unat c mod 2 ^ 16"
    by (simp only: take_bit_eq_mask [symmetric]) (simp add: unsigned_ucast_eq unsigned_take_bit_eq take_bit_nat_def)
  moreover have "unat c < 256" using assms by (simp add: word_less_nat_alt)
  ultimately have "unat (ucast (c AND 0xFFFF) :: u16) < 256" by simp
  then show ?thesis by (auto simp: cipher_hash_def cipher_ids EvpMaxMdSize_def Let_def)
qed

text \<open>
  C36: A TLS 1.3 event of the BoringSSL object with a hash length (32 or 48 in practice) is decoded, but the hash length is
  taken for an unknown cipher suite: the secrets that are not zero are logged with all 64 bytes of their
  fields instead of the length of the hash, and the handshake traffic secrets the event carries are not logged.
\<close>

theorem bssl_tls13_secrets_padded:
  assumes "bm_reachable tab c s" and "e \<in> set (bm_events s)" and "bs_version e = TLS1_3_VERSION" and "\<not> isZeroBytes (bs_client_random e)"
    and "bs_hash_len e < 256" and "io_ok io" and "order_ok io" and "fresh_random (bs_client_random e) h"
  shows "\<exists>ev h' new. masterSecretEventDecoder_Decode (mastersecret_bssl_bytes e @ pad) = Inr ev
    \<and> Handle io hkdf (OpensslSecret ev) h = Some (None, h') \<and> kw_lines h' = kw_lines h @ new
    \<and> mset (map parse_keylog new) = mset (map (\<lambda>(l, d). Some (l, bs_client_random e, take 64 d)) (filter (\<lambda>(_, d). present d)
        [(''CLIENT_TRAFFIC_SECRET_0'', bs_client_traffic_secret_0 e), (''SERVER_TRAFFIC_SECRET_0'', bs_server_traffic_secret_0 e),
         (''EXPORTER_SECRET'', bs_exporter_secret e), (''CLIENT_EARLY_TRAFFIC_SECRET'', bs_early_traffic_secret e)]))"
proof -
  let ?ev = "\<lparr>se_Version = bs_version e, se_ClientRandom = bs_client_random e, se_MasterKey = bs_secret e,
      se_CipherId = bs_hash_len e, se_EarlySecret = bs_early_traffic_secret e,
      se_HandshakeSecret = bs_client_handshake_secret e, se_HandshakeTrafficHash = bs_server_handshake_secret e,
      se_ClientAppTrafficSecret = bs_client_traffic_secret_0 e, se_ServerAppTrafficSecret = bs_server_traffic_secret_0 e,
      se_ExporterMasterSecret = bs_exporter_secret e\<rparr>"
  let ?ss = "[(''CLIENT_TRAFFIC_SECRET_0'', bs_client_traffic_secret_0 e), (''SERVER_TRAFFIC_SECRET_0'', bs_server_traffic_secret_0 e),
         (''EXPORTER_SECRET'', bs_exporter_secret e), (''CLIENT_EARLY_TRAFFIC_SECRET'', bs_early_traffic_secret e)]"
  have v: "sint (bs_version e) = 0x0304" using assms(3) by (simp add: TLS1_3_VERSION_def)
  have shape: "bs_shape e" using bm_reachable_inv [OF assms(1)] assms(2) by (simp add: bm_inv_def)
  have c: "cipher_hash (bs_hash_len e) = (64, None)" using assms(5) by (rule cipher_hash_small)
  have ss: "keylog_secrets13 hkdf ?ev = Some ?ss" using c by (simp add: keylog_secrets13_def keylog_labels)
  have "OpensslSecret_DecodeFromBytes (mastersecret_bssl_bytes e @ pad) = Inr ?ev"
    using shape by (simp add: mastersecret_bssl_bytes_def decode_secret_sample bs_shape_def)
  then have d: "masterSecretEventDecoder_Decode (mastersecret_bssl_bytes e @ pad) = Inr ?ev"
    using v assms(4) by (simp add: masterSecretEventDecoder_Decode_def OpensslSecret_Validate_def)
  have "printable 64 ?ss" using shape by (simp add: printable_def bs_shape_def)
  then obtain h' new where "handleTLS13 io hkdf ?ev h = Some (None, h')" "kw_lines h' = kw_lines h @ new"
      "mset (map parse_keylog new) = mset (map (\<lambda>(l, d). Some (l, bs_client_random e, take 64 d)) (filter (\<lambda>(_, d). present d) ?ss))"
    using handleTLS13_fresh [OF assms(6,7) ss, of h] shape assms(8) c by (auto simp: bs_shape_def simp del: filter.simps)
  with d v show ?thesis by (intro exI [of _ ?ev] exI [of _ h'] exI [of _ new]) simp
qed

section \<open>Witnesses\<close>

definition io0 :: keylog_io where
  "io0 = \<lparr>io_write = (\<lambda>_. True), io_flush = True, io_close = True, io_order = rev\<rparr>"

definition hkdf0 :: hkdf_expand where
  "hkdf0 t secret info n = Some (replicate n 7)"

lemma io0_ok [simp]: "io_ok io0" "order_ok io0" "fresh_random r NewKeylogHandler" "hkdf_fills hkdf0"
  by (simp_all add: io0_def io_ok_def order_ok_def fresh_random_def NewKeylogHandler_def hkdf_fills_def hkdf0_def)

lemma isZeroBytes_replicate [simp]: "isZeroBytes (replicate n b) \<longleftrightarrow> n = 0 \<or> b = 0"
  by (induction n) auto

lemma handleTLS12_total: "handleTLS12 io e h \<noteq> None"
  by (simp add: handleTLS12_def Let_def split: option.split)

lemma handle_all_total: "(\<And>io ev h. (io, ev) \<in> set evs \<Longrightarrow> Handle io hkdf ev h \<noteq> None) \<Longrightarrow> handle_all hkdf evs h \<noteq> None"
  by (induction evs arbitrary: h) (fastforce split: option.split)+

text \<open>Two processes, full of the byte 3, with an \<open>SSL\<close> of TLS 1.2 or of TLS 1.3 with \<open>TLS_AES_128_GCM_SHA256\<close> at 4096.\<close>

definition kl_user12 :: kernel where
  "kl_user12 = kernel0\<lparr>k_user := poke 4096 (le_enc 4 TLS1_2_VERSION) (\<lambda>_. Some 3)\<rparr>"

definition kl_user13 :: kernel where
  "kl_user13 = kernel0\<lparr>k_user := poke 0x030303030303031B (le_enc 4 (0x03001301 :: u32))
     (poke 4096 (le_enc 4 TLS1_3_VERSION) (\<lambda>_. Some 3))\<rparr>"

definition kl_secret12 :: mastersecret_t where
  "kl_secret12 = mastersecret_zero\<lparr>ms_version := TLS1_2_VERSION, client_random := replicate 32 3, master_key := replicate 48 3\<rparr>"

definition kl_state :: "kernel \<Rightarrow> mk_state" where
  "kl_state k = fst (probe_ssl_master_key_30 openssl_3_0_0 rodata_default k (X86 (regs0\<lparr>x_di := 4096\<rparr>)) mk_init)"

lemma kl_state_reachable: "mk_reachable (probe_ssl_master_key_30 openssl_3_0_0) rodata_default (kl_state k)"
  unfolding kl_state_def by (intro mk_reachable.intros)

lemma kl_program: "mk_program (probe_ssl_master_key_30 openssl_3_0_0)"
  by (auto simp: mk_program_def)

lemma kl_state_events:
  "mk_events (kl_state k) = (case tls_secrets openssl_3_0_0 k 4096 (4096 + OT_CLIENT_RANDOM openssl_3_0_0) of None \<Rightarrow> [] | Some e \<Rightarrow> [e])"
  unfolding kl_state_def mk_programs
  by (subst mk_run_events [OF mk_inv_init])
    (simp_all add: passes_filter_def rodata_default_def mk_init_def outcome_body_3x)

lemma kl_events:
  "mk_events (kl_state kl_user12) = [kl_secret12]"
  "mk_events (kl_state kl_user13) = [mk_secret13\<lparr>cipher_id := 0x03001301\<rparr>]"
  by (simp_all add: kl_state_events tls_secrets_def tls13_secrets_def cipher_id_of_def user_word_def user_bytes_def
      kl_user12_def kl_user13_def kl_secret12_def mk_secret13_def mastersecret_zero_def openssl_3_0_0_def read_mem_pokes
      le_word_threes le_word_enc MASTER_SECRET_MAX_LEN_def TLS1_2_VERSION_def TLS1_3_VERSION_def)

theorem keylog_refines_witness:
  "\<exists>h. handle_all hkdf0 [(io0, OpensslSecret (openssl_secret_event kl_secret12)), (io0, OtherEvent),
      (io0, OpensslSecret (openssl_secret_event kl_secret12))] NewKeylogHandler = Some h
    \<and> kw_lines h = [keylog_line ''CLIENT_RANDOM'' (replicate 32 3) (replicate 48 3) @ [newline]]"
proof -
  let ?ev = "openssl_secret_event kl_secret12"
  let ?evs = "[(io0, OpensslSecret ?ev), (io0, OtherEvent), (io0, OpensslSecret ?ev)]"
  have ev: "se_Version ?ev = TLS1_2_VERSION" "se_ClientRandom ?ev = replicate 32 3" "se_MasterKey ?ev = replicate 48 3"
    by (simp_all add: openssl_secret_event_def kl_secret12_def)
  have "Handle io0 hkdf0 (OpensslSecret ?ev) h \<noteq> None" for h using handleTLS12_total by (simp add: ev TLS1_2_VERSION_def)
  then have "handle_all hkdf0 ?evs NewKeylogHandler \<noteq> None" by (intro handle_all_total) auto
  then obtain h where h: "handle_all hkdf0 ?evs NewKeylogHandler = Some h" by blast
  have "offers io hkdf0 (OpensslSecret ?ev) = [(''CLIENT_RANDOM'', replicate 32 3, replicate 48 3)]" for io
    by (simp add: tls12_offer_def ev TLS1_2_VERSION_def)
  then show ?thesis
    using keylog_refines [of ?evs hkdf0 h] h by (simp add: Let_def entry_key_def entry_line_def del: handle_all.simps)
qed

theorem openssl_tls12_logged_witness:
  "\<exists>ev h' line. masterSecretEventDecoder_Decode (mastersecret_bytes kl_secret12 @ []) = Inr ev
    \<and> Handle io0 hkdf0 (OpensslSecret ev) NewKeylogHandler = Some (None, h') \<and> kw_lines h' = [line]
    \<and> parse_keylog line = Some (''CLIENT_RANDOM'', replicate 32 3, replicate 48 3)"
  using openssl_tls12_logged [OF kl_program kl_state_reachable, of kl_secret12 kl_user12 io0 NewKeylogHandler "[]" hkdf0]
  by (auto simp: kl_events kl_secret12_def NewKeylogHandler_def TLS1_2_VERSION_def)

theorem openssl_tls13_logged_witness:
  "\<exists>ev h'. masterSecretEventDecoder_Decode (mastersecret_bytes (mk_secret13\<lparr>cipher_id := 0x03001301\<rparr>) @ [0, 0, 0, 0]) = Inr ev
    \<and> Handle io0 hkdf0 (OpensslSecret ev) NewKeylogHandler = Some (None, h')
    \<and> Some (''SERVER_TRAFFIC_SECRET_0'', replicate 32 3, replicate 32 3) \<in> set (map parse_keylog (kw_lines h'))"
proof -
  let ?e = "mk_secret13\<lparr>cipher_id := 0x03001301\<rparr>"
  have e: "ms_version ?e = TLS1_3_VERSION" "client_random ?e = replicate 32 3" "handshake_secret ?e = replicate 64 3"
    "handshake_traffic_hash ?e = replicate 64 3" "server_app_traffic_secret ?e = replicate 64 3"
    "known_suite (cipher_id ?e) 32 SHA256"
    by (simp_all add: mk_secret13_def known_suite_def)
  obtain ev h' new ch sh where
    "masterSecretEventDecoder_Decode (mastersecret_bytes ?e @ [0, 0, 0, 0]) = Inr ev"
    "Handle io0 hkdf0 (OpensslSecret ev) NewKeylogHandler = Some (None, h')" "kw_lines h' = kw_lines NewKeylogHandler @ new"
    and new: "mset (map parse_keylog new) = mset (map (\<lambda>(l, d). Some (l, client_random ?e, take 32 d)) (filter (\<lambda>(_, d). present d) (secrets13 ?e ch sh)))"
    using openssl_tls13_logged [OF kl_program kl_state_reachable, of ?e kl_user13 32 SHA256 hkdf0 io0 NewKeylogHandler "[0, 0, 0, 0]"]
    e(6) unfolding e(1-5) kl_events by auto
  moreover have "Some (''SERVER_TRAFFIC_SECRET_0'', replicate 32 3, replicate 32 3) \<in> set (map parse_keylog new)"
    unfolding mset_eq_setD [OF new] e by (simp add: present_def secrets13_def e)
  ultimately show ?thesis by (auto simp: NewKeylogHandler_def)
qed

theorem bssl_tls13_secrets_padded_witness:
  "\<exists>ev h'. masterSecretEventDecoder_Decode (mastersecret_bssl_bytes (bs_zero\<lparr>bs_version := TLS1_3_VERSION,
        bs_client_random := replicate 32 3, bs_hash_len := 3, bs_server_traffic_secret_0 := replicate 64 3,
        bs_client_traffic_secret_0 := replicate 64 3, bs_exporter_secret := replicate 64 3\<rparr>) @ []) = Inr ev
    \<and> Handle io0 hkdf0 (OpensslSecret ev) NewKeylogHandler = Some (None, h') \<and> length (kw_lines h') = 3
    \<and> Some (''CLIENT_TRAFFIC_SECRET_0'', replicate 32 3, replicate 64 3) \<in> set (map parse_keylog (kw_lines h'))"
  (is "\<exists>ev h'. masterSecretEventDecoder_Decode (mastersecret_bssl_bytes ?e @ []) = Inr ev \<and> ?P ev h'")
proof -
  let ?s = "fst (uretprobe_bssl_do_handshake boringssl_a_15 rodata_default bk13 bk_regs
     (fst (uprobe_bssl_do_handshake rodata_default bk13 bk_regs bm_init)))"
  have s: "bm_reachable boringssl_a_15 rodata_default ?s"
    by (rule bm_more [OF bm_more [OF bm_start bm_step.bm_enter] bm_step.bm_return])
  have m: "?e \<in> set (bm_events ?s)" unfolding bk13_events by simp
  have e: "bs_version ?e = TLS1_3_VERSION" "bs_client_random ?e = replicate 32 3" "bs_hash_len ?e = 3"
    "bs_early_traffic_secret ?e = replicate 64 0" "bs_client_traffic_secret_0 ?e = replicate 64 3"
    "bs_server_traffic_secret_0 ?e = replicate 64 3" "bs_exporter_secret ?e = replicate 64 3"
    by (simp_all add: bs_zero_def EVP_MAX_MD_SIZE_def)
  obtain ev h' new where
    "masterSecretEventDecoder_Decode (mastersecret_bssl_bytes ?e @ []) = Inr ev"
    "Handle io0 hkdf0 (OpensslSecret ev) NewKeylogHandler = Some (None, h')" "kw_lines h' = kw_lines NewKeylogHandler @ new"
    and new: "mset (map parse_keylog new) = mset (map (\<lambda>(l, d). Some (l, bs_client_random ?e, take 64 d)) (filter (\<lambda>(_, d). present d)
        [(''CLIENT_TRAFFIC_SECRET_0'', bs_client_traffic_secret_0 ?e), (''SERVER_TRAFFIC_SECRET_0'', bs_server_traffic_secret_0 ?e),
         (''EXPORTER_SECRET'', bs_exporter_secret ?e), (''CLIENT_EARLY_TRAFFIC_SECRET'', bs_early_traffic_secret ?e)]))"
    using bssl_tls13_secrets_padded [OF s m, of io0 NewKeylogHandler "[]" hkdf0] unfolding e by (auto simp del: filter.simps)
  moreover have "Some (''CLIENT_TRAFFIC_SECRET_0'', replicate 32 3, replicate 64 3) \<in> set (map parse_keylog new)"
    unfolding mset_eq_setD [OF new] e by (simp add: present_def)
  moreover have "length new = 3" using mset_eq_length [OF new] unfolding e by (simp add: present_def)
  ultimately show ?thesis by (auto simp: NewKeylogHandler_def)
qed

end
