(* ===== verification/Event_Worker.thy ===== *)
theory Event_Worker
  imports Offset_Text
begin

text \<open>
  The workers of the event processor, pkg/event_processor/iworker.go, with what they use of event.go,
  iparser.go and base_event.go. A worker collects the payloads of the events of one UUID and hands
  them to a parser when it has been idle for a second; the parser's text becomes one output. The
  HTTP parsers rest on Go's net/http and are the argument \<open>IParser\<close> (any functions at all);
  \<open>DefaultParser\<close> is modelled. The fields of \<open>eventWorker\<close> that belong to the goroutine of \<open>Run\<close> are its
  program counter, whether its ticker is running and the local \<open>tickerRestartFlag\<close>. A run-time panic is
  \<open>None\<close>. Log lines on the standard output are left out.
\<close>

section \<open>Events and parsers\<close>

record Base =
  b_Timestamp :: s64
  b_UUID :: string
  b_PID :: s64
  b_PName :: string
  b_SrcIP :: string
  b_SrcPort :: u16
  b_DstIP :: string
  b_DstPort :: u16
  b_Type :: u32

record IEventStruct =
  GetUUID :: string
  Payload :: bytes
  ev_Base :: Base

definition SocketLifecycleUUIDPrefix :: string where
  "SocketLifecycleUUIDPrefix = ''sock:''"

datatype ProcessStatus = ProcessStateInit | ProcessStateProcessing | ProcessStateDone

datatype PacketType = PacketTypeNull | PacketTypeUnknow | PacketTypeGzip | PacketTypeWebSocket

text \<open>
  The methods of \<open>IParser\<close> a worker calls, on a parser state of any type; \<open>ip_Display\<close> may change the state.
  The error of \<open>Write\<close> is only logged.
\<close>

record 'p IParser =
  NewParser :: "bytes \<Rightarrow> 'p"
  ip_Write :: "bytes \<Rightarrow> 'p \<Rightarrow> 'p"
  ip_Display :: "'p \<Rightarrow> bytes \<times> 'p"
  ip_Reset :: "'p \<Rightarrow> 'p"

text \<open>Go's \<open>hex.Dump\<close>: sixteen bytes a line, the offset in front and the printable characters behind.\<close>

definition dump_char :: "u8 \<Rightarrow> char" where
  "dump_char b = (if unat b < 32 \<or> 126 < unat b then CHR ''.'' else char_of (unat b))"

definition dump_cell :: "nat \<Rightarrow> string \<Rightarrow> string" where
  "dump_cell i s = s @ '' '' @ (if i = 7 \<or> i = 15 then '' '' else [])"

definition dump_line :: "nat \<Rightarrow> bytes \<Rightarrow> string" where
  "dump_line n bs =
     hex_bytes [of_nat (n div 2 ^ 24), of_nat (n div 2 ^ 16), of_nat (n div 2 ^ 8), of_nat n] @ ''  ''
     @ concat (map (\<lambda>i. dump_cell i (if i < length bs then hex_bytes [bs ! i] else ''  '')) [0..<16])
     @ ''|'' @ map dump_char bs @ ''|'' @ [newline]"

fun dump_from :: "nat \<Rightarrow> bytes \<Rightarrow> string" where
  "dump_from n [] = []"
| "dump_from n (b # bs) = dump_line n (take 16 (b # bs)) @ dump_from (n + 16) (drop 16 (b # bs))"

definition hex_Dump :: "bytes \<Rightarrow> bytes" where
  "hex_Dump bs = string_bytes (dump_from 0 bs)"

definition CToGoString :: "bytes \<Rightarrow> bytes" where
  "CToGoString c = takeWhile (\<lambda>b. b \<noteq> 0) c"

record DefaultParser =
  dp_reader :: bytes
  dp_isdone :: bool

definition DefaultParser_Init :: DefaultParser where
  "DefaultParser_Init = \<lparr>dp_reader = [], dp_isdone = False\<rparr>"

definition DefaultParser_Write :: "bytes \<Rightarrow> DefaultParser \<Rightarrow> DefaultParser" where
  "DefaultParser_Write b dp = dp\<lparr>dp_isdone := True, dp_reader := dp_reader dp @ b\<rparr>"

definition DefaultParser_Display :: "DefaultParser \<Rightarrow> bytes" where
  "DefaultParser_Display dp =
     (case dp_reader dp of
        [] \<Rightarrow> []
      | b # bs \<Rightarrow> if b < 32 \<or> 126 < b then hex_Dump (b # bs) else CToGoString (b # bs))"

definition DefaultParser_Reset :: "DefaultParser \<Rightarrow> DefaultParser" where
  "DefaultParser_Reset dp = dp\<lparr>dp_isdone := False, dp_reader := []\<rparr>"

text \<open>The parser of a program in which no other one is registered.\<close>

definition default_parsers :: "DefaultParser IParser" where
  "default_parsers = \<lparr>NewParser = (\<lambda>_. DefaultParser_Init), ip_Write = DefaultParser_Write,
     ip_Display = (\<lambda>dp. (DefaultParser_Display dp, dp)), ip_Reset = DefaultParser_Reset\<rparr>"

section \<open>The worker\<close>

definition MaxTickerCount :: u8 where
  "MaxTickerCount = 10"

definition MaxChanLen :: nat where
  "MaxChanLen = 1024"

datatype LifeCycleState = LifeCycleStateDefault | LifeCycleStateSock

datatype worker_error = ErrEventWorkerIncomingFull | ErrEventWorkerOutcomingFull

text \<open>
  Where \<open>Run\<close> is: at its select, in the loop of \<open>drainAndClose\<close> at the select, before \<open>IfUsed\<close> or before
  \<open>Close\<close> (the flag says whether \<open>Run\<close> returns afterwards), or returned.
\<close>

datatype run_pc = Running | Draining bool | Checking bool | Closing bool | Finished

text \<open>
  \<open>ew_closeChan\<close> is \<open>None\<close> for a nil channel, \<open>Some True\<close> for a closed one.
\<close>

record 'p eventWorker =
  ew_incoming :: "IEventStruct list"
  ew_originEvent :: "IEventStruct option"
  ew_status :: ProcessStatus
  ew_packetType :: PacketType
  ew_ticking :: bool
  ew_tickerCount :: u8
  ew_UUID :: string
  ew_uuidOutput :: string
  ew_DestroyUUID :: u64
  ew_parser :: "'p option"
  ew_payload :: bytes
  ew_used :: bool
  ew_closeChan :: "bool option"
  ew_LifeCycleState :: LifeCycleState
  ew_restart :: bool
  ew_pc :: run_pc

text \<open>\<open>strings.LastIndex\<close> of an underscore, the last part of \<open>strings.Split\<close> at underscores, \<open>strconv.ParseUint\<close>.\<close>

definition last_index :: "char \<Rightarrow> string \<Rightarrow> nat option" where
  "last_index c s = (if c \<in> set s then Some (length s - 1 - length (takeWhile (\<lambda>d. d \<noteq> c) (rev s))) else None)"

definition last_part :: "char \<Rightarrow> string \<Rightarrow> string" where
  "last_part c s = rev (takeWhile (\<lambda>d. d \<noteq> c) (rev s))"

definition parse_uint64 :: "string \<Rightarrow> u64 option" where
  "parse_uint64 s =
     (if s = [] then None
      else case read_digits 10 0 s of
             None \<Rightarrow> None
           | Some n \<Rightarrow> if int n < 2 ^ 64 then Some (of_nat n) else None)"

definition ew_uuidParse :: "string \<Rightarrow> 'p eventWorker \<Rightarrow> 'p eventWorker option" where
  "ew_uuidParse uuid ew =
     (let ew = ew\<lparr>ew_uuidOutput := uuid, ew_DestroyUUID := 0, ew_LifeCycleState := LifeCycleStateDefault,
                  ew_closeChan := None\<rparr>;
          prefix = SocketLifecycleUUIDPrefix
      in if take (length prefix) uuid \<noteq> prefix then Some ew
         else case parse_uint64 (last_part (CHR ''_'') uuid) of
                None \<Rightarrow> Some ew
              | Some sock \<Rightarrow>
                  if sock \<le> 0 then Some ew
                  else let core = drop (length prefix) uuid in
                    case last_index (CHR ''_'') core of
                      None \<Rightarrow> None
                    | Some i \<Rightarrow> Some (ew\<lparr>ew_uuidOutput := take i core, ew_DestroyUUID := sock,
                                        ew_LifeCycleState := LifeCycleStateSock, ew_closeChan := Some False\<rparr>))"

definition ew_init :: "string \<Rightarrow> 'p eventWorker option" where
  "ew_init uuid = ew_uuidParse uuid
     \<lparr>ew_incoming = [], ew_originEvent = None, ew_status = ProcessStateInit, ew_packetType = PacketTypeNull,
      ew_ticking = True, ew_tickerCount = 0, ew_UUID = uuid, ew_uuidOutput = [], ew_DestroyUUID = 0, ew_parser = None,
      ew_payload = [], ew_used = False, ew_closeChan = None, ew_LifeCycleState = LifeCycleStateDefault,
      ew_restart = False, ew_pc = Running\<rparr>"

definition CloseEventWorker :: "'p eventWorker \<Rightarrow> 'p eventWorker" where
  "CloseEventWorker ew = ew\<lparr>ew_closeChan := map_option (\<lambda>_. True) (ew_closeChan ew)\<rparr>"

definition ew_Write :: "IEventStruct \<Rightarrow> 'p eventWorker \<Rightarrow> 'p eventWorker \<times> worker_error option" where
  "ew_Write e ew =
     (if length (ew_incoming ew) < MaxChanLen then (ew\<lparr>ew_incoming := ew_incoming ew @ [e]\<rparr>, None)
      else (ew, Some ErrEventWorkerIncomingFull))"

definition ew_Get :: "'p eventWorker \<Rightarrow> 'p eventWorker option" where
  "ew_Get ew = (if ew_used ew then None else Some (ew\<lparr>ew_used := True\<rparr>))"

definition ew_Put :: "'p eventWorker \<Rightarrow> 'p eventWorker option" where
  "ew_Put ew = (if ew_used ew then Some (ew\<lparr>ew_used := False\<rparr>) else None)"

text \<open>What of the processor a worker reads: \<open>isHex\<close> and \<open>truncateSize\<close>, as Go's \<open>int\<close>.\<close>

record ep_config =
  isHex :: bool
  truncateSize :: u64

definition ew_writeEvent :: "ep_config \<Rightarrow> IEventStruct \<Rightarrow> 'p eventWorker \<Rightarrow> 'p eventWorker" where
  "ew_writeEvent c e ew =
     (if ew_status ew \<noteq> ProcessStateInit \<and> ew_LifeCycleState ew = LifeCycleStateDefault then ew
      else let tsize = sint (truncateSize c) in
        if 0 < tsize \<and> tsize \<le> int (length (ew_payload ew)) then ew\<lparr>ew_payload := take (nat tsize) (ew_payload ew)\<rparr>
        else ew\<lparr>ew_originEvent := Some e, ew_payload := ew_payload ew @ Payload e\<rparr>)"

definition ew_parserEvents :: "'p IParser \<Rightarrow> 'p eventWorker \<Rightarrow> bytes \<times> 'p eventWorker" where
  "ew_parserEvents P ew =
     (let p = (case ew_parser ew of None \<Rightarrow> NewParser P (ew_payload ew) | Some p \<Rightarrow> p);
          (b, p) = ip_Display P (ip_Write P (ew_payload ew) p)
      in (b, ew\<lparr>ew_parser := Some p, ew_status := ProcessStateDone\<rparr>))"

definition display_line :: "Base \<Rightarrow> bytes \<Rightarrow> bytes" where
  "display_line eb b =
     string_bytes (''PID:'' @ printf_int (sint (b_PID eb)) @ '', Comm:'' @ b_PName eb
       @ '', Src:'' @ b_SrcIP eb @ '':'' @ printf_int (uint (b_SrcPort eb))
       @ '', Dest:'' @ b_DstIP eb @ '':'' @ printf_int (uint (b_DstPort eb)) @ '','' @ [newline]) @ b"

text \<open>
  \<open>Display\<close>, with what it sends to \<open>outComing\<close>. Every \<open>io.Writer\<close> is a \<open>CollectorWriter\<close>, so for a logger that is
  not nil the text branch is always taken. \<open>originEvent\<close> is dereferenced.
\<close>

definition ew_Display :: "'p IParser \<Rightarrow> ep_config \<Rightarrow> 'p eventWorker \<Rightarrow> ('p eventWorker \<times> bytes option) option" where
  "ew_Display P c ew =
     (if ew_payload ew = [] then Some (ew, None)
      else let (b, ew) = ew_parserEvents P ew;
               after = ew\<lparr>ew_parser := map_option (ip_Reset P) (ew_parser ew), ew_payload := [],
                          ew_status := ProcessStateInit, ew_packetType := PacketTypeNull\<rparr>
           in if b = [] then Some (after, None)
              else let b = (if isHex c then hex_Dump b else b) in
                case ew_originEvent ew of
                  None \<Rightarrow> None
                | Some e \<Rightarrow> Some (after, Some (display_line (ev_Base e) b)))"

definition ew_Close :: "'p IParser \<Rightarrow> ep_config \<Rightarrow> 'p eventWorker \<Rightarrow> ('p eventWorker \<times> bytes option) option" where
  "ew_Close P c ew =
     map_option (\<lambda>(ew, out). (ew\<lparr>ew_tickerCount := 0\<rparr>, out)) (ew_Display P c (ew\<lparr>ew_ticking := False\<rparr>))"

text \<open>The receiving branch of \<open>Run\<close>, on the oldest event.\<close>

definition ew_receive :: "ep_config \<Rightarrow> IEventStruct \<Rightarrow> 'p eventWorker \<Rightarrow> 'p eventWorker" where
  "ew_receive c e ew =
     (let ew = (if ew_restart ew then ew\<lparr>ew_ticking := True, ew_restart := False\<rparr> else ew)
      in ew_writeEvent c e (ew\<lparr>ew_tickerCount := 0\<rparr>))"

text \<open>After \<open>Close\<close>, \<open>drainAndClose\<close> returns to \<open>Run\<close>: which returns, or goes on without a ticker.\<close>

definition ew_after_drain :: "bool \<Rightarrow> 'p eventWorker \<Rightarrow> 'p eventWorker" where
  "ew_after_drain leave ew =
     (if leave then ew\<lparr>ew_pc := Finished\<rparr> else ew\<lparr>ew_tickerCount := 0, ew_restart := True, ew_pc := Running\<rparr>)"

section \<open>The UUID of a socket\<close>

lemma last_index_append [simp]: "last_index c (s @ c # t) = Some (length s)" if "c \<notin> set t"
proof -
  have "takeWhile (\<lambda>d. d \<noteq> c) (rev t @ c # rev s) = rev t"
    using that by (subst takeWhile_append2) auto
  with that show ?thesis by (simp add: last_index_def)
qed

lemma last_part_append [simp]: "last_part c (s @ c # t) = t" if "c \<notin> set t"
proof -
  have "takeWhile (\<lambda>d. d \<noteq> c) (rev t @ c # rev s) = rev t"
    using that by (subst takeWhile_append2) auto
  then show ?thesis by (simp add: last_part_def)
qed

lemma last_part_whole: "c \<notin> set s \<Longrightarrow> last_part c s = s"
  by (subst last_part_def, subst takeWhile_eq_all_conv [THEN iffD2]) auto

lemma digit_value_underscore [simp]: "digit_value b (CHR ''_'') = None"
  by (simp add: digit_value_def)

lemma read_digits_bad: "digit_value b c = None \<Longrightarrow> c \<in> set s \<Longrightarrow> read_digits b v s = None"
  by (induction b v s rule: read_digits.induct) (auto split: option.splits)

lemma parse_uint64_prefix: "parse_uint64 (''sock:'' @ s) = None"
  using read_digits_bad [of 10 "CHR '':''" "''sock:'' @ s" 0]
  by (simp add: parse_uint64_def digit_value_def)

lemma ew_uuidParse_returns: "\<exists>ew'. ew_uuidParse uuid ew = Some ew'"
proof (cases "take (length SocketLifecycleUUIDPrefix) uuid = SocketLifecycleUUIDPrefix")
  case True
  then obtain core where u: "uuid = ''sock:'' @ core" by (metis append_take_drop_id SocketLifecycleUUIDPrefix_def)
  show ?thesis
  proof (cases "CHR ''_'' \<in> set core")
    case True
    then show ?thesis
      by (auto simp: ew_uuidParse_def SocketLifecycleUUIDPrefix_def u last_index_def Let_def split: option.splits)
  next
    case False
    then have "last_part (CHR ''_'') uuid = uuid" by (auto simp: u intro!: last_part_whole)
    then show ?thesis using parse_uint64_prefix [of core]
      by (auto simp: ew_uuidParse_def SocketLifecycleUUIDPrefix_def u Let_def)
  qed
qed (simp add: ew_uuidParse_def Let_def)

lemma digits_no_underscore: "CHR ''_'' \<notin> set (digits 10 n)"
proof
  assume "CHR ''_'' \<in> set (digits 10 n)"
  then have "read_digits 10 0 (digits 10 n) = None" by (rule read_digits_bad [rotated]) simp
  with read_digits_digits [of 10 n] show False by simp
qed

lemma parse_uint64_digits: "int n < 2 ^ 64 \<Longrightarrow> parse_uint64 (digits 10 n) = Some (of_nat n)"
  by (simp add: parse_uint64_def read_digits_digits)

section \<open>What holds of a worker at every step\<close>

fun leaves :: "run_pc \<Rightarrow> bool" where
  "leaves Running = False"
| "leaves (Draining x) = x"
| "leaves (Checking x) = x"
| "leaves (Closing x) = x"
| "leaves Finished = True"

definition ew_ok :: "'p eventWorker \<Rightarrow> bool" where
  "ew_ok ew \<longleftrightarrow>
     length (ew_incoming ew) \<le> MaxChanLen \<and> ew_status ew = ProcessStateInit \<and>
     (ew_payload ew \<noteq> [] \<longrightarrow> ew_originEvent ew \<noteq> None) \<and> ew_tickerCount ew \<le> MaxTickerCount + 1 \<and>
     (ew_closeChan ew = None \<longleftrightarrow> ew_LifeCycleState ew = LifeCycleStateDefault) \<and>
     (ew_pc ew \<noteq> Finished \<longrightarrow> ew_ticking ew = (\<not> ew_restart ew)) \<and>
     (ew_restart ew \<longrightarrow> ew_LifeCycleState ew = LifeCycleStateSock) \<and>
     (ew_pc ew \<noteq> Running \<longrightarrow> leaves (ew_pc ew) \<or> ew_LifeCycleState ew = LifeCycleStateSock \<and> \<not> ew_restart ew) \<and>
     (leaves (ew_pc ew) \<longrightarrow> ew_LifeCycleState ew = LifeCycleStateSock \<longrightarrow> ew_closeChan ew = Some True)"

text \<open>A socket worker that has not been told to close.\<close>

definition ew_open :: "'p eventWorker \<Rightarrow> bool" where
  "ew_open ew \<longleftrightarrow> ew_closeChan ew = Some False"

lemma ew_init_ok: "ew_init uuid = Some ew \<Longrightarrow>
  ew_ok ew \<and> ew_UUID ew = uuid \<and> \<not> ew_used ew \<and> ew_incoming ew = [] \<and> ew_payload ew = [] \<and> ew_pc ew = Running"
  by (auto simp: ew_init_def ew_uuidParse_def ew_ok_def Let_def MaxTickerCount_def split: if_splits option.splits)

lemma ew_init_returns: "\<exists>ew. ew_init uuid = Some ew"
  using ew_uuidParse_returns by (simp add: ew_init_def)

lemma CloseEventWorker_sel [simp]:
  "ew_incoming (CloseEventWorker ew) = ew_incoming ew" "ew_payload (CloseEventWorker ew) = ew_payload ew"
  "ew_UUID (CloseEventWorker ew) = ew_UUID ew" "ew_used (CloseEventWorker ew) = ew_used ew"
  "ew_pc (CloseEventWorker ew) = ew_pc ew" "ew_DestroyUUID (CloseEventWorker ew) = ew_DestroyUUID ew"
  "ew_LifeCycleState (CloseEventWorker ew) = ew_LifeCycleState ew" "ew_ticking (CloseEventWorker ew) = ew_ticking ew"
  "ew_tickerCount (CloseEventWorker ew) = ew_tickerCount ew" "\<not> ew_open (CloseEventWorker ew)"
  by (auto simp: CloseEventWorker_def ew_open_def)

lemma CloseEventWorker_ok: "ew_ok ew \<Longrightarrow> ew_ok (CloseEventWorker ew)"
  by (auto simp: CloseEventWorker_def ew_ok_def)

lemma ew_writeEvent_sel [simp]:
  "ew_incoming (ew_writeEvent c e ew) = ew_incoming ew" "ew_UUID (ew_writeEvent c e ew) = ew_UUID ew"
  "ew_used (ew_writeEvent c e ew) = ew_used ew" "ew_pc (ew_writeEvent c e ew) = ew_pc ew"
  "ew_closeChan (ew_writeEvent c e ew) = ew_closeChan ew" "ew_status (ew_writeEvent c e ew) = ew_status ew"
  "ew_LifeCycleState (ew_writeEvent c e ew) = ew_LifeCycleState ew" "ew_ticking (ew_writeEvent c e ew) = ew_ticking ew"
  "ew_restart (ew_writeEvent c e ew) = ew_restart ew" "ew_tickerCount (ew_writeEvent c e ew) = ew_tickerCount ew"
  by (simp_all add: ew_writeEvent_def Let_def)

lemma ew_writeEvent_origin:
  "(ew_payload ew \<noteq> [] \<longrightarrow> ew_originEvent ew \<noteq> None) \<Longrightarrow>
   ew_payload (ew_writeEvent c e ew) \<noteq> [] \<longrightarrow> ew_originEvent (ew_writeEvent c e ew) \<noteq> None"
  by (auto simp: ew_writeEvent_def Let_def)

lemma ew_writeEvent_payload:
  "ew_status ew = ProcessStateInit \<Longrightarrow> sint (truncateSize c) \<le> 0 \<Longrightarrow>
   ew_payload (ew_writeEvent c e ew) = ew_payload ew @ Payload e"
  by (simp add: ew_writeEvent_def Let_def)

lemma ew_writeEvent_ok: "ew_ok ew \<Longrightarrow> ew_ok (ew_writeEvent c e ew)"
  using ew_writeEvent_origin [of ew c e] by (simp add: ew_ok_def)

lemma ew_receive_sel [simp]:
  "ew_incoming (ew_receive c e ew) = ew_incoming ew" "ew_UUID (ew_receive c e ew) = ew_UUID ew"
  "ew_used (ew_receive c e ew) = ew_used ew" "ew_pc (ew_receive c e ew) = ew_pc ew"
  "ew_closeChan (ew_receive c e ew) = ew_closeChan ew" "ew_tickerCount (ew_receive c e ew) = 0"
  "ew_LifeCycleState (ew_receive c e ew) = ew_LifeCycleState ew"
  by (simp_all add: ew_receive_def Let_def)

lemma ew_receive_ok: "ew_ok ew \<Longrightarrow> ew_pc ew = Running \<Longrightarrow> ew_ok (ew_receive c e ew)"
  unfolding ew_receive_def Let_def by (rule ew_writeEvent_ok) (auto simp: ew_ok_def)

lemma ew_receive_payload:
  "ew_status ew = ProcessStateInit \<Longrightarrow> sint (truncateSize c) \<le> 0 \<Longrightarrow>
   ew_payload (ew_receive c e ew) = ew_payload ew @ Payload e"
  by (simp add: ew_receive_def Let_def ew_writeEvent_payload)

lemma ew_Close_returns: "ew_ok ew \<Longrightarrow> \<exists>ew' out. ew_Close P c ew = Some (ew', out)"
  by (auto simp: ew_ok_def ew_Close_def ew_Display_def ew_parserEvents_def Let_def split: prod.splits option.splits)

lemma ew_Close_sel:
  assumes "ew_Close P c ew = Some (ew', out)"
  shows "ew_incoming ew' = ew_incoming ew" "ew_UUID ew' = ew_UUID ew" "ew_used ew' = ew_used ew" "ew_pc ew' = ew_pc ew"
    "ew_closeChan ew' = ew_closeChan ew" "ew_LifeCycleState ew' = ew_LifeCycleState ew" "\<not> ew_ticking ew'"
    "ew_tickerCount ew' = 0" "ew_payload ew' = []" "ew_restart ew' = ew_restart ew"
    "out \<noteq> None \<Longrightarrow> ew_payload ew \<noteq> []" "ew_status ew = ProcessStateInit \<Longrightarrow> ew_status ew' = ProcessStateInit"
  using assms
  by (auto simp: ew_Close_def ew_Display_def ew_parserEvents_def Let_def split: prod.splits option.splits if_splits)

lemma ew_after_drain_sel [simp]:
  "ew_incoming (ew_after_drain x ew) = ew_incoming ew" "ew_UUID (ew_after_drain x ew) = ew_UUID ew"
  "ew_used (ew_after_drain x ew) = ew_used ew" "ew_payload (ew_after_drain x ew) = ew_payload ew"
  "ew_closeChan (ew_after_drain x ew) = ew_closeChan ew"
  "ew_LifeCycleState (ew_after_drain x ew) = ew_LifeCycleState ew"
  "ew_pc (ew_after_drain x ew) = (if x then Finished else Running)"
  by (simp_all add: ew_after_drain_def)

lemma ew_after_drain_ok:
  assumes "ew_ok ew" "ew_pc ew = Closing x" "ew_Close P c ew = Some (ew', out)"
  shows "ew_ok (ew_after_drain x ew')"
  using assms(1,2) ew_Close_sel [OF assms(3)] by (auto simp: ew_ok_def ew_after_drain_def)

section \<open>Property\<close>

text \<open>
  The UUID of a socket's event: the prefix, a core (which may hold underscores itself) and the socket in decimal,
  with any number of leading zeros, after a last underscore.
\<close>

definition socket_uuid :: "string \<Rightarrow> string \<Rightarrow> u64 \<Rightarrow> bool" where
  "socket_uuid uuid core sock \<longleftrightarrow>
     sock \<noteq> 0 \<and> (\<exists>z. uuid = SocketLifecycleUUIDPrefix @ core @ ''_'' @ replicate z (CHR ''0'') @ digits 10 (unat sock))"

lemma digit_value_char:
  assumes "digit_value 10 c = Some d"
  shows "d < 10" and "c = digit_char d"
proof -
  from assms show d: "d < 10" by (auto simp: digit_value_def Let_def split: if_splits)
  have "(of_char c :: nat) = 48 + d" using assms by (auto simp: digit_value_def Let_def split: if_splits)
  then have "char_of (48 + d) = c" by (metis char_of_char)
  with d show "c = digit_char d" by (simp add: digit_char_def)
qed

lemma digit_char_0: "digit_char 0 = CHR ''0''"
  by code_simp

lemma read_zeros: "read_digits 10 0 s = Some 0 \<Longrightarrow> set s \<subseteq> {CHR ''0''}"
proof (induction s rule: rev_induct)
  case (snoc c s)
  then have "read_digits 10 0 s = Some 0" "digit_value 10 c = Some 0"
    by (auto simp: read_digits_snoc split: option.splits)
  with snoc.IH digit_value_char(2) [of c 0] show ?case by (simp add: digit_char_0)
qed simp

text \<open>A decimal numeral is determined by its value up to leading zeros.\<close>

lemma read_digits_unique:
  "read_digits 10 0 s = Some n \<Longrightarrow> 0 < n \<Longrightarrow> \<exists>z. s = replicate z (CHR ''0'') @ digits 10 n"
proof (induction s arbitrary: n rule: rev_induct)
  case (snoc c s)
  then obtain m d where m: "read_digits 10 0 s = Some m" "digit_value 10 c = Some d" "n = m * 10 + d"
    by (auto simp: read_digits_snoc split: option.splits)
  note c = digit_value_char [OF m(2)]
  show ?case
  proof (cases "m = 0")
    case True
    with m c have "digits 10 n = [c]" by (subst digits.simps) simp
    moreover have "s = replicate (length s) (CHR ''0'')"
      using read_zeros [of s] m(1) True by (intro replicate_length_same [symmetric]) auto
    ultimately show ?thesis by metis
  next
    case False
    with snoc.IH [OF m(1)] obtain z where "s = replicate z (CHR ''0'') @ digits 10 m" by auto
    moreover have "digits 10 n = digits 10 m @ [c]" using False m(3) c by (subst digits.simps) simp
    ultimately show ?thesis by auto
  qed
qed simp

lemma read_leading_zeros: "read_digits 10 0 (replicate z (CHR ''0'') @ s) = read_digits 10 0 s"
  by (induction z) (simp_all add: digit_value_def)

lemma parse_uint64_iff:
  assumes "sock \<noteq> 0"
  shows "parse_uint64 t = Some sock \<longleftrightarrow> (\<exists>z. t = replicate z (CHR ''0'') @ digits 10 (unat sock))"
proof
  assume "parse_uint64 t = Some sock"
  then obtain n where n: "read_digits 10 0 t = Some n" "int n < 2 ^ 64" "sock = of_nat n"
    by (auto simp: parse_uint64_def split: if_splits option.splits)
  have "unat sock = n" using n(2,3) by (simp add: unat_of_nat_u64)
  moreover have "0 < n" using assms n(3) by (cases n) auto
  ultimately show "\<exists>z. t = replicate z (CHR ''0'') @ digits 10 (unat sock)" using read_digits_unique [OF n(1)] by simp
next
  assume "\<exists>z. t = replicate z (CHR ''0'') @ digits 10 (unat sock)"
  then obtain z where t: "t = replicate z (CHR ''0'') @ digits 10 (unat sock)" by blast
  have "int (unat sock) < 2 ^ 64" using uint_lt2p [of sock] by (simp add: unsigned_of_nat)
  with t show "parse_uint64 t = Some sock"
    by (simp add: parse_uint64_def read_leading_zeros read_digits_digits)
qed

lemma parse_uint64_no_underscore: "parse_uint64 t = Some sock \<Longrightarrow> CHR ''_'' \<notin> set t"
  using read_digits_bad [of 10 "CHR ''_''" t 0] by (auto simp: parse_uint64_def split: if_splits)

lemma split_last_part: "c \<in> set s \<Longrightarrow> \<exists>core. s = core @ c # last_part c s"
proof -
  assume "c \<in> set s"
  then obtain x y where s: "s = x @ c # y" "c \<notin> set y" by (meson split_list_last)
  then show ?thesis by auto
qed

text \<open>\<open>uuidParse\<close> takes its last branch on exactly the UUIDs of sockets.\<close>

lemma socket_uuid_parts:
  assumes "socket_uuid uuid core sock"
  obtains t where "uuid = ''sock:'' @ core @ CHR ''_'' # t" "parse_uint64 t = Some sock" "sock \<noteq> 0"
    "last_part (CHR ''_'') uuid = t" "CHR ''_'' \<notin> set t"
proof -
  obtain t where t: "uuid = ''sock:'' @ core @ CHR ''_'' # t" "parse_uint64 t = Some sock" "sock \<noteq> 0"
    using assms by (auto simp: socket_uuid_def SocketLifecycleUUIDPrefix_def parse_uint64_iff)
  note u = parse_uint64_no_underscore [OF t(2)]
  have "last_part (CHR ''_'') uuid = t" using last_part_append [OF u, of "''sock:'' @ core"] t(1) by simp
  with t u that show thesis by blast
qed

lemma socket_uuid_unique: "socket_uuid uuid core sock \<Longrightarrow> socket_uuid uuid core' sock' \<Longrightarrow> core' = core \<and> sock' = sock"
  by (elim socket_uuid_parts) auto

lemma ew_uuidParse_socket:
  assumes "socket_uuid uuid core sock"
  shows "ew_uuidParse uuid ew = Some (ew\<lparr>ew_uuidOutput := core, ew_DestroyUUID := sock,
    ew_LifeCycleState := LifeCycleStateSock, ew_closeChan := Some False\<rparr>)"
  using assms
  by (elim socket_uuid_parts) (simp add: ew_uuidParse_def SocketLifecycleUUIDPrefix_def word_le_0_iff)

lemma ew_uuidParse_other:
  assumes "\<nexists>core sock. socket_uuid uuid core sock"
  shows "ew_uuidParse uuid ew = Some (ew\<lparr>ew_uuidOutput := uuid, ew_DestroyUUID := 0,
    ew_LifeCycleState := LifeCycleStateDefault, ew_closeChan := None\<rparr>)"
proof (cases "take (length SocketLifecycleUUIDPrefix) uuid = SocketLifecycleUUIDPrefix")
  case True
  then obtain core where u: "uuid = ''sock:'' @ core" by (metis append_take_drop_id SocketLifecycleUUIDPrefix_def)
  have "sock = 0" if p: "parse_uint64 (last_part (CHR ''_'') uuid) = Some sock" for sock
  proof (rule ccontr)
    assume "sock \<noteq> 0"
    have "CHR ''_'' \<in> set core"
    proof (rule ccontr)
      assume "CHR ''_'' \<notin> set core"
      then have "last_part (CHR ''_'') uuid = uuid" by (auto simp: u intro!: last_part_whole)
      with p parse_uint64_prefix [of core] u show False by simp
    qed
    then obtain x where x: "core = x @ CHR ''_'' # last_part (CHR ''_'') core" using split_last_part by blast
    have "last_part (CHR ''_'') uuid = last_part (CHR ''_'') core"
      using \<open>CHR ''_'' \<in> set core\<close> by (simp add: u last_part_def takeWhile_append1)
    with p \<open>sock \<noteq> 0\<close> obtain z where "last_part (CHR ''_'') core = replicate z (CHR ''0'') @ digits 10 (unat sock)"
      using parse_uint64_iff by metis
    with x u \<open>sock \<noteq> 0\<close> have "socket_uuid uuid x sock" by (auto simp: socket_uuid_def SocketLifecycleUUIDPrefix_def)
    with assms show False by blast
  qed
  with True show ?thesis by (auto simp: ew_uuidParse_def Let_def split: option.split)
qed (simp add: ew_uuidParse_def Let_def)

text \<open>
  C37: \<open>uuidParse\<close> recognises exactly the UUIDs of sockets. For every UUID a worker is made; it belongs to a socket
  if and only if the UUID is the prefix, a core and the socket's decimal number other than 0 after a last underscore,
  and then it shows the core, is destroyed with exactly that socket and can be told to close. For every
  other UUID (no prefix, a last part that is no decimal number of 64 bits, or socket 0) it is a worker of
  the default life cycle that shows the UUID unchanged, belongs to no socket and cannot be told to close.
\<close>

theorem socket_uuid_reads_back:
  "\<exists>ew :: 'p eventWorker. ew_init uuid = Some ew \<and>
    (\<forall>core sock. socket_uuid uuid core sock \<longleftrightarrow>
       ew_LifeCycleState ew = LifeCycleStateSock \<and> ew_uuidOutput ew = core \<and> ew_DestroyUUID ew = sock) \<and>
    (if \<exists>core sock. socket_uuid uuid core sock then ew_closeChan ew = Some False
     else ew_LifeCycleState ew = LifeCycleStateDefault \<and> ew_uuidOutput ew = uuid \<and> ew_DestroyUUID ew = 0 \<and>
       ew_closeChan ew = None \<and> CloseEventWorker ew = ew)"
proof (cases "\<exists>core sock. socket_uuid uuid core sock")
  case True
  then obtain core sock where s: "socket_uuid uuid core sock" by blast
  then have "socket_uuid uuid c k \<longleftrightarrow> core = c \<and> sock = k" for c k using socket_uuid_unique by blast
  then show ?thesis unfolding ew_init_def ew_uuidParse_socket [OF s] by simp
next
  case False
  then show ?thesis unfolding ew_init_def ew_uuidParse_other [OF False] by (simp add: CloseEventWorker_def)
qed

theorem socket_uuid_reads_back_witness:
  "\<exists>(ew :: DefaultParser eventWorker) (d :: DefaultParser eventWorker).
     ew_init ''sock:7_7_curl_3_99'' = Some ew \<and> ew_uuidOutput ew = ''7_7_curl_3'' \<and> ew_DestroyUUID ew = 99 \<and>
     ew_closeChan ew = Some False \<and>
     ew_init ''7_7_curl_3_99'' = Some d \<and> ew_LifeCycleState d = LifeCycleStateDefault \<and> CloseEventWorker d = d"
proof -
  have "digits 10 (unat (99 :: u64)) = ''99''" by code_simp
  then have "socket_uuid ''sock:7_7_curl_3_99'' ''7_7_curl_3'' 99"
    by (auto simp: socket_uuid_def SocketLifecycleUUIDPrefix_def intro!: exI [of _ 0])
  with socket_uuid_reads_back [of "''sock:7_7_curl_3_99''", where 'p = DefaultParser]
  obtain ew :: "DefaultParser eventWorker" where ew: "ew_init ''sock:7_7_curl_3_99'' = Some ew"
    "ew_uuidOutput ew = ''7_7_curl_3'' \<and> ew_DestroyUUID ew = 99" "ew_closeChan ew = Some False" by (metis (lifting))
  have "\<not> socket_uuid ''7_7_curl_3_99'' core sock" for core sock
    by (simp add: socket_uuid_def SocketLifecycleUUIDPrefix_def)
  with socket_uuid_reads_back [of "''7_7_curl_3_99''", where 'p = DefaultParser]
  obtain d :: "DefaultParser eventWorker" where "ew_init ''7_7_curl_3_99'' = Some d"
    "ew_LifeCycleState d = LifeCycleStateDefault" "CloseEventWorker d = d" by auto
  with ew show ?thesis by blast
qed

end
