(* ===== verification/Event_Processor.thy ===== *)
theory Event_Processor
  imports Event_Worker "HOL-Library.Multiset"
begin

text \<open>
  The event processor, pkg/event_processor/processor.go: the goroutine of \<open>Serve\<close>, the goroutines of the
  workers (iworker.go, \<open>Run\<close>) and the callers of \<open>Write\<close>, \<open>WriteDestroyConn\<close>, \<open>Close\<close> and \<open>ErrorChan\<close>, interleaved
  step by step. A buffered channel is the list of what it holds, a reference to a worker is its
  position in the list of all workers made so far (the wait group counts those not \<open>Finished\<close>), \<open>closeChan\<close> is
  closed when \<open>ep_isClosed\<close> is set (both under one lock) and \<open>serveDone\<close> when \<open>Serve\<close> is \<open>Returned\<close>. What a
  goroutine does under the lock, and every atomic operation or channel operation, is one step; \<open>select\<close> may
  take any branch that is ready, and \<open>range\<close> over the queue visits it in any order. A panic ends the program.
\<close>

section \<open>State\<close>

definition MaxIncomingChanLen :: nat where
  "MaxIncomingChanLen = 1024"

definition errChanLen :: nat where
  "errChanLen = 16"

text \<open>Where \<open>Serve\<close> is: at the select of its loop or of \<open>drain\<close>, between the calls of \<open>dispatch\<close>, or later in \<open>drain\<close>.\<close>

datatype serve_pc =
    Select
  | GetWorker IEventStruct
  | NewWorker IEventStruct
  | AddWorker IEventStruct nat
  | WriteWorker IEventStruct nat
  | PutWorker nat "worker_error option"
  | WaitWorkers
  | FlushOut
  | Returned

text \<open>
  \<open>ep_writers\<close> and \<open>ep_destroyers\<close> are the calls of \<open>Write\<close> and \<open>WriteDestroyConn\<close> that have read
  \<open>isClosed\<close> as false and not yet sent.
\<close>

record 'p eventProcessor =
  ep_isClosed :: bool
  ep_incoming :: "IEventStruct list"
  ep_outComing :: "bytes list"
  ep_destroyConn :: "u64 list"
  ep_workerQueue :: "(string \<times> nat) list"
  ep_logger :: "bytes list"
  ep_errChan :: "worker_error list"
  ep_serve :: serve_pc
  ep_draining :: bool
  ep_workers :: "'p eventWorker list"
  ep_writers :: "IEventStruct list"
  ep_destroyers :: "u64 list"
  ep_panic :: bool

definition NewEventProcessor :: "'p eventProcessor" where
  "NewEventProcessor = \<lparr>ep_isClosed = False, ep_incoming = [], ep_outComing = [], ep_destroyConn = [],
     ep_workerQueue = [], ep_logger = [], ep_errChan = [], ep_serve = Select, ep_draining = False, ep_workers = [],
     ep_writers = [], ep_destroyers = [], ep_panic = False\<rparr>"

definition put_worker :: "nat \<Rightarrow> 'p eventWorker \<Rightarrow> 'p eventProcessor \<Rightarrow> 'p eventProcessor" where
  "put_worker i ew s = s\<lparr>ep_workers := (ep_workers s)[i := ew]\<rparr>"

section \<open>Operations\<close>

definition getWorkerByUUID :: "string \<Rightarrow> 'p eventProcessor \<Rightarrow> (nat option \<times> 'p eventProcessor) option" where
  "getWorkerByUUID uuid s =
     (case map_of (ep_workerQueue s) uuid of
        None \<Rightarrow> Some (None, s)
      | Some i \<Rightarrow> map_option (\<lambda>ew. (Some i, put_worker i ew s)) (ew_Get (ep_workers s ! i)))"

definition addWorkerByUUID :: "nat \<Rightarrow> 'p eventProcessor \<Rightarrow> 'p eventProcessor option" where
  "addWorkerByUUID i s =
     (let s = s\<lparr>ep_workerQueue := AList.update (ew_UUID (ep_workers s ! i)) i (ep_workerQueue s)\<rparr>
      in map_option (\<lambda>ew. put_worker i ew s) (ew_Get (ep_workers s ! i)))"

definition delWorkerByUUID :: "nat \<Rightarrow> 'p eventProcessor \<Rightarrow> 'p eventProcessor" where
  "delWorkerByUUID i s = s\<lparr>ep_workerQueue := AList.delete (ew_UUID (ep_workers s ! i)) (ep_workerQueue s)\<rparr>"

definition clearAllWorkers :: "'p eventProcessor \<Rightarrow> 'p eventProcessor" where
  "clearAllWorkers s = s\<lparr>ep_workerQueue := []\<rparr>"

definition NewEventWorker :: "string \<Rightarrow> 'p eventProcessor \<Rightarrow> (nat \<times> 'p eventProcessor) option" where
  "NewEventWorker uuid s =
     map_option (\<lambda>ew. (length (ep_workers s), s\<lparr>ep_workers := ep_workers s @ [ew]\<rparr>)) (ew_init uuid)"

definition destroyWorkers :: "(string \<times> nat) list \<Rightarrow> u64 \<Rightarrow> 'p eventProcessor \<Rightarrow> 'p eventProcessor" where
  "destroyWorkers entries destroyUUID s =
     (if destroyUUID \<le> 0 then s
      else case find (\<lambda>(_, i). destroyUUID = ew_DestroyUUID (ep_workers s ! i)) entries of
             None \<Rightarrow> s
           | Some (_, i) \<Rightarrow> put_worker i (CloseEventWorker (ep_workers s ! i)) s)"

definition signalWorkers :: "'p eventProcessor \<Rightarrow> 'p eventProcessor" where
  "signalWorkers s = fold (\<lambda>(_, i) s. put_worker i (CloseEventWorker (ep_workers s ! i)) s) (ep_workerQueue s) s"

definition report_error :: "worker_error option \<Rightarrow> 'p eventProcessor \<Rightarrow> 'p eventProcessor" where
  "report_error err s =
     (case err of
        None \<Rightarrow> s
      | Some e \<Rightarrow> if length (ep_errChan s) < errChanLen then s\<lparr>ep_errChan := ep_errChan s @ [e]\<rparr> else s)"

definition writeToChan :: "bytes option \<Rightarrow> 'p eventProcessor \<Rightarrow> 'p eventProcessor" where
  "writeToChan out s =
     (case out of
        None \<Rightarrow> s
      | Some b \<Rightarrow> if length (ep_outComing s) < MaxIncomingChanLen then s\<lparr>ep_outComing := ep_outComing s @ [b]\<rparr> else s)"

section \<open>Steps\<close>

datatype 'a go_outcome = Blocked | Panic | Next 'a

text \<open>What of a step a trace records: the event that the channel of a worker took.\<close>

datatype action = Internal | Accepted nat IEventStruct

type_synonym 'p ep_result = "(action \<times> 'p eventProcessor) go_outcome"

subsection \<open>Serve\<close>

datatype branch = FromIncoming | FromDestroyConn "(string \<times> nat) list" | FromOutComing | FromCloseChan | DefaultOrDone

definition take_incoming :: "'p eventProcessor \<Rightarrow> 'p ep_result" where
  "take_incoming s =
     (case ep_incoming s of
        [] \<Rightarrow> Blocked
      | e # es \<Rightarrow> Next (Internal, s\<lparr>ep_incoming := es, ep_serve := GetWorker e\<rparr>))"

definition take_outComing :: "'p eventProcessor \<Rightarrow> 'p ep_result" where
  "take_outComing s =
     (case ep_outComing s of
        [] \<Rightarrow> Blocked
      | b # bs \<Rightarrow> Next (Internal, s\<lparr>ep_outComing := bs, ep_logger := ep_logger s @ [b]\<rparr>))"

definition serve_select :: "branch \<Rightarrow> 'p eventProcessor \<Rightarrow> 'p ep_result" where
  "serve_select br s =
     (case br of
        FromIncoming \<Rightarrow> take_incoming s
      | FromDestroyConn entries \<Rightarrow>
          (case ep_destroyConn s of
             [] \<Rightarrow> Blocked
           | d # ds \<Rightarrow>
               if mset entries = mset (ep_workerQueue s)
               then Next (Internal, destroyWorkers entries d (s\<lparr>ep_destroyConn := ds\<rparr>)) else Blocked)
      | FromOutComing \<Rightarrow> take_outComing s
      | FromCloseChan \<Rightarrow> if ep_isClosed s then Next (Internal, s\<lparr>ep_draining := True\<rparr>) else Blocked
      | DefaultOrDone \<Rightarrow> Blocked)"

definition drain_select :: "branch \<Rightarrow> 'p eventProcessor \<Rightarrow> 'p ep_result" where
  "drain_select br s =
     (case br of
        FromIncoming \<Rightarrow> take_incoming s
      | DefaultOrDone \<Rightarrow>
          if ep_incoming s = [] then Next (Internal, signalWorkers (s\<lparr>ep_serve := WaitWorkers\<rparr>)) else Blocked
      | _ \<Rightarrow> Blocked)"

definition wait_select :: "branch \<Rightarrow> 'p eventProcessor \<Rightarrow> 'p ep_result" where
  "wait_select br s =
     (case br of
        FromOutComing \<Rightarrow> take_outComing s
      | DefaultOrDone \<Rightarrow>
          if list_all (\<lambda>ew. ew_pc ew = Finished) (ep_workers s) then Next (Internal, s\<lparr>ep_serve := FlushOut\<rparr>) else Blocked
      | _ \<Rightarrow> Blocked)"

definition flush_select :: "branch \<Rightarrow> 'p eventProcessor \<Rightarrow> 'p ep_result" where
  "flush_select br s =
     (case br of
        FromOutComing \<Rightarrow> take_outComing s
      | DefaultOrDone \<Rightarrow> if ep_outComing s = [] then Next (Internal, s\<lparr>ep_serve := Returned\<rparr>) else Blocked
      | _ \<Rightarrow> Blocked)"

definition serve_step :: "branch \<Rightarrow> 'p eventProcessor \<Rightarrow> 'p ep_result" where
  "serve_step br s =
     (case ep_serve s of
        Select \<Rightarrow> if ep_draining s then drain_select br s else serve_select br s
      | GetWorker e \<Rightarrow>
          (case getWorkerByUUID (GetUUID e) s of
             None \<Rightarrow> Panic
           | Some (None, s) \<Rightarrow> Next (Internal, s\<lparr>ep_serve := NewWorker e\<rparr>)
           | Some (Some i, s) \<Rightarrow> Next (Internal, s\<lparr>ep_serve := WriteWorker e i\<rparr>))
      | NewWorker e \<Rightarrow>
          (case NewEventWorker (GetUUID e) s of
             None \<Rightarrow> Panic
           | Some (i, s) \<Rightarrow> Next (Internal, s\<lparr>ep_serve := AddWorker e i\<rparr>))
      | AddWorker e i \<Rightarrow>
          (case addWorkerByUUID i s of
             None \<Rightarrow> Panic
           | Some s \<Rightarrow> Next (Internal, s\<lparr>ep_serve := WriteWorker e i\<rparr>))
      | WriteWorker e i \<Rightarrow>
          (let (ew, err) = ew_Write e (ep_workers s ! i)
           in Next (if err = None then Accepted i e else Internal, (put_worker i ew s)\<lparr>ep_serve := PutWorker i err\<rparr>))
      | PutWorker i err \<Rightarrow>
          (case ew_Put (ep_workers s ! i) of
             None \<Rightarrow> Panic
           | Some ew \<Rightarrow> Next (Internal, report_error err ((put_worker i ew s)\<lparr>ep_serve := Select\<rparr>)))
      | WaitWorkers \<Rightarrow> wait_select br s
      | FlushOut \<Rightarrow> flush_select br s
      | Returned \<Rightarrow> Blocked)"

subsection \<open>Workers\<close>

datatype run_branch = OnTicker | OnIncoming | OnCloseChan

definition run_select :: "ep_config \<Rightarrow> run_branch \<Rightarrow> nat \<Rightarrow> 'p eventProcessor \<Rightarrow> 'p ep_result" where
  "run_select c br i s =
     (let ew = ep_workers s ! i in
      case br of
        OnTicker \<Rightarrow>
          if \<not> ew_ticking ew then Blocked
          else if MaxTickerCount < ew_tickerCount ew then
            (if ew_LifeCycleState ew = LifeCycleStateSock then Next (Internal, put_worker i (ew\<lparr>ew_pc := Draining False\<rparr>) s)
             else Next (Internal, put_worker i (ew\<lparr>ew_pc := Draining True\<rparr>) (delWorkerByUUID i s)))
          else Next (Internal, put_worker i (ew\<lparr>ew_tickerCount := ew_tickerCount ew + 1\<rparr>) s)
      | OnIncoming \<Rightarrow>
          (case ew_incoming ew of
             [] \<Rightarrow> Blocked
           | e # es \<Rightarrow> Next (Internal, put_worker i (ew_receive c e (ew\<lparr>ew_incoming := es\<rparr>)) s))
      | OnCloseChan \<Rightarrow>
          if ew_closeChan ew = Some True
          then Next (Internal, put_worker i (ew\<lparr>ew_pc := Draining True\<rparr>) (delWorkerByUUID i s)) else Blocked)"

definition worker_step :: "'p IParser \<Rightarrow> ep_config \<Rightarrow> run_branch \<Rightarrow> nat \<Rightarrow> 'p eventProcessor \<Rightarrow> 'p ep_result" where
  "worker_step P c br i s =
     (if length (ep_workers s) \<le> i then Blocked
      else let ew = ep_workers s ! i in
        case ew_pc ew of
          Running \<Rightarrow> run_select c br i s
        | Draining leave \<Rightarrow>
            (case ew_incoming ew of
               [] \<Rightarrow> Next (Internal, put_worker i (ew\<lparr>ew_pc := Checking leave\<rparr>) s)
             | e # es \<Rightarrow> Next (Internal, put_worker i (ew_writeEvent c e (ew\<lparr>ew_incoming := es\<rparr>)) s))
        | Checking leave \<Rightarrow>
            Next (Internal, put_worker i (ew\<lparr>ew_pc := if ew_used ew then Draining leave else Closing leave\<rparr>) s)
        | Closing leave \<Rightarrow>
            (case ew_Close P c ew of
               None \<Rightarrow> Panic
             | Some (ew', out) \<Rightarrow> Next (Internal, writeToChan out (put_worker i (ew_after_drain leave ew') s)))
        | Finished \<Rightarrow> Blocked)"

subsection \<open>Callers\<close>

text \<open>A call that returns at its test of \<open>isClosed\<close> is no step; a send picks one of the waiting calls.\<close>

datatype call = Call_Write IEventStruct | Send_Write nat | Call_WriteDestroyConn u64 | Send_WriteDestroyConn nat
  | Call_Close | Read_ErrorChan

definition remove_at :: "nat \<Rightarrow> 'a list \<Rightarrow> 'a list" where
  "remove_at k xs = take k xs @ drop (Suc k) xs"

definition call_step :: "call \<Rightarrow> 'p eventProcessor \<Rightarrow> 'p ep_result" where
  "call_step f s =
     (case f of
        Call_Write e \<Rightarrow>
          if ep_isClosed s then Blocked else Next (Internal, s\<lparr>ep_writers := ep_writers s @ [e]\<rparr>)
      | Send_Write k \<Rightarrow>
          if length (ep_writers s) \<le> k then Blocked
          else let e = ep_writers s ! k; s = s\<lparr>ep_writers := remove_at k (ep_writers s)\<rparr> in
            if length (ep_incoming s) < MaxIncomingChanLen then Next (Internal, s\<lparr>ep_incoming := ep_incoming s @ [e]\<rparr>)
            else Next (Internal, s)
      | Call_WriteDestroyConn d \<Rightarrow>
          if ep_isClosed s then Blocked else Next (Internal, s\<lparr>ep_destroyers := ep_destroyers s @ [d]\<rparr>)
      | Send_WriteDestroyConn k \<Rightarrow>
          if length (ep_destroyers s) \<le> k \<or> MaxIncomingChanLen \<le> length (ep_destroyConn s) then Blocked
          else Next (Internal, s\<lparr>ep_destroyConn := ep_destroyConn s @ [ep_destroyers s ! k],
                                ep_destroyers := remove_at k (ep_destroyers s)\<rparr>)
      | Call_Close \<Rightarrow> if ep_isClosed s then Blocked else Next (Internal, s\<lparr>ep_isClosed := True\<rparr>)
      | Read_ErrorChan \<Rightarrow>
          (case ep_errChan s of [] \<Rightarrow> Blocked | _ # es \<Rightarrow> Next (Internal, s\<lparr>ep_errChan := es\<rparr>)))"

subsection \<open>Runs\<close>

datatype turn = Serve branch | Worker nat run_branch | Caller call

definition take_turn :: "'p IParser \<Rightarrow> ep_config \<Rightarrow> turn \<Rightarrow> 'p eventProcessor \<Rightarrow> 'p ep_result" where
  "take_turn P c t s =
     (if ep_panic s then Blocked
      else case t of
             Serve br \<Rightarrow> serve_step br s
           | Worker i br \<Rightarrow> worker_step P c br i s
           | Caller f \<Rightarrow> call_step f s)"

inductive ep_step :: "'p IParser \<Rightarrow> ep_config \<Rightarrow> turn \<Rightarrow> action \<Rightarrow> 'p eventProcessor \<Rightarrow> 'p eventProcessor \<Rightarrow> bool"
  for P c where
  moves: "take_turn P c t s = Next (a, s') \<Longrightarrow> ep_step P c t a s s'"
| panics: "take_turn P c t s = Panic \<Longrightarrow> ep_step P c t Internal s (s\<lparr>ep_panic := True\<rparr>)"

inductive ep_trace :: "'p IParser \<Rightarrow> ep_config \<Rightarrow> action list \<Rightarrow> 'p eventProcessor \<Rightarrow> bool" for P c where
  start: "ep_trace P c [] NewEventProcessor"
| step: "ep_trace P c tr s \<Longrightarrow> ep_step P c t a s s' \<Longrightarrow> ep_trace P c (tr @ [a]) s'"

definition ep_moves :: "'p IParser \<Rightarrow> ep_config \<Rightarrow> 'p eventProcessor \<Rightarrow> 'p eventProcessor \<Rightarrow> bool" where
  "ep_moves P c s s' \<longleftrightarrow> (\<exists>t a. ep_step P c t a s s')"

inductive_cases ep_stepE: "ep_step P c t a s s'"

text \<open>The run of a schedule, for concrete executions.\<close>

fun run_schedule :: "'p IParser \<Rightarrow> ep_config \<Rightarrow> turn list \<Rightarrow> 'p eventProcessor \<Rightarrow> (action list \<times> 'p eventProcessor) option" where
  "run_schedule P c [] s = Some ([], s)"
| "run_schedule P c (t # ts) s =
     (case take_turn P c t s of
        Next (a, s') \<Rightarrow> map_option (\<lambda>(as, s''). (a # as, s'')) (run_schedule P c ts s')
      | _ \<Rightarrow> None)"

lemma run_schedule_trace:
  "ep_trace P c tr s \<Longrightarrow> run_schedule P c ts s = Some (as, s') \<Longrightarrow> ep_trace P c (tr @ as) s'"
proof (induction ts arbitrary: tr s as)
  case (Cons t ts)
  then obtain a s1 as' where "take_turn P c t s = Next (a, s1)" "run_schedule P c ts s1 = Some (as', s')" "as = a # as'"
    by (auto split: go_outcome.splits)
  with Cons show ?case using ep_trace.step [OF Cons.prems(1) ep_step.moves] by fastforce
qed simp

end
