(* ===== verification/Event_Delivery.thy ===== *)
theory Event_Delivery
  imports Event_Processor
begin

text \<open>
  What holds of every run of the event processor: the invariant that ties the queue, the \<open>used\<close> flags and
  the position of \<open>Serve\<close> together, so that no panic is ever reached, and the workers of a socket that outlive it.
\<close>

section \<open>The invariant\<close>

fun holder :: "serve_pc \<Rightarrow> nat option" where
  "holder (WriteWorker e i) = Some i"
| "holder (PutWorker i err) = Some i"
| "holder _ = None"

fun adding :: "serve_pc \<Rightarrow> nat option" where
  "adding (AddWorker e i) = Some i"
| "adding _ = None"

definition worker_ok :: "'p eventProcessor \<Rightarrow> nat \<Rightarrow> bool" where
  "worker_ok s i \<longleftrightarrow> (let ew = ep_workers s ! i in
     ew_ok ew \<and> ew_used ew = (holder (ep_serve s) = Some i) \<and>
     (\<not> leaves (ew_pc ew) \<longrightarrow> map_of (ep_workerQueue s) (ew_UUID ew) = Some i \<or> adding (ep_serve s) = Some i))"

definition queue_ok :: "'p eventProcessor \<Rightarrow> bool" where
  "queue_ok s \<longleftrightarrow> distinct (map fst (ep_workerQueue s)) \<and>
     (\<forall>u i. map_of (ep_workerQueue s) u = Some i \<longrightarrow> i < length (ep_workers s) \<and> ew_UUID (ep_workers s ! i) = u)"

definition serve_ok :: "'p eventProcessor \<Rightarrow> bool" where
  "serve_ok s \<longleftrightarrow> (case ep_serve s of
       Select \<Rightarrow> True
     | GetWorker e \<Rightarrow> True
     | NewWorker e \<Rightarrow> map_of (ep_workerQueue s) (GetUUID e) = None
     | AddWorker e i \<Rightarrow> i < length (ep_workers s) \<and> ew_UUID (ep_workers s ! i) = GetUUID e \<and>
                       map_of (ep_workerQueue s) (GetUUID e) = None
     | WriteWorker e i \<Rightarrow> i < length (ep_workers s)
     | PutWorker i err \<Rightarrow> i < length (ep_workers s)
     | WaitWorkers \<Rightarrow> ep_draining s \<and> (\<forall>i < length (ep_workers s). \<not> ew_open (ep_workers s ! i))
     | FlushOut \<Rightarrow> ep_draining s \<and> (\<forall>i < length (ep_workers s). ew_pc (ep_workers s ! i) = Finished)
     | Returned \<Rightarrow> ep_draining s \<and> ep_outComing s = [] \<and>
                  (\<forall>i < length (ep_workers s). ew_pc (ep_workers s ! i) = Finished))"

definition channels_ok :: "'p eventProcessor \<Rightarrow> bool" where
  "channels_ok s \<longleftrightarrow> length (ep_incoming s) \<le> MaxIncomingChanLen \<and> length (ep_outComing s) \<le> MaxIncomingChanLen \<and>
     length (ep_destroyConn s) \<le> MaxIncomingChanLen \<and> length (ep_errChan s) \<le> errChanLen"

definition ep_ok :: "'p eventProcessor \<Rightarrow> bool" where
  "ep_ok s \<longleftrightarrow> \<not> ep_panic s \<and> (\<forall>i < length (ep_workers s). worker_ok s i) \<and> queue_ok s \<and> serve_ok s \<and>
     (ep_draining s \<longrightarrow> ep_isClosed s) \<and> channels_ok s"

lemmas ep_ok_defs = ep_ok_def worker_ok_def queue_ok_def serve_ok_def channels_ok_def Let_def

lemma put_worker_sel [simp]:
  "ep_workers (put_worker i ew s) = (ep_workers s)[i := ew]" "ep_serve (put_worker i ew s) = ep_serve s"
  "ep_workerQueue (put_worker i ew s) = ep_workerQueue s" "ep_panic (put_worker i ew s) = ep_panic s"
  "ep_draining (put_worker i ew s) = ep_draining s" "ep_isClosed (put_worker i ew s) = ep_isClosed s"
  "ep_incoming (put_worker i ew s) = ep_incoming s" "ep_outComing (put_worker i ew s) = ep_outComing s"
  "ep_destroyConn (put_worker i ew s) = ep_destroyConn s" "ep_errChan (put_worker i ew s) = ep_errChan s"
  "ep_writers (put_worker i ew s) = ep_writers s" "ep_destroyers (put_worker i ew s) = ep_destroyers s"
  by (simp_all add: put_worker_def)

lemma delWorkerByUUID_sel [simp]:
  "ep_workers (delWorkerByUUID i s) = ep_workers s" "ep_serve (delWorkerByUUID i s) = ep_serve s"
  "ep_workerQueue (delWorkerByUUID i s) = AList.delete (ew_UUID (ep_workers s ! i)) (ep_workerQueue s)"
  "ep_panic (delWorkerByUUID i s) = ep_panic s" "ep_draining (delWorkerByUUID i s) = ep_draining s"
  "ep_isClosed (delWorkerByUUID i s) = ep_isClosed s" "ep_incoming (delWorkerByUUID i s) = ep_incoming s"
  "ep_outComing (delWorkerByUUID i s) = ep_outComing s" "ep_destroyConn (delWorkerByUUID i s) = ep_destroyConn s"
  "ep_errChan (delWorkerByUUID i s) = ep_errChan s" "ep_writers (delWorkerByUUID i s) = ep_writers s"
  "ep_destroyers (delWorkerByUUID i s) = ep_destroyers s"
  by (simp_all add: delWorkerByUUID_def)

text \<open>A worker changes itself and stays registered, or was leaving anyway.\<close>

definition keeps :: "'p eventWorker \<Rightarrow> 'p eventWorker \<Rightarrow> bool" where
  "keeps ew ew' \<longleftrightarrow> ew_ok ew' \<and> ew_UUID ew' = ew_UUID ew \<and> (leaves (ew_pc ew) \<longrightarrow> leaves (ew_pc ew')) \<and>
     (\<not> leaves (ew_pc ew') \<longrightarrow> \<not> leaves (ew_pc ew)) \<and> (ew_open ew' \<longrightarrow> ew_open ew) \<and>
     (ew_pc ew = Finished \<longrightarrow> ew_pc ew' = Finished)"

lemma put_worker_ok:
  assumes "ep_ok s" "i < length (ep_workers s)" "keeps (ep_workers s ! i) ew" "ew_used ew = ew_used (ep_workers s ! i)"
  shows "ep_ok (put_worker i ew s)"
  unfolding ep_ok_def
proof (intro conjI allI impI)
  fix j assume "j < length (ep_workers (put_worker i ew s))"
  then show "worker_ok (put_worker i ew s) j"
    using assms by (cases "j = i") (auto simp: ep_ok_def worker_ok_def keeps_def Let_def)
next
  show "queue_ok (put_worker i ew s)"
    using assms by (auto simp: ep_ok_def queue_ok_def keeps_def nth_list_update)
next
  show "serve_ok (put_worker i ew s)"
    using assms by (auto simp: ep_ok_def serve_ok_def keeps_def nth_list_update split: serve_pc.splits)
qed (use assms in \<open>auto simp: ep_ok_def channels_ok_def\<close>)

lemma leave_ok:
  assumes ok: "ep_ok s" and i: "i < length (ep_workers s)" and run: "ew_pc (ep_workers s ! i) = Running"
    and ok': "ew_ok ((ep_workers s ! i)\<lparr>ew_pc := Draining True\<rparr>)"
  shows "ep_ok (put_worker i ((ep_workers s ! i)\<lparr>ew_pc := Draining True\<rparr>) (delWorkerByUUID i s))"
    (is "ep_ok (put_worker i ?w ?s)")
  unfolding ep_ok_def
proof (intro conjI allI impI)
  have reg: "map_of (ep_workerQueue s) (ew_UUID (ep_workers s ! i)) = Some i \<or> adding (ep_serve s) = Some i"
    using ok i run by (auto simp: ep_ok_def worker_ok_def Let_def)
  have add: "map_of (ep_workerQueue s) (ew_UUID (ep_workers s ! i)) = None" if "adding (ep_serve s) = Some i"
    using ok that by (cases "ep_serve s") (auto simp: ep_ok_def serve_ok_def)
  fix j assume "j < length (ep_workers (put_worker i ?w ?s))"
  then show "worker_ok (put_worker i ?w ?s) j"
    using ok i ok' reg add
    by (cases "j = i") (auto simp: ep_ok_def worker_ok_def Let_def AList.delete_conv')
next
  show "queue_ok (put_worker i ?w ?s)"
    using ok i by (auto simp: ep_ok_def queue_ok_def nth_list_update AList.delete_conv' distinct_delete split: if_splits)
next
  show "serve_ok (put_worker i ?w ?s)"
    using ok i run
    by (auto simp: ep_ok_def serve_ok_def nth_list_update AList.delete_conv' ew_open_def split: serve_pc.splits)
qed (use ok in \<open>auto simp: ep_ok_def channels_ok_def\<close>)

lemma writeToChan_ok: "ep_ok s \<Longrightarrow> ep_serve s \<noteq> Returned \<Longrightarrow> ep_ok (writeToChan out s)"
  by (auto simp: writeToChan_def ep_ok_defs split: option.splits serve_pc.splits)

lemma writeToChan_sel [simp]:
  "ep_workers (writeToChan out s) = ep_workers s" "ep_serve (writeToChan out s) = ep_serve s"
  "ep_incoming (writeToChan out s) = ep_incoming s" "ep_writers (writeToChan out s) = ep_writers s"
  "ep_destroyConn (writeToChan out s) = ep_destroyConn s" "ep_destroyers (writeToChan out s) = ep_destroyers s"
  "ep_draining (writeToChan out s) = ep_draining s" "ep_isClosed (writeToChan out s) = ep_isClosed s"
  "ep_errChan (writeToChan out s) = ep_errChan s" "ep_panic (writeToChan out s) = ep_panic s"
  by (auto simp: writeToChan_def split: option.splits)

subsection \<open>Workers keep it\<close>

lemma ep_ok_worker: "ep_ok s \<Longrightarrow> i < length (ep_workers s) \<Longrightarrow> ew_ok (ep_workers s ! i)"
  by (simp add: ep_ok_def worker_ok_def Let_def)

lemma keeps_pc:
  assumes "ew_ok ew" "ew_ok (ew\<lparr>ew_pc := pc\<rparr>)" "leaves pc = leaves (ew_pc ew)" "ew_pc ew \<noteq> Finished"
  shows "keeps ew (ew\<lparr>ew_pc := pc\<rparr>)"
  using assms by (simp add: keeps_def ew_open_def)

lemma run_select_ok:
  assumes ok: "ep_ok s" and i: "i < length (ep_workers s)" and run: "ew_pc (ep_workers s ! i) = Running"
    and step: "run_select c br i s = Next (a, s')"
  shows "ep_ok s'"
proof -
  let ?ew = "ep_workers s ! i"
  have w: "ew_ok ?ew" using ok i by (rule ep_ok_worker)
  consider (tick) "br = OnTicker" "\<not> MaxTickerCount < ew_tickerCount ?ew" "s' = put_worker i (?ew\<lparr>ew_tickerCount := ew_tickerCount ?ew + 1\<rparr>) s"
    | (sock) "ew_ticking ?ew" "ew_LifeCycleState ?ew = LifeCycleStateSock" "s' = put_worker i (?ew\<lparr>ew_pc := Draining False\<rparr>) s"
    | (idle) "ew_LifeCycleState ?ew = LifeCycleStateDefault" "s' = put_worker i (?ew\<lparr>ew_pc := Draining True\<rparr>) (delWorkerByUUID i s)"
    | (recv) e es where "ew_incoming ?ew = e # es" "s' = put_worker i (ew_receive c e (?ew\<lparr>ew_incoming := es\<rparr>)) s"
    | (closed) "ew_closeChan ?ew = Some True" "s' = put_worker i (?ew\<lparr>ew_pc := Draining True\<rparr>) (delWorkerByUUID i s)"
    using step by (cases br; cases "ew_LifeCycleState ?ew") (auto simp: run_select_def Let_def split: if_splits list.splits)
  then show ?thesis
  proof cases
    case tick
    have "ew_tickerCount ?ew + 1 \<le> MaxTickerCount + 1"
      using tick(2) by (simp add: MaxTickerCount_def word_le_nat_alt word_less_nat_alt unat_word_ariths)
    with tick w show ?thesis
      by (auto intro!: put_worker_ok [OF ok i] simp: keeps_def ew_ok_def ew_open_def)
  next
    case sock
    with w run show ?thesis by (auto intro!: put_worker_ok [OF ok i] keeps_pc simp: ew_ok_def)
  next
    case idle
    with w run show ?thesis by (auto intro!: leave_ok [OF ok i run] simp: ew_ok_def)
  next
    case recv
    have "ew_ok (?ew\<lparr>ew_incoming := es\<rparr>)" using w recv(1) by (simp add: ew_ok_def)
    with recv(2) run show ?thesis
      by (auto intro!: put_worker_ok [OF ok i] ew_receive_ok simp: keeps_def ew_open_def)
  next
    case closed
    with w run show ?thesis by (auto intro!: leave_ok [OF ok i run] simp: ew_ok_def)
  qed
qed

lemma worker_step_ok:
  assumes ok: "ep_ok s" and step: "worker_step P c br i s = Next (a, s')"
  shows "ep_ok s'"
proof -
  let ?ew = "ep_workers s ! i"
  from step have i: "i < length (ep_workers s)" by (auto simp: worker_step_def split: if_splits)
  have w: "ew_ok ?ew" using ok i by (rule ep_ok_worker)
  show ?thesis
  proof (cases "ew_pc ?ew")
    case Running
    with step i show ?thesis using run_select_ok [OF ok i Running] by (simp add: worker_step_def Let_def)
  next
    case (Draining leave)
    show ?thesis
    proof (cases "ew_incoming ?ew")
      case Nil
      with step i w Draining show ?thesis
        by (auto simp: worker_step_def Let_def ew_ok_def intro!: put_worker_ok [OF ok i] keeps_pc)
    next
      case (Cons e es)
      have "ew_ok (?ew\<lparr>ew_incoming := es\<rparr>)" using w Cons by (simp add: ew_ok_def)
      with step i Draining Cons show ?thesis
        by (auto simp: worker_step_def Let_def keeps_def ew_open_def intro!: put_worker_ok [OF ok i] ew_writeEvent_ok)
    qed
  next
    case (Checking leave)
    with step i w show ?thesis
      by (cases "ew_used ?ew") (auto simp: worker_step_def Let_def ew_ok_def intro!: put_worker_ok [OF ok i] keeps_pc)
  next
    case (Closing leave)
    obtain ew' out where close: "ew_Close P c ?ew = Some (ew', out)" using ew_Close_returns [OF w] by blast
    have busy: "ep_serve s \<noteq> Returned"
      using ok i Closing by (auto simp: ep_ok_def serve_ok_def)
    have "keeps ?ew (ew_after_drain leave ew')"
      using Closing ew_after_drain_ok [OF w Closing close] ew_Close_sel [OF close] by (simp add: keeps_def ew_open_def)
    then have "ep_ok (put_worker i (ew_after_drain leave ew') s)"
      using ew_Close_sel(3) [OF close] by (auto intro: put_worker_ok [OF ok i])
    with step i Closing close busy show ?thesis by (auto simp: worker_step_def Let_def intro: writeToChan_ok)
  next
    case Finished
    with step i show ?thesis by (simp add: worker_step_def Let_def)
  qed
qed

lemma worker_step_no_panic:
  assumes "ep_ok s"
  shows "worker_step P c br i s \<noteq> Panic"
proof (cases "i < length (ep_workers s)")
  case True
  obtain ew' out where "ew_Close P c (ep_workers s ! i) = Some (ew', out)"
    using ew_Close_returns [OF ep_ok_worker [OF assms True]] by blast
  with True show ?thesis
    by (cases "ew_pc (ep_workers s ! i)"; cases br)
      (auto simp: worker_step_def run_select_def Let_def split: list.splits)
qed (simp add: worker_step_def)

subsection \<open>Serve and its callers keep it\<close>

lemma ep_ok_frame:
  assumes "ep_ok s" "ep_workers s' = ep_workers s" "ep_workerQueue s' = ep_workerQueue s" "ep_panic s' = ep_panic s"
    "holder (ep_serve s') = holder (ep_serve s)" "adding (ep_serve s') = adding (ep_serve s)"
    "ep_draining s' \<longrightarrow> ep_isClosed s'" "channels_ok s'" "serve_ok s'"
  shows "ep_ok s'"
proof -
  have "worker_ok s' = worker_ok s" "queue_ok s' = queue_ok s"
    using assms(2-6) by (simp_all add: worker_ok_def queue_ok_def fun_eq_iff)
  with assms show ?thesis by (simp add: ep_ok_def)
qed

lemma take_incoming_ok:
  assumes "ep_ok s" "ep_serve s = Select" "take_incoming s = Next (a, s')"
  shows "ep_ok s'"
proof (rule ep_ok_frame [OF assms(1)])
  show "serve_ok s'" "channels_ok s'"
    using assms by (auto simp: take_incoming_def serve_ok_def ep_ok_def channels_ok_def split: list.splits)
qed (use assms in \<open>auto simp: take_incoming_def ep_ok_def split: list.splits\<close>)

lemma take_outComing_ok:
  assumes "ep_ok s" "take_outComing s = Next (a, s')"
  shows "ep_ok s'"
proof (rule ep_ok_frame [OF assms(1)])
  show "serve_ok s'" "channels_ok s'"
    using assms by (auto simp: take_outComing_def serve_ok_def ep_ok_def channels_ok_def split: list.splits serve_pc.splits)
qed (use assms in \<open>auto simp: take_outComing_def ep_ok_def split: list.splits\<close>)

lemma keeps_CloseEventWorker: "ew_ok ew \<Longrightarrow> keeps ew (CloseEventWorker ew)"
  by (simp add: keeps_def CloseEventWorker_ok)

lemma close_worker_ok:
  assumes "ep_ok s" "map_of (ep_workerQueue s) u = Some i"
  shows "ep_ok (put_worker i (CloseEventWorker (ep_workers s ! i)) s)"
proof (rule put_worker_ok)
  show i: "i < length (ep_workers s)" using assms by (auto simp: ep_ok_def queue_ok_def)
  show "keeps (ep_workers s ! i) (CloseEventWorker (ep_workers s ! i))"
    using assms(1) i by (intro keeps_CloseEventWorker ep_ok_worker)
qed (use assms in simp_all)

lemma destroyWorkers_ok:
  assumes "ep_ok s" "mset entries = mset (ep_workerQueue s)"
  shows "ep_ok (destroyWorkers entries d s)"
proof (cases "find (\<lambda>(_, i). d = ew_DestroyUUID (ep_workers s ! i)) entries")
  case (Some p)
  obtain u i where p: "p = (u, i)" by (cases p)
  have "(u, i) \<in> set (ep_workerQueue s)"
    using Some p assms(2) by (metis find_Some_iff nth_mem set_mset_mset)
  then have "map_of (ep_workerQueue s) u = Some i"
    using assms(1) by (simp add: ep_ok_def queue_ok_def)
  from close_worker_ok [OF assms(1) this] assms(1) Some p show ?thesis by (simp add: destroyWorkers_def)
qed (use assms in \<open>simp add: destroyWorkers_def\<close>)

lemma ew_open_stays: "ew_ok ew \<Longrightarrow> ew_open ew \<Longrightarrow> \<not> leaves (ew_pc ew)"
  by (cases "ew_LifeCycleState ew") (simp_all add: ew_ok_def ew_open_def)

lemma fold_close_sel:
  "let s' = fold (\<lambda>(_, i) s. put_worker i (CloseEventWorker (ep_workers s ! i)) s) es s in
     ep_serve s' = ep_serve s \<and> ep_workerQueue s' = ep_workerQueue s \<and> ep_panic s' = ep_panic s \<and>
     ep_draining s' = ep_draining s \<and> ep_isClosed s' = ep_isClosed s \<and> ep_incoming s' = ep_incoming s \<and>
     ep_outComing s' = ep_outComing s \<and> ep_destroyConn s' = ep_destroyConn s \<and> ep_errChan s' = ep_errChan s \<and>
     ep_writers s' = ep_writers s \<and> ep_destroyers s' = ep_destroyers s \<and>
     length (ep_workers s') = length (ep_workers s)"
  by (induction es arbitrary: s) (simp_all add: Let_def case_prod_beta)

lemma CloseEventWorker_idem [simp]: "CloseEventWorker (CloseEventWorker ew) = CloseEventWorker ew"
  by (cases "ew_closeChan ew") (simp_all add: CloseEventWorker_def)

lemma fold_close_workers:
  assumes "\<forall>(u, i) \<in> set es. i < length (ep_workers s)" "j < length (ep_workers s)"
  shows "ep_workers (fold (\<lambda>(_, i) s. put_worker i (CloseEventWorker (ep_workers s ! i)) s) es s) ! j =
    (if j \<in> snd ` set es then CloseEventWorker (ep_workers s ! j) else ep_workers s ! j)"
  using assms
proof (induction es arbitrary: s)
  case (Cons p es)
  then show ?case by (cases p) (auto simp: nth_list_update)
qed simp

lemmas signalWorkers_sel [simp] =
  fold_close_sel [of "ep_workerQueue s" s for s, unfolded Let_def, folded signalWorkers_def]

lemma signalWorkers_nth:
  assumes "queue_ok s" "j < length (ep_workers s)"
  shows "ep_workers (signalWorkers s) ! j =
    (if j \<in> snd ` set (ep_workerQueue s) then CloseEventWorker (ep_workers s ! j) else ep_workers s ! j)"
  unfolding signalWorkers_def
  by (rule fold_close_workers) (use assms in \<open>auto simp: queue_ok_def dest: map_of_is_SomeI\<close>)

lemma signalWorkers_ok:
  assumes ok: "ep_ok s" and at: "ep_serve s = Select" and drain: "ep_draining s"
  shows "ep_ok (signalWorkers (s\<lparr>ep_serve := WaitWorkers\<rparr>))" (is "ep_ok (signalWorkers ?s)")
proof -
  have q: "queue_ok ?s" using ok by (simp add: ep_ok_def queue_ok_def)
  have nth: "ep_workers (signalWorkers ?s) ! j =
      (if j \<in> snd ` set (ep_workerQueue s) then CloseEventWorker (ep_workers s ! j) else ep_workers s ! j)"
    if "j < length (ep_workers s)" for j
    using signalWorkers_nth [OF q, of j] that by simp
  have shut: "\<not> ew_open (ep_workers (signalWorkers ?s) ! j)" if j: "j < length (ep_workers s)" for j
  proof (cases "leaves (ew_pc (ep_workers s ! j))")
    case True
    with ep_ok_worker [OF ok j] ew_open_stays show ?thesis by (auto simp: nth [OF j])
  next
    case False
    with ok j at have "map_of (ep_workerQueue s) (ew_UUID (ep_workers s ! j)) = Some j"
      by (simp add: ep_ok_def worker_ok_def Let_def)
    then have "j \<in> snd ` set (ep_workerQueue s)" by (force dest: map_of_SomeD)
    then show ?thesis by (simp add: nth [OF j])
  qed
  have "worker_ok (signalWorkers ?s) j" if j: "j < length (ep_workers s)" for j
    using ok at j CloseEventWorker_ok [OF ep_ok_worker [OF ok j]] by (auto simp: ep_ok_def worker_ok_def nth [OF j] Let_def)
  with ok shut drain show ?thesis
    by (auto simp: ep_ok_def queue_ok_def serve_ok_def channels_ok_def nth)
qed

lemma serve_select_ok:
  assumes "ep_ok s" "ep_serve s = Select" "\<not> ep_draining s" "serve_select br s = Next (a, s')"
  shows "ep_ok s'"
proof (cases br)
  case FromIncoming
  with assms show ?thesis by (auto simp: serve_select_def intro: take_incoming_ok)
next
  case (FromDestroyConn entries)
  then obtain d ds where d: "ep_destroyConn s = d # ds" "mset entries = mset (ep_workerQueue s)"
    "s' = destroyWorkers entries d (s\<lparr>ep_destroyConn := ds\<rparr>)"
    using assms(4) by (auto simp: serve_select_def split: list.splits if_splits)
  have "ep_ok (s\<lparr>ep_destroyConn := ds\<rparr>)"
    by (rule ep_ok_frame [OF assms(1)])
      (use assms d in \<open>auto simp: ep_ok_def serve_ok_def channels_ok_def\<close>)
  then show ?thesis unfolding d(3) by (rule destroyWorkers_ok) (simp add: d(2))
next
  case FromOutComing
  with assms show ?thesis by (auto simp: serve_select_def intro: take_outComing_ok)
next
  case FromCloseChan
  then have s': "s' = s\<lparr>ep_draining := True\<rparr>" "ep_isClosed s"
    using assms(4) by (auto simp: serve_select_def split: if_splits)
  show ?thesis unfolding s'(1)
    by (rule ep_ok_frame [OF assms(1)]) (use assms(1,2) s'(2) in \<open>auto simp: ep_ok_def serve_ok_def channels_ok_def\<close>)
qed (use assms in \<open>simp add: serve_select_def\<close>)

lemma drain_select_ok:
  "ep_ok s \<Longrightarrow> ep_serve s = Select \<Longrightarrow> ep_draining s \<Longrightarrow> drain_select br s = Next (a, s') \<Longrightarrow> ep_ok s'"
  by (auto simp: drain_select_def intro: take_incoming_ok signalWorkers_ok split: branch.splits if_splits)

lemma wait_select_ok:
  assumes "ep_ok s" "ep_serve s = WaitWorkers" "wait_select br s = Next (a, s')"
  shows "ep_ok s'"
proof (cases "br = FromOutComing")
  case False
  with assms(3) have s': "s' = s\<lparr>ep_serve := FlushOut\<rparr>" "list_all (\<lambda>ew. ew_pc ew = Finished) (ep_workers s)"
    by (auto simp: wait_select_def split: branch.splits if_splits)
  show ?thesis unfolding s'(1)
    by (rule ep_ok_frame [OF assms(1)])
      (use assms(1,2) s'(2) in \<open>auto simp: ep_ok_def serve_ok_def channels_ok_def list_all_length\<close>)
qed (use assms in \<open>auto simp: wait_select_def intro: take_outComing_ok\<close>)

lemma flush_select_ok:
  assumes "ep_ok s" "ep_serve s = FlushOut" "flush_select br s = Next (a, s')"
  shows "ep_ok s'"
proof (cases "br = FromOutComing")
  case False
  with assms(3) have s': "s' = s\<lparr>ep_serve := Returned\<rparr>" "ep_outComing s = []"
    by (auto simp: flush_select_def split: branch.splits if_splits)
  show ?thesis unfolding s'(1)
    by (rule ep_ok_frame [OF assms(1)])
      (use assms(1,2) s'(2) in \<open>auto simp: ep_ok_def serve_ok_def channels_ok_def\<close>)
qed (use assms in \<open>auto simp: flush_select_def intro: take_outComing_ok\<close>)

lemma dispatch_get_ok:
  assumes ok: "ep_ok s" and at: "ep_serve s = GetWorker e"
  shows "\<exists>a s'. serve_step br s = Next (a, s') \<and> ep_ok s'"
proof (cases "map_of (ep_workerQueue s) (GetUUID e)")
  case None
  have "ep_ok (s\<lparr>ep_serve := NewWorker e\<rparr>)"
    by (rule ep_ok_frame [OF ok]) (use ok at None in \<open>auto simp: ep_ok_def serve_ok_def channels_ok_def\<close>)
  with None at show ?thesis by (simp add: serve_step_def getWorkerByUUID_def)
next
  case (Some i)
  let ?s = "s\<lparr>ep_workers := (ep_workers s)[i := (ep_workers s ! i)\<lparr>ew_used := True\<rparr>], ep_serve := WriteWorker e i\<rparr>"
  have i: "i < length (ep_workers s)" using ok Some by (auto simp: ep_ok_def queue_ok_def)
  have free: "\<not> ew_used (ep_workers s ! i)" using ok i at by (simp add: ep_ok_def worker_ok_def Let_def)
  have "worker_ok ?s j" if "j < length (ep_workers s)" for j
    using ok i at that by (cases "j = i") (auto simp: ep_ok_def worker_ok_def Let_def ew_ok_def)
  moreover have "queue_ok ?s" using ok i by (auto simp: ep_ok_def queue_ok_def nth_list_update)
  moreover have "serve_ok ?s" using i by (simp add: serve_ok_def)
  ultimately have "ep_ok ?s" using ok by (simp add: ep_ok_def channels_ok_def)
  with Some at free show ?thesis by (simp add: serve_step_def getWorkerByUUID_def ew_Get_def put_worker_def)
qed

lemma dispatch_new_ok:
  fixes s :: "'p eventProcessor"
  assumes ok: "ep_ok s" and at: "ep_serve s = NewWorker e"
  shows "\<exists>a s'. serve_step br s = Next (a, s') \<and> ep_ok s'"
proof -
  obtain ew :: "'p eventWorker" where ew: "ew_init (GetUUID e) = Some ew" using ew_init_returns by blast
  let ?s = "s\<lparr>ep_workers := ep_workers s @ [ew], ep_serve := AddWorker e (length (ep_workers s))\<rparr>"
  have "worker_ok ?s j" if "j < Suc (length (ep_workers s))" for j
    using ok at ew_init_ok [OF ew] that
    by (cases "j < length (ep_workers s)") (auto simp: ep_ok_def worker_ok_def Let_def nth_append less_Suc_eq)
  moreover have "queue_ok ?s" using ok by (auto simp: ep_ok_def queue_ok_def nth_append less_SucI)
  moreover have "serve_ok ?s" using ok at ew_init_ok [OF ew] by (simp add: ep_ok_def serve_ok_def)
  ultimately have "ep_ok ?s" using ok by (simp add: ep_ok_def channels_ok_def)
  with ew at show ?thesis by (simp add: serve_step_def NewEventWorker_def)
qed

lemma dispatch_add_ok:
  assumes ok: "ep_ok s" and at: "ep_serve s = AddWorker e i"
  shows "\<exists>a s'. serve_step br s = Next (a, s') \<and> ep_ok s'"
proof -
  have i: "i < length (ep_workers s)" and u: "ew_UUID (ep_workers s ! i) = GetUUID e"
    and new: "map_of (ep_workerQueue s) (GetUUID e) = None"
    using ok at by (auto simp: ep_ok_def serve_ok_def)
  let ?s = "s\<lparr>ep_workerQueue := AList.update (GetUUID e) i (ep_workerQueue s),
    ep_workers := (ep_workers s)[i := (ep_workers s ! i)\<lparr>ew_used := True\<rparr>], ep_serve := WriteWorker e i\<rparr>"
  have free: "\<not> ew_used (ep_workers s ! i)" using ok i at by (simp add: ep_ok_def worker_ok_def Let_def)
  have "worker_ok ?s j" if "j < length (ep_workers s)" for j
    using ok i at u new that
    by (cases "j = i") (auto simp: ep_ok_def worker_ok_def Let_def ew_ok_def AList.update_conv')
  moreover have "queue_ok ?s"
    using ok i u by (auto simp: ep_ok_def queue_ok_def nth_list_update AList.update_conv' distinct_update split: if_splits)
  moreover have "serve_ok ?s" using i by (simp add: serve_ok_def)
  ultimately have "ep_ok ?s" using ok by (simp add: ep_ok_def channels_ok_def)
  with at free u show ?thesis by (simp add: serve_step_def addWorkerByUUID_def ew_Get_def put_worker_def)
qed

lemma ew_Write_keeps:
  assumes "ew_ok ew"
  shows "keeps ew (fst (ew_Write e ew)) \<and> ew_used (fst (ew_Write e ew)) = ew_used ew"
proof (cases "length (ew_incoming ew) < MaxChanLen")
  case True
  with assms have "ew_ok (ew\<lparr>ew_incoming := ew_incoming ew @ [e]\<rparr>)" by (simp add: ew_ok_def)
  with True show ?thesis by (simp add: ew_Write_def keeps_def ew_open_def)
qed (use assms in \<open>simp add: ew_Write_def keeps_def\<close>)

lemma dispatch_write_ok:
  assumes ok: "ep_ok s" and at: "ep_serve s = WriteWorker e i"
  shows "\<exists>a s'. serve_step br s = Next (a, s') \<and> ep_ok s'"
proof -
  have i: "i < length (ep_workers s)" using ok at by (simp add: ep_ok_def serve_ok_def)
  obtain ew err where w: "ew_Write e (ep_workers s ! i) = (ew, err)" by fastforce
  have put: "ep_ok (put_worker i ew s)"
    using ew_Write_keeps [OF ep_ok_worker [OF ok i], of e] w by (intro put_worker_ok [OF ok i]) auto
  have "ep_ok ((put_worker i ew s)\<lparr>ep_serve := PutWorker i err\<rparr>)"
    by (rule ep_ok_frame [OF put]) (use put at i in \<open>auto simp: ep_ok_def serve_ok_def channels_ok_def\<close>)
  with at w show ?thesis by (simp add: serve_step_def Let_def)
qed

lemma report_error_sel [simp]:
  "ep_workers (report_error err s) = ep_workers s" "ep_serve (report_error err s) = ep_serve s"
  "ep_workerQueue (report_error err s) = ep_workerQueue s" "ep_panic (report_error err s) = ep_panic s"
  "ep_draining (report_error err s) = ep_draining s" "ep_isClosed (report_error err s) = ep_isClosed s"
  "ep_incoming (report_error err s) = ep_incoming s" "ep_outComing (report_error err s) = ep_outComing s"
  "ep_destroyConn (report_error err s) = ep_destroyConn s" "ep_writers (report_error err s) = ep_writers s"
  "ep_destroyers (report_error err s) = ep_destroyers s"
  by (auto simp: report_error_def split: option.splits)

lemma report_error_channels: "channels_ok s \<Longrightarrow> channels_ok (report_error err s)"
  by (auto simp: report_error_def channels_ok_def split: option.splits)

lemma dispatch_put_ok:
  assumes ok: "ep_ok s" and at: "ep_serve s = PutWorker i err"
  shows "\<exists>a s'. serve_step br s = Next (a, s') \<and> ep_ok s'"
proof -
  have i: "i < length (ep_workers s)" using ok at by (simp add: ep_ok_def serve_ok_def)
  let ?s = "s\<lparr>ep_workers := (ep_workers s)[i := (ep_workers s ! i)\<lparr>ew_used := False\<rparr>], ep_serve := Select\<rparr>"
  have held: "ew_used (ep_workers s ! i)" using ok i at by (simp add: ep_ok_def worker_ok_def Let_def)
  have "worker_ok ?s j" if "j < length (ep_workers s)" for j
    using ok i at that by (cases "j = i") (auto simp: ep_ok_def worker_ok_def Let_def ew_ok_def)
  moreover have "queue_ok ?s" using ok i by (auto simp: ep_ok_def queue_ok_def nth_list_update)
  moreover have "serve_ok ?s" by (simp add: serve_ok_def)
  ultimately have s: "ep_ok ?s" using ok by (simp add: ep_ok_def channels_ok_def)
  have "ep_ok (report_error err ?s)"
    by (rule ep_ok_frame [OF s]) (use s in \<open>auto simp: ep_ok_def serve_ok_def intro: report_error_channels\<close>)
  with at held show ?thesis by (simp add: serve_step_def ew_Put_def put_worker_def)
qed

lemma dispatch_ok:
  assumes "ep_ok s" "ep_serve s \<notin> {Select, WaitWorkers, FlushOut, Returned}"
  shows "\<exists>a s'. serve_step br s = Next (a, s') \<and> ep_ok s'"
  using assms
  by (cases "ep_serve s")
    (simp_all add: dispatch_get_ok dispatch_new_ok dispatch_add_ok dispatch_write_ok dispatch_put_ok)

lemma select_no_panic [simp]:
  "take_incoming s \<noteq> Panic" "take_outComing s \<noteq> Panic" "serve_select br s \<noteq> Panic" "drain_select br s \<noteq> Panic"
  "wait_select br s \<noteq> Panic" "flush_select br s \<noteq> Panic"
proof -
  show 1: "take_incoming s \<noteq> Panic" "take_outComing s \<noteq> Panic"
    by (simp_all add: take_incoming_def take_outComing_def split: list.splits)
  from 1 show "serve_select br s \<noteq> Panic" "drain_select br s \<noteq> Panic" "wait_select br s \<noteq> Panic" "flush_select br s \<noteq> Panic"
    by (simp_all add: serve_select_def drain_select_def wait_select_def flush_select_def split: branch.splits list.splits)
qed

lemma serve_step_ok:
  assumes "ep_ok s"
  shows "serve_step br s \<noteq> Panic \<and> (\<forall>a s'. serve_step br s = Next (a, s') \<longrightarrow> ep_ok s')"
proof (cases "ep_serve s \<in> {Select, WaitWorkers, FlushOut, Returned}")
  case True
  then show ?thesis
    using serve_select_ok [OF assms] drain_select_ok [OF assms] wait_select_ok [OF assms] flush_select_ok [OF assms]
    by (auto simp: serve_step_def)
next
  case False
  from dispatch_ok [OF assms False, of br] show ?thesis by auto
qed

lemma call_step_ok:
  assumes ok: "ep_ok s" and step: "call_step f s = Next (a, s')"
  shows "ep_ok s'"
proof (rule ep_ok_frame [OF ok])
  show "channels_ok s'"
    using ok step by (cases f) (auto simp: call_step_def ep_ok_def channels_ok_def Let_def split: if_splits list.splits)
  show "serve_ok s'"
    using ok step by (cases f; cases "ep_serve s")
      (auto simp: call_step_def ep_ok_def serve_ok_def Let_def split: if_splits list.splits)
  show "ep_draining s' \<longrightarrow> ep_isClosed s'"
    using ok step by (cases f) (auto simp: call_step_def ep_ok_def Let_def split: if_splits list.splits)
qed (use step in \<open>cases f; auto simp: call_step_def Let_def split: if_splits list.splits\<close>)+

lemma call_step_no_panic: "call_step f s \<noteq> Panic"
  by (cases f) (auto simp: call_step_def Let_def split: list.splits)

text \<open>The laws of the three kinds of goroutines, together: nothing panics and the invariant is kept.\<close>

lemma take_turn_ok:
  assumes "ep_ok s"
  shows "take_turn P c t s \<noteq> Panic \<and> (\<forall>a s'. take_turn P c t s = Next (a, s') \<longrightarrow> ep_ok s')"
proof -
  have "\<not> ep_panic s" using assms by (simp add: ep_ok_def)
  then show ?thesis
    using serve_step_ok [OF assms] worker_step_ok [OF assms] worker_step_no_panic [OF assms]
      call_step_ok [OF assms] call_step_no_panic [of _ s]
    by (cases t) (auto simp: take_turn_def)
qed

lemma ep_step_ok: "ep_step P c t a s s' \<Longrightarrow> ep_ok s \<Longrightarrow> ep_ok s'"
  using take_turn_ok by (blast elim: ep_stepE)

lemma ep_start_ok: "ep_ok NewEventProcessor"
  by (simp add: NewEventProcessor_def ep_ok_defs)

lemma ep_trace_ok: "ep_trace P c tr s \<Longrightarrow> ep_ok s"
  by (induction rule: ep_trace.induct) (auto intro: ep_start_ok ep_step_ok)

lemma ep_moves_turn:
  assumes "ep_ok s" "ep_moves P c s s'"
  obtains t a where "take_turn P c t s = Next (a, s')"
  using assms take_turn_ok [OF assms(1)] by (auto simp: ep_moves_def elim!: ep_stepE)

lemma ep_moves_ok: "ep_moves P c s s' \<Longrightarrow> ep_ok s \<Longrightarrow> ep_ok s'"
  by (auto simp: ep_moves_def intro: ep_step_ok)

section \<open>Concrete runs\<close>

text \<open>
  Runs of a processor in which only \<open>DefaultParser\<close> is registered, without hex dumps and truncation.
\<close>

definition plain_config :: ep_config where
  "plain_config = \<lparr>isHex = False, truncateSize = 0\<rparr>"

definition sample_event :: "string \<Rightarrow> string \<Rightarrow> IEventStruct" where
  "sample_event uuid text = \<lparr>GetUUID = uuid, Payload = string_bytes text,
     ev_Base = \<lparr>b_Timestamp = 0, b_UUID = uuid, b_PID = 7, b_PName = ''curl'', b_SrcIP = ''10.0.0.1'', b_SrcPort = 4000,
                b_DstIP = ''10.0.0.2'', b_DstPort = 443, b_Type = 0\<rparr>\<rparr>"

definition arrives :: "IEventStruct \<Rightarrow> turn list" where
  "arrives e = [Caller (Call_Write e), Caller (Send_Write 0), Serve FromIncoming]"

definition serve_on :: "nat \<Rightarrow> turn list" where
  "serve_on n = replicate n (Serve DefaultOrDone)"

definition ticks :: "nat \<Rightarrow> nat \<Rightarrow> turn list" where
  "ticks n i = replicate n (Worker i OnTicker)"

lemma run_schedule_ex:
  assumes "case run_schedule P c ts NewEventProcessor of None \<Rightarrow> False | Some (tr, s) \<Rightarrow> Q tr s"
  shows "\<exists>tr s. ep_trace P c tr s \<and> Q tr s"
  using assms run_schedule_trace [OF ep_trace.start, of P c ts] by (fastforce split: option.splits)

lemma first_event_run:
  "\<exists>tr s. ep_trace default_parsers plain_config tr s \<and> length (ep_workers s) = 1 \<and> ep_serve s = Select"
  by (rule run_schedule_ex [where ts = "arrives (sample_event ''7_7_curl_3'' ''GET '') @ serve_on 5 @ [Worker 0 OnIncoming]"])
    code_simp

text \<open>The two directions of one socket, each with its worker, and the end of the socket.\<close>

definition socket_schedule :: "turn list" where
  "socket_schedule = arrives (sample_event ''sock:7_7_curl_3_0_t_99'' ''GET '') @ serve_on 5
     @ arrives (sample_event ''sock:7_7_curl_3_1_t_99'' ''HTTP/1'') @ serve_on 5
     @ [Caller (Call_WriteDestroyConn 99), Caller (Send_WriteDestroyConn 0),
        Serve (FromDestroyConn [(''sock:7_7_curl_3_0_t_99'', 0), (''sock:7_7_curl_3_1_t_99'', 1)])]"

section \<open>Properties\<close>

text \<open>
  C19: No run of the event processor panics, whatever the interleaving of \<open>Serve\<close>, the workers and the
  callers, whatever the parsers and the events: the \<open>used\<close> flag of a worker is set exactly while \<open>Serve\<close>
  holds it between \<open>Get\<close> and \<open>Put\<close>, \<open>uuidParse\<close> never slices out of range, and \<open>Display\<close> never meets a
  missing event. A worker that has not begun to leave is the one the queue names for its UUID (or is about
  to be), and no channel exceeds its capacity.
\<close>

theorem processor_never_panics:
  assumes "ep_trace P c tr s"
  shows "\<not> ep_panic s \<and> (\<forall>t. take_turn P c t s \<noteq> Panic) \<and> channels_ok s \<and>
    (\<forall>i < length (ep_workers s). ew_used (ep_workers s ! i) = (holder (ep_serve s) = Some i) \<and>
       (leaves (ew_pc (ep_workers s ! i)) \<or> adding (ep_serve s) = Some i \<or>
        map_of (ep_workerQueue s) (ew_UUID (ep_workers s ! i)) = Some i))"
  using ep_trace_ok [OF assms] take_turn_ok [OF ep_trace_ok [OF assms], of P c]
  by (auto simp: ep_ok_def worker_ok_def Let_def)

theorem processor_never_panics_witness:
  "\<exists>tr s. ep_trace default_parsers plain_config tr s \<and> length (ep_workers s) = 1 \<and> ep_serve s = Select \<and>
     \<not> ep_panic s \<and> \<not> ew_used (ep_workers s ! 0)"
proof -
  obtain tr s where run: "ep_trace default_parsers plain_config tr s" "length (ep_workers s) = 1" "ep_serve s = Select"
    using first_event_run by blast
  from processor_never_panics [OF run(1)] run show ?thesis by force
qed

text \<open>
  C39: \<open>destroyWorkers\<close> closes at most one worker, although a socket has a worker for each direction: after
  the end of a socket with two workers has been handled, one of them has been told to close and the
  other is still open, in the queue and waiting.
\<close>

theorem destroy_closes_one:
  "(\<exists>i ew. ep_workers (destroyWorkers entries d s) = (ep_workers s)[i := ew]) \<and>
   (\<exists>tr s. ep_trace default_parsers plain_config tr s \<and> ep_destroyConn s = [] \<and>
      map ew_DestroyUUID (ep_workers s) = [99, 99] \<and>
      map ew_closeChan (ep_workers s) = [Some True, Some False] \<and>
      ep_serve s = Select \<and> length (ep_workerQueue s) = 2)"
proof
  show "\<exists>i ew. ep_workers (destroyWorkers entries d s) = (ep_workers s)[i := ew]"
  proof (cases "ep_workers (destroyWorkers entries d s) = ep_workers s")
    case True
    then show ?thesis by (metis list_update_id)
  qed (auto simp: destroyWorkers_def split: option.splits if_splits)
qed (rule run_schedule_ex [where ts = socket_schedule], code_simp)

end
