(* ===== verification/Event_Recording.thy ===== *)
theory Event_Recording
  imports Event_Delivery
begin

text \<open>
  Delivery of payloads. What a worker hands to its parser is observed by a parser: \<open>recording P\<close> does what \<open>P\<close>
  does and keeps the bytes of all its \<open>Write\<close> calls, so that the bytes are those that \<open>parserEvents\<close> passes on. It only
  observes: every run with \<open>P\<close> is a run with \<open>recording P\<close> whose records are forgotten (\<open>recorded_run\<close>).
\<close>

section \<open>A parser that records\<close>

definition recording :: "'p IParser \<Rightarrow> ('p \<times> bytes) IParser" where
  "recording P = \<lparr>NewParser = (\<lambda>b. (NewParser P b, [])), ip_Write = (\<lambda>b (p, l). (ip_Write P b p, l @ b)),
     ip_Display = (\<lambda>(p, l). let (b, p) = ip_Display P p in (b, p, l)), ip_Reset = (\<lambda>(p, l). (ip_Reset P p, l))\<rparr>"

text \<open>The bytes a worker has written to its parser.\<close>

definition written :: "('p \<times> bytes) eventWorker \<Rightarrow> bytes" where
  "written ew = (case ew_parser ew of None \<Rightarrow> [] | Some (p, l) \<Rightarrow> l)"

section \<open>Forgetting the records\<close>

definition forget_worker :: "('p \<times> bytes) eventWorker \<Rightarrow> 'p eventWorker" where
  "forget_worker ew =
     \<lparr>ew_incoming = ew_incoming ew, ew_originEvent = ew_originEvent ew, ew_status = ew_status ew,
      ew_packetType = ew_packetType ew, ew_ticking = ew_ticking ew, ew_tickerCount = ew_tickerCount ew,
      ew_UUID = ew_UUID ew, ew_uuidOutput = ew_uuidOutput ew, ew_DestroyUUID = ew_DestroyUUID ew,
      ew_parser = map_option fst (ew_parser ew), ew_payload = ew_payload ew, ew_used = ew_used ew,
      ew_closeChan = ew_closeChan ew, ew_LifeCycleState = ew_LifeCycleState ew, ew_restart = ew_restart ew,
      ew_pc = ew_pc ew\<rparr>"

definition forget :: "('p \<times> bytes) eventProcessor \<Rightarrow> 'p eventProcessor" where
  "forget s =
     \<lparr>ep_isClosed = ep_isClosed s, ep_incoming = ep_incoming s, ep_outComing = ep_outComing s,
      ep_destroyConn = ep_destroyConn s, ep_workerQueue = ep_workerQueue s, ep_logger = ep_logger s,
      ep_errChan = ep_errChan s, ep_serve = ep_serve s, ep_draining = ep_draining s,
      ep_workers = map forget_worker (ep_workers s), ep_writers = ep_writers s, ep_destroyers = ep_destroyers s,
      ep_panic = ep_panic s\<rparr>"

lemma forget_worker_sel [simp]:
  "ew_incoming (forget_worker ew) = ew_incoming ew" "ew_originEvent (forget_worker ew) = ew_originEvent ew"
  "ew_status (forget_worker ew) = ew_status ew" "ew_packetType (forget_worker ew) = ew_packetType ew"
  "ew_ticking (forget_worker ew) = ew_ticking ew" "ew_tickerCount (forget_worker ew) = ew_tickerCount ew"
  "ew_UUID (forget_worker ew) = ew_UUID ew" "ew_uuidOutput (forget_worker ew) = ew_uuidOutput ew"
  "ew_DestroyUUID (forget_worker ew) = ew_DestroyUUID ew" "ew_parser (forget_worker ew) = map_option fst (ew_parser ew)"
  "ew_payload (forget_worker ew) = ew_payload ew" "ew_used (forget_worker ew) = ew_used ew"
  "ew_closeChan (forget_worker ew) = ew_closeChan ew" "ew_LifeCycleState (forget_worker ew) = ew_LifeCycleState ew"
  "ew_restart (forget_worker ew) = ew_restart ew" "ew_pc (forget_worker ew) = ew_pc ew"
  by (simp_all add: forget_worker_def)

lemma forget_worker_upd [simp]:
  "(forget_worker ew)\<lparr>ew_incoming := x1\<rparr> = forget_worker (ew\<lparr>ew_incoming := x1\<rparr>)"
  "(forget_worker ew)\<lparr>ew_originEvent := x2\<rparr> = forget_worker (ew\<lparr>ew_originEvent := x2\<rparr>)"
  "(forget_worker ew)\<lparr>ew_status := x3\<rparr> = forget_worker (ew\<lparr>ew_status := x3\<rparr>)"
  "(forget_worker ew)\<lparr>ew_packetType := x4\<rparr> = forget_worker (ew\<lparr>ew_packetType := x4\<rparr>)"
  "(forget_worker ew)\<lparr>ew_ticking := x5\<rparr> = forget_worker (ew\<lparr>ew_ticking := x5\<rparr>)"
  "(forget_worker ew)\<lparr>ew_tickerCount := x6\<rparr> = forget_worker (ew\<lparr>ew_tickerCount := x6\<rparr>)"
  "(forget_worker ew)\<lparr>ew_payload := x7\<rparr> = forget_worker (ew\<lparr>ew_payload := x7\<rparr>)"
  "(forget_worker ew)\<lparr>ew_used := x8\<rparr> = forget_worker (ew\<lparr>ew_used := x8\<rparr>)"
  "(forget_worker ew)\<lparr>ew_closeChan := x9\<rparr> = forget_worker (ew\<lparr>ew_closeChan := x9\<rparr>)"
  "(forget_worker ew)\<lparr>ew_restart := x10\<rparr> = forget_worker (ew\<lparr>ew_restart := x10\<rparr>)"
  "(forget_worker ew)\<lparr>ew_pc := x11\<rparr> = forget_worker (ew\<lparr>ew_pc := x11\<rparr>)"
  "(forget_worker ew)\<lparr>ew_uuidOutput := x12\<rparr> = forget_worker (ew\<lparr>ew_uuidOutput := x12\<rparr>)"
  "(forget_worker ew)\<lparr>ew_DestroyUUID := x13\<rparr> = forget_worker (ew\<lparr>ew_DestroyUUID := x13\<rparr>)"
  "(forget_worker ew)\<lparr>ew_LifeCycleState := x14\<rparr> = forget_worker (ew\<lparr>ew_LifeCycleState := x14\<rparr>)"
  "(forget_worker ew)\<lparr>ew_parser := Some p\<rparr> = forget_worker (ew\<lparr>ew_parser := Some (p, l)\<rparr>)"
  by (simp_all add: forget_worker_def)

lemma forget_sel [simp]:
  "ep_isClosed (forget s) = ep_isClosed s" "ep_incoming (forget s) = ep_incoming s"
  "ep_outComing (forget s) = ep_outComing s" "ep_destroyConn (forget s) = ep_destroyConn s"
  "ep_workerQueue (forget s) = ep_workerQueue s" "ep_logger (forget s) = ep_logger s"
  "ep_errChan (forget s) = ep_errChan s" "ep_serve (forget s) = ep_serve s" "ep_draining (forget s) = ep_draining s"
  "ep_workers (forget s) = map forget_worker (ep_workers s)" "ep_writers (forget s) = ep_writers s"
  "ep_destroyers (forget s) = ep_destroyers s" "ep_panic (forget s) = ep_panic s"
  by (simp_all add: forget_def)

lemma forget_upd [simp]:
  "(forget s)\<lparr>ep_isClosed := x1\<rparr> = forget (s\<lparr>ep_isClosed := x1\<rparr>)"
  "(forget s)\<lparr>ep_incoming := x2\<rparr> = forget (s\<lparr>ep_incoming := x2\<rparr>)"
  "(forget s)\<lparr>ep_outComing := x3\<rparr> = forget (s\<lparr>ep_outComing := x3\<rparr>)"
  "(forget s)\<lparr>ep_destroyConn := x4\<rparr> = forget (s\<lparr>ep_destroyConn := x4\<rparr>)"
  "(forget s)\<lparr>ep_workerQueue := x5\<rparr> = forget (s\<lparr>ep_workerQueue := x5\<rparr>)"
  "(forget s)\<lparr>ep_logger := x6\<rparr> = forget (s\<lparr>ep_logger := x6\<rparr>)"
  "(forget s)\<lparr>ep_errChan := x7\<rparr> = forget (s\<lparr>ep_errChan := x7\<rparr>)"
  "(forget s)\<lparr>ep_serve := x8\<rparr> = forget (s\<lparr>ep_serve := x8\<rparr>)"
  "(forget s)\<lparr>ep_draining := x9\<rparr> = forget (s\<lparr>ep_draining := x9\<rparr>)"
  "(forget s)\<lparr>ep_workers := map forget_worker ws\<rparr> = forget (s\<lparr>ep_workers := ws\<rparr>)"
  "(forget s)\<lparr>ep_writers := x10\<rparr> = forget (s\<lparr>ep_writers := x10\<rparr>)"
  "(forget s)\<lparr>ep_destroyers := x11\<rparr> = forget (s\<lparr>ep_destroyers := x11\<rparr>)"
  "(forget s)\<lparr>ep_panic := x12\<rparr> = forget (s\<lparr>ep_panic := x12\<rparr>)"
  by (simp_all add: forget_def)

lemma forget_put_worker [simp]: "put_worker i (forget_worker ew) (forget s) = forget (put_worker i ew s)"
  by (simp add: put_worker_def map_update [symmetric] del: map_update)

subsection \<open>Workers\<close>

lemma forget_init: "ew_init uuid = map_option forget_worker (ew_init uuid)"
proof (cases "\<exists>core sock. socket_uuid uuid core sock")
  case True
  then obtain core sock where s: "socket_uuid uuid core sock" by blast
  show ?thesis by (simp add: ew_init_def ew_uuidParse_socket [OF s] forget_worker_def)
next
  case False
  show ?thesis by (simp add: ew_init_def ew_uuidParse_other [OF False] forget_worker_def)
qed

lemma forget_close: "CloseEventWorker (forget_worker ew) = forget_worker (CloseEventWorker ew)"
  by (simp add: CloseEventWorker_def)

lemma forget_get_put:
  "ew_Get (forget_worker ew) = map_option forget_worker (ew_Get ew)"
  "ew_Put (forget_worker ew) = map_option forget_worker (ew_Put ew)"
  by (simp_all add: ew_Get_def ew_Put_def)

lemma forget_Write: "ew_Write e (forget_worker ew) = map_prod forget_worker id (ew_Write e ew)"
  by (simp add: ew_Write_def)

lemma forget_writeEvent: "ew_writeEvent c e (forget_worker ew) = forget_worker (ew_writeEvent c e ew)"
  by (simp add: ew_writeEvent_def Let_def)

lemma forget_receive: "ew_receive c e (forget_worker ew) = forget_worker (ew_receive c e ew)"
  by (simp add: ew_receive_def Let_def forget_writeEvent)

lemma forget_after_drain: "ew_after_drain x (forget_worker ew) = forget_worker (ew_after_drain x ew)"
  by (simp add: ew_after_drain_def)

lemma forget_Close: "ew_Close P c (forget_worker ew) = map_option (map_prod forget_worker id) (ew_Close (recording P) c ew)"
  by (cases "ew_parser ew")
    (auto simp: ew_Close_def ew_Display_def ew_parserEvents_def recording_def forget_worker_def Let_def
      split: prod.splits option.splits)

subsection \<open>Steps\<close>

abbreviation forgotten :: "('p \<times> bytes) ep_result \<Rightarrow> 'p ep_result" where
  "forgotten r \<equiv> map_go_outcome (map_prod id forget) r"

lemmas forget_workers = forget_close forget_get_put forget_Write forget_writeEvent forget_receive forget_after_drain
  forget_Close

lemma forget_del: "delWorkerByUUID i (forget s) = forget (delWorkerByUUID i s)" if "i < length (ep_workers s)"
  using that by (simp add: delWorkerByUUID_def)

lemma forget_writeToChan: "writeToChan out (forget s) = forget (writeToChan out s)"
  by (simp add: writeToChan_def split: option.split)

lemma forget_report_error: "report_error err (forget s) = forget (report_error err s)"
  by (simp add: report_error_def split: option.split)

lemma forget_run_select: "run_select c br i (forget s) = forgotten (run_select c br i s)" if "i < length (ep_workers s)"
  using that by (cases br) (simp_all add: run_select_def Let_def forget_workers forget_del split: list.split)

lemma forget_worker_step: "worker_step P c br i (forget s) = forgotten (worker_step (recording P) c br i s)"
proof (cases "i < length (ep_workers s)")
  case True
  then show ?thesis
    by (cases "ew_pc (ep_workers s ! i)")
      (simp_all add: worker_step_def Let_def forget_run_select forget_workers forget_writeToChan split: list.split option.split)
qed (simp add: worker_step_def)

lemma forget_call_step: "call_step f (forget s) = forgotten (call_step f s)"
  by (cases f) (simp_all add: call_step_def Let_def split: list.split)

lemma forget_fold_close:
  assumes "\<forall>(u, i) \<in> set es. i < length (ep_workers s)"
  shows "fold (\<lambda>(_, i) s. put_worker i (CloseEventWorker (ep_workers s ! i)) s) es (forget s) =
    forget (fold (\<lambda>(_, i) s. put_worker i (CloseEventWorker (ep_workers s ! i)) s) es s)"
  using assms
proof (induction es arbitrary: s)
  case (Cons x es)
  then show ?case by (cases x) (simp add: forget_close)
qed simp

lemma queue_bounds: "ep_ok s \<Longrightarrow> \<forall>(u, i) \<in> set (ep_workerQueue s). i < length (ep_workers s)"
  by (auto simp: ep_ok_def queue_ok_def dest: map_of_is_SomeI)

lemma forget_signal:
  assumes "ep_ok s"
  shows "signalWorkers ((forget s)\<lparr>ep_serve := x\<rparr>) = forget (signalWorkers (s\<lparr>ep_serve := x\<rparr>))"
proof -
  have "\<forall>(u, i) \<in> set (ep_workerQueue s). i < length (ep_workers (s\<lparr>ep_serve := x\<rparr>))" using queue_bounds [OF assms] by simp
  from forget_fold_close [OF this] show ?thesis by (simp add: signalWorkers_def)
qed

lemma forget_destroy:
  assumes "\<forall>(u, i) \<in> set es. i < length (ep_workers s)"
  shows "destroyWorkers es d (forget s) = forget (destroyWorkers es d s)"
proof -
  have "find (\<lambda>(_, i). d = ew_DestroyUUID (map forget_worker (ep_workers s) ! i)) es =
      find (\<lambda>(_, i). d = ew_DestroyUUID (ep_workers s ! i)) es"
    using assms by (intro find_cong) auto
  moreover have "i < length (ep_workers s)"
    if "find (\<lambda>(_, i). d = ew_DestroyUUID (ep_workers s ! i)) es = Some (u, i)" for u i
  proof -
    have "(u, i) \<in> set es" using that by (metis find_Some_iff nth_mem)
    with assms show ?thesis by auto
  qed
  ultimately show ?thesis
    by (auto simp: destroyWorkers_def forget_close split: option.split)
qed

lemma forget_take_channel:
  "take_incoming (forget s) = forgotten (take_incoming s)" "take_outComing (forget s) = forgotten (take_outComing s)"
  by (simp_all add: take_incoming_def take_outComing_def split: list.split)

lemma forget_serve_select:
  assumes "ep_ok s"
  shows "serve_select br (forget s) = forgotten (serve_select br s)"
proof (cases br)
  case (FromDestroyConn es)
  have "destroyWorkers es d (forget (s\<lparr>ep_destroyConn := ds\<rparr>)) = forget (destroyWorkers es d (s\<lparr>ep_destroyConn := ds\<rparr>))"
    if "mset es = mset (ep_workerQueue s)" for d ds
    using queue_bounds [OF assms] mset_eq_setD [OF that] by (intro forget_destroy) simp
  with FromDestroyConn show ?thesis by (simp add: serve_select_def split: list.split)
qed (simp_all add: serve_select_def forget_take_channel)

lemma forget_wait_select:
  "ep_ok s \<Longrightarrow> drain_select br (forget s) = forgotten (drain_select br s)"
  "wait_select br (forget s) = forgotten (wait_select br s)" "flush_select br (forget s) = forgotten (flush_select br s)"
  by (cases br; simp add: drain_select_def wait_select_def flush_select_def forget_take_channel forget_signal
      list.pred_map comp_def del: forget_upd)+

lemma forget_serve_step:
  fixes s :: "('a \<times> bytes) eventProcessor"
  assumes ok: "ep_ok s"
  shows "serve_step br (forget s) = forgotten (serve_step br s)"
proof (cases "ep_serve s")
  case (GetWorker e)
  have "i < length (ep_workers s)" if "map_of (ep_workerQueue s) (GetUUID e) = Some i" for i
    using ok that by (auto simp: ep_ok_def queue_ok_def)
  then show ?thesis
    by (auto simp: serve_step_def GetWorker getWorkerByUUID_def ew_Get_def split: option.split)
next
  case (NewWorker e)
  have "(forget s)\<lparr>ep_workers := map forget_worker (ep_workers s) @ [forget_worker ew]\<rparr> =
      forget (s\<lparr>ep_workers := ep_workers s @ [ew]\<rparr>)" for ew :: "('a \<times> bytes) eventWorker"
    by (simp add: forget_def)
  moreover obtain ew where ew: "ew_init (GetUUID e) = Some (ew :: ('a \<times> bytes) eventWorker)" using ew_init_returns by blast
  moreover have "ew_init (GetUUID e) = Some (forget_worker ew)" by (subst forget_init) (simp add: ew)
  ultimately show ?thesis by (simp add: serve_step_def NewWorker NewEventWorker_def)
next
  case (AddWorker e i)
  with ok have "i < length (ep_workers s)" by (simp add: ep_ok_def serve_ok_def)
  then show ?thesis by (simp add: serve_step_def AddWorker addWorkerByUUID_def ew_Get_def Let_def split: option.split)
next
  case (WriteWorker e i)
  with ok have "i < length (ep_workers s)" by (simp add: ep_ok_def serve_ok_def)
  then show ?thesis by (simp add: serve_step_def WriteWorker ew_Write_def Let_def)
next
  case (PutWorker i err)
  with ok have "i < length (ep_workers s)" by (simp add: ep_ok_def serve_ok_def)
  then show ?thesis by (simp add: serve_step_def PutWorker ew_Put_def forget_report_error split: option.split)
qed (simp_all add: serve_step_def forget_serve_select forget_wait_select ok)

lemma forget_take_turn: "ep_ok s \<Longrightarrow> take_turn P c t (forget s) = forgotten (take_turn (recording P) c t s)"
  by (cases t) (simp_all add: take_turn_def forget_serve_step forget_worker_step forget_call_step)

text \<open>Every run is a recorded run whose records are forgotten.\<close>

lemma recorded_run: "ep_trace P c tr s \<Longrightarrow> \<exists>r. ep_trace (recording P) c tr r \<and> forget r = s"
proof (induction rule: ep_trace.induct)
  case start
  have "forget NewEventProcessor = NewEventProcessor" by (simp add: NewEventProcessor_def forget_def)
  then show ?case by (blast intro: ep_trace.start)
next
  case (step tr s t a s')
  then obtain r where r: "ep_trace (recording P) c tr r" "forget r = s" by blast
  have ok: "ep_ok r" by (rule ep_trace_ok [OF r(1)])
  from step.hyps(2) have "take_turn P c t s = Next (a, s')"
    using take_turn_ok [OF ep_trace_ok [OF step.hyps(1)], of P c t] by (auto elim: ep_stepE)
  then have "forgotten (take_turn (recording P) c t r) = Next (a, s')"
    using forget_take_turn [OF ok, of P c t] r(2) by simp
  then obtain r' where "take_turn (recording P) c t r = Next (a, r')" "forget r' = s'"
    by (cases "take_turn (recording P) c t r") auto
  then show ?case using ep_trace.step [OF r(1) ep_step.moves] by blast
qed

section \<open>Delivery\<close>

text \<open>All bytes a worker has got: those its parser recorded, its buffer, and what is queued.\<close>

definition received :: "('p \<times> bytes) eventWorker \<Rightarrow> bytes" where
  "received ew = written ew @ ew_payload ew @ concat (map Payload (ew_incoming ew))"

definition received_at :: "('p \<times> bytes) eventProcessor \<Rightarrow> nat \<Rightarrow> bytes" where
  "received_at s j = (if j < length (ep_workers s) then received (ep_workers s ! j) else [])"

text \<open>The payloads of the events the channel of a worker took, by the trace.\<close>

fun sent_by :: "nat \<Rightarrow> action \<Rightarrow> bytes" where
  "sent_by j (Accepted i e) = (if i = j then Payload e else [])"
| "sent_by j Internal = []"

definition sent :: "nat \<Rightarrow> action list \<Rightarrow> bytes" where
  "sent j tr = concat (map (sent_by j) tr)"

definition balanced :: "action \<Rightarrow> ('p \<times> bytes) eventProcessor \<Rightarrow> ('p \<times> bytes) eventProcessor \<Rightarrow> bool" where
  "balanced a s s' \<longleftrightarrow> (\<forall>j. received_at s' j = received_at s j @ sent_by j a)"

lemma received_at_cong: "ep_workers s' = ep_workers s \<Longrightarrow> received_at s' = received_at s"
  by (simp add: received_at_def fun_eq_iff)

lemma received_at_update:
  "ep_workers s' = (ep_workers s)[i := ew] \<Longrightarrow>
   received_at s' j = (if j = i \<and> i < length (ep_workers s) then received ew else received_at s j)"
  by (simp add: received_at_def)

lemma received_at_put [simp]:
  "received_at (put_worker i ew s) j = (if j = i \<and> i < length (ep_workers s) then received ew else received_at s j)"
  by (rule received_at_update) simp

lemma balanced_same: "(\<And>j. received_at s' j = received_at s j) \<Longrightarrow> balanced Internal s s'"
  by (simp add: balanced_def)

text \<open>A step that exchanges a worker for one that got the same bytes.\<close>

lemma received_at_same:
  "ep_workers s' = (ep_workers s)[i := ew] \<Longrightarrow> received ew = received (ep_workers s ! i) \<Longrightarrow> received_at s' = received_at s"
  by (rule ext, subst received_at_update, assumption) (auto simp: received_at_def)

lemma received_frame [simp]:
  "received (CloseEventWorker ew) = received ew" "received (ew\<lparr>ew_used := u\<rparr>) = received ew"
  "received (ew\<lparr>ew_pc := pc\<rparr>) = received ew" "received (ew\<lparr>ew_tickerCount := n\<rparr>) = received ew"
  by (simp_all add: received_def written_def CloseEventWorker_def)

lemma received_at_close [simp]: "received_at (put_worker i (CloseEventWorker (ep_workers s ! i)) s) = received_at s"
  by (rule received_at_same [where i = i and ew = "CloseEventWorker (ep_workers s ! i)"]) simp_all

lemma received_at_used [simp]:
  "received_at (t\<lparr>ep_workers := (ep_workers s)[i := (ep_workers s ! i)\<lparr>ew_used := u\<rparr>]\<rparr>) = received_at s"
  by (rule received_at_same [where i = i and ew = "(ep_workers s ! i)\<lparr>ew_used := u\<rparr>"]) simp_all

lemma received_at_frame [simp]:
  "received_at (s\<lparr>ep_serve := x\<rparr>) = received_at s" "received_at (s\<lparr>ep_destroyConn := y\<rparr>) = received_at s"
  "received_at (report_error err s) = received_at s"
  by (rule received_at_cong, simp)+

lemma received_at_destroy: "received_at (destroyWorkers entries d s) = received_at s"
  by (simp add: destroyWorkers_def split: option.splits)

lemma received_at_signal: "received_at (signalWorkers s) = received_at s"
proof -
  have "received_at (fold (\<lambda>(_, i) s. put_worker i (CloseEventWorker (ep_workers s ! i)) s) es s) = received_at s" for es
    by (induction es arbitrary: s) (simp_all add: case_prod_beta)
  then show ?thesis by (simp add: signalWorkers_def)
qed

text \<open>Taking an event from the channel into the buffer, and giving the buffer to the parser.\<close>

lemma ew_parser_take [simp]:
  "ew_parser (ew_writeEvent c e ew) = ew_parser ew" "ew_parser (ew_receive c e ew) = ew_parser ew"
  by (simp_all add: ew_writeEvent_def ew_receive_def Let_def)

lemma received_take:
  assumes "ew_incoming ew = e # es" "ew_status ew = ProcessStateInit" "sint (truncateSize c) \<le> 0"
  shows "received (ew_writeEvent c e (ew\<lparr>ew_incoming := es\<rparr>)) = received ew"
    and "received (ew_receive c e (ew\<lparr>ew_incoming := es\<rparr>)) = received ew"
  using assms by (simp_all add: received_def written_def ew_writeEvent_payload ew_receive_payload)

lemma written_Close:
  assumes "ew_Close (recording P) c ew = Some (ew', out)"
  shows "written ew' = written ew @ ew_payload ew"
  using assms
  by (auto simp: ew_Close_def ew_Display_def ew_parserEvents_def recording_def written_def Let_def
      split: prod.splits option.splits if_splits)

lemma received_Close:
  assumes "ew_Close (recording P) c ew = Some (ew', out)"
  shows "received (ew_after_drain x ew') = received ew"
proof -
  have "written (ew_after_drain x ew') = written ew'" by (simp add: written_def ew_after_drain_def)
  then show ?thesis using written_Close [OF assms] ew_Close_sel [OF assms] by (simp add: received_def)
qed

lemma worker_step_balanced:
  assumes ok: "ep_ok s" and plain: "sint (truncateSize c) \<le> 0" and step: "worker_step (recording P) c br i s = Next (a, s')"
  shows "balanced a s s'"
proof -
  let ?ew = "ep_workers s ! i"
  from step have i: "i < length (ep_workers s)" by (auto simp: worker_step_def split: if_splits)
  have st: "ew_status ?ew = ProcessStateInit" using ep_ok_worker [OF ok i] by (simp add: ew_ok_def)
  have del: "received_at (delWorkerByUUID i s) = received_at s" by (rule received_at_cong) simp
  have at: "received_at s i = received ?ew" using i by (simp add: received_at_def)
  show ?thesis
  proof (cases "ew_pc ?ew")
    case (Closing leave)
    then obtain ew' out where close: "ew_Close (recording P) c ?ew = Some (ew', out)" "a = Internal"
        "s' = writeToChan out (put_worker i (ew_after_drain leave ew') s)"
      using step i by (auto simp: worker_step_def Let_def split: option.splits)
    have "received_at s' = received_at (put_worker i (ew_after_drain leave ew') s)"
      unfolding close(3) by (rule received_at_cong) simp
    with close(2) i show ?thesis by (auto simp: balanced_def at received_Close [OF close(1)])
  qed (use step i in \<open>auto simp: worker_step_def run_select_def Let_def at del st plain received_take
      split: run_branch.splits list.splits if_splits intro!: balanced_same\<close>)
qed

lemma take_channel_balanced:
  "take_incoming s = Next (a, s') \<Longrightarrow> balanced a s s'" "take_outComing s = Next (a, s') \<Longrightarrow> balanced a s s'"
  by (auto simp: take_incoming_def take_outComing_def received_at_def split: list.splits intro!: balanced_same)

lemma balanced_fun: "received_at s' = received_at s \<Longrightarrow> balanced Internal s s'"
  by (simp add: balanced_def)

lemma serve_select_balanced: "serve_select br s = Next (a, s') \<Longrightarrow> balanced a s s'"
  by (cases br) (auto simp: serve_select_def take_channel_balanced received_at_destroy
      split: list.splits if_splits intro!: balanced_fun intro: received_at_cong)

lemma drain_select_balanced: "drain_select br s = Next (a, s') \<Longrightarrow> balanced a s s'"
  by (cases br) (auto simp: drain_select_def take_channel_balanced received_at_signal
      split: if_splits intro!: balanced_fun intro: received_at_cong)

lemma wait_select_balanced: "wait_select br s = Next (a, s') \<Longrightarrow> balanced a s s'"
  by (cases br) (auto simp: wait_select_def take_channel_balanced split: if_splits intro!: balanced_fun received_at_cong)

lemma flush_select_balanced: "flush_select br s = Next (a, s') \<Longrightarrow> balanced a s s'"
  by (cases br) (auto simp: flush_select_def take_channel_balanced split: if_splits intro!: balanced_fun received_at_cong)

lemmas select_balanced = serve_select_balanced drain_select_balanced wait_select_balanced flush_select_balanced

lemma dispatch_balanced:
  fixes s :: "('p \<times> bytes) eventProcessor"
  assumes ok: "ep_ok s" and pc: "ep_serve s \<notin> {Select, WaitWorkers, FlushOut, Returned}" and step: "serve_step br s = Next (a, s')"
  shows "balanced a s s'"
proof (cases "ep_serve s")
  case (GetWorker e)
  with step show ?thesis
    by (auto simp: serve_step_def getWorkerByUUID_def ew_Get_def put_worker_def
        split: option.splits if_splits intro!: balanced_fun)
next
  case (NewWorker e)
  then obtain ew :: "('p \<times> bytes) eventWorker" where ew: "ew_init (GetUUID e) = Some ew" "a = Internal"
      "s' = s\<lparr>ep_workers := ep_workers s @ [ew], ep_serve := AddWorker e (length (ep_workers s))\<rparr>"
    using step by (auto simp: serve_step_def NewEventWorker_def split: option.splits)
  then have "ew_parser ew = None"
    by (auto simp: ew_init_def ew_uuidParse_def Let_def split: if_splits option.splits)
  with ew ew_init_ok [of "GetUUID e" ew] show ?thesis
    by (auto simp: received_at_def received_def written_def nth_append less_Suc_eq intro!: balanced_same)
next
  case (AddWorker e i)
  with step show ?thesis
    by (auto simp: serve_step_def addWorkerByUUID_def ew_Get_def put_worker_def Let_def
        split: option.splits if_splits intro!: balanced_fun)
next
  case (WriteWorker e i)
  then have i: "i < length (ep_workers s)" using ok by (simp add: ep_ok_def serve_ok_def)
  obtain ew err where w: "ew_Write e (ep_workers s ! i) = (ew, err)" by fastforce
  then have s': "a = (if err = None then Accepted i e else Internal)" "ep_workers s' = (ep_workers s)[i := ew]"
    using WriteWorker step by (auto simp: serve_step_def)
  have "received ew = received (ep_workers s ! i) @ (if err = None then Payload e else [])"
    using w by (auto simp: ew_Write_def received_def written_def split: if_splits)
  with i show ?thesis by (auto simp: balanced_def s' received_at_def nth_list_update)
next
  case (PutWorker i err)
  with step show ?thesis
    by (auto simp: serve_step_def ew_Put_def put_worker_def
        split: option.splits if_splits intro!: balanced_fun)
qed (use pc in auto)

lemma serve_step_balanced: "ep_ok s \<Longrightarrow> serve_step br s = Next (a, s') \<Longrightarrow> balanced a s s'"
proof (cases "ep_serve s \<in> {Select, WaitWorkers, FlushOut, Returned}")
  case True
  then show "serve_step br s = Next (a, s') \<Longrightarrow> balanced a s s'"
    using select_balanced by (auto simp: serve_step_def split: if_splits)
qed (blast intro: dispatch_balanced)

lemma call_step_balanced: "call_step f s = Next (a, s') \<Longrightarrow> balanced a s s'"
  by (cases f) (auto simp: call_step_def Let_def received_at_def split: if_splits list.splits intro!: balanced_same)

lemma ep_step_balanced:
  assumes ok: "ep_ok s" and plain: "sint (truncateSize c) \<le> 0" and step: "ep_step (recording P) c t a s s'"
  shows "balanced a s s'"
  using step
proof cases
  case moves
  then show ?thesis
    using worker_step_balanced [OF ok plain] serve_step_balanced [OF ok] call_step_balanced
    by (cases t) (auto simp: take_turn_def split: if_splits)
next
  case panics
  with take_turn_ok [OF ok] show ?thesis by blast
qed

lemma ep_trace_balanced:
  "ep_trace (recording P) c tr s \<Longrightarrow> sint (truncateSize c) \<le> 0 \<Longrightarrow> received_at s j = sent j tr"
proof (induction rule: ep_trace.induct)
  case start
  then show ?case by (simp add: sent_def received_at_def NewEventProcessor_def)
next
  case (step tr s t a s')
  have "received_at s' j = received_at s j @ sent_by j a"
    using ep_step_balanced [OF ep_trace_ok [OF step.hyps(1)] step.prems step.hyps(2)] by (simp add: balanced_def)
  with step.IH [OF step.prems] show ?case by (simp add: sent_def)
qed

section \<open>Property\<close>

text \<open>
  C17: Payloads are delivered in order, once and completely: when no truncation is configured, the bytes of
  the events that the channel of a worker took are at every moment the bytes of all \<open>Write\<close> calls on its parser,
  followed by those in its buffer and those still queued, whatever the parser does with them. Every run has
  a version that records the calls on the parsers and is otherwise the same, and the equation holds for every
  such version. So once buffer and queue are empty, the parser has been given everything.
\<close>

theorem payloads_in_order:
  assumes "ep_trace P c tr s" and "sint (truncateSize c) \<le> 0" and "i < length (ep_workers s)"
  shows "(\<exists>r. ep_trace (recording P) c tr r \<and> forget r = s) \<and>
    (\<forall>r. ep_trace (recording P) c tr r \<and> forget r = s \<longrightarrow>
       sent i tr = written (ep_workers r ! i) @ ew_payload (ep_workers s ! i) @ concat (map Payload (ew_incoming (ep_workers s ! i))))"
proof (intro conjI allI impI)
  show "\<exists>r. ep_trace (recording P) c tr r \<and> forget r = s" by (rule recorded_run [OF assms(1)])
  fix r assume r: "ep_trace (recording P) c tr r \<and> forget r = s"
  then have "sent i tr = received_at r i" using ep_trace_balanced [of P c tr r i] assms(2) by simp
  with r assms(3) show "sent i tr = written (ep_workers r ! i) @ ew_payload (ep_workers s ! i) @
      concat (map Payload (ew_incoming (ep_workers s ! i)))"
    by (auto simp: received_at_def received_def)
qed

lemma delivered_run:
  "\<exists>tr s. ep_trace default_parsers plain_config tr s \<and> length (ep_workers s) = 1 \<and>
     ew_payload (ep_workers s ! 0) = [] \<and> ew_incoming (ep_workers s ! 0) = [] \<and> sent 0 tr = string_bytes ''GET /''"
  by (rule run_schedule_ex [where ts = "arrives (sample_event ''7_7_curl_3'' ''GET '') @ serve_on 5 @ [Worker 0 OnIncoming]
      @ arrives (sample_event ''7_7_curl_3'' ''/'') @ serve_on 3 @ [Worker 0 OnIncoming] @ ticks 15 0"])
    code_simp

theorem payloads_in_order_witness:
  "\<exists>tr r. ep_trace (recording default_parsers) plain_config tr r \<and> written (ep_workers r ! 0) = string_bytes ''GET /''"
proof -
  obtain tr and s :: "DefaultParser eventProcessor"
    where run: "ep_trace default_parsers plain_config tr s" "length (ep_workers s) = 1"
      "ew_payload (ep_workers s ! 0) = []" "ew_incoming (ep_workers s ! 0) = []" "sent 0 tr = string_bytes ''GET /''"
    using delivered_run by blast
  have "sint (truncateSize plain_config) \<le> 0" by (simp add: plain_config_def)
  with payloads_in_order [OF run(1), of 0] run(2)
  obtain r where "ep_trace (recording default_parsers) plain_config tr r"
    "sent 0 tr = written (ep_workers r ! 0) @ ew_payload (ep_workers s ! 0) @ concat (map Payload (ew_incoming (ep_workers s ! 0)))"
    by auto
  with run show ?thesis by (intro exI [of _ tr] exI [of _ r]) simp
qed

end
