(* ===== verification/Event_Races.thy ===== *)
theory Event_Races
  imports Event_Delivery "HOL-Library.Sublist"
begin

text \<open>
  The races of the event processor in which an accepted event is never shown: the last look of a worker into
  its channel, and a worker that ends before it is registered. What makes the loss final is that a worker that
  has returned only gets events and does nothing with them.
\<close>

section \<open>A worker that has returned\<close>

text \<open>What \<open>Serve\<close>, the callers and other workers do to a worker: they set flags and send to its channel.\<close>

definition only_gets :: "'p eventWorker \<Rightarrow> 'p eventWorker \<Rightarrow> bool" where
  "only_gets ew ew' \<longleftrightarrow> ew_pc ew' = ew_pc ew \<and> ew_parser ew' = ew_parser ew \<and> ew_payload ew' = ew_payload ew \<and>
     ew_UUID ew' = ew_UUID ew \<and> prefix (ew_incoming ew) (ew_incoming ew')"

lemma only_gets_refl [simp]: "only_gets ew ew"
  by (simp add: only_gets_def)

lemma only_gets_trans: "only_gets x y \<Longrightarrow> only_gets y z \<Longrightarrow> only_gets x z"
  by (auto simp: only_gets_def intro: prefix_order.trans)

lemma only_gets_flags [simp]:
  "only_gets ew (CloseEventWorker ew)" "only_gets ew (ew\<lparr>ew_used := u\<rparr>)" "only_gets ew (fst (ew_Write e ew))"
  by (simp_all add: only_gets_def CloseEventWorker_def ew_Write_def)

lemma only_gets_update [simp]:
  "i < length ws \<Longrightarrow> only_gets (ws ! j) ew \<Longrightarrow> only_gets (ws ! i) (ws[j := ew] ! i)"
  by (cases "i = j") simp_all

lemma only_gets_destroy:
  "i < length (ep_workers s) \<Longrightarrow> only_gets (ep_workers s ! i) (ep_workers (destroyWorkers entries d s) ! i)"
  by (auto simp: destroyWorkers_def split: option.split)

lemma length_destroy [simp]: "length (ep_workers (destroyWorkers entries d s)) = length (ep_workers s)"
  by (auto simp: destroyWorkers_def split: option.split)

lemma serve_step_gets:
  fixes s :: "'p eventProcessor"
  assumes ok: "ep_ok s" and i: "i < length (ep_workers s)" and step: "serve_step br s = Next (a, s')"
  shows "i < length (ep_workers s') \<and> only_gets (ep_workers s ! i) (ep_workers s' ! i)"
proof (cases "ep_serve s")
  case Select
  have "only_gets (ep_workers s ! i) (ep_workers (signalWorkers (s\<lparr>ep_serve := WaitWorkers\<rparr>)) ! i)"
    using signalWorkers_nth [of "s\<lparr>ep_serve := WaitWorkers\<rparr>" i] ok i by (simp add: ep_ok_def queue_ok_def)
  moreover have "only_gets (ep_workers s ! i) (ep_workers (destroyWorkers es d (s\<lparr>ep_destroyConn := ds\<rparr>)) ! i)" for es d ds
    using only_gets_destroy [of i "s\<lparr>ep_destroyConn := ds\<rparr>"] i by simp
  ultimately show ?thesis
    using step i Select
    by (cases br) (auto simp: serve_step_def serve_select_def drain_select_def take_incoming_def take_outComing_def
        split: if_splits list.splits)
next
  case (GetWorker e)
  with step i show ?thesis
    by (auto simp: serve_step_def getWorkerByUUID_def ew_Get_def split: option.splits if_splits)
next
  case (NewWorker e)
  with step i show ?thesis by (auto simp: serve_step_def NewEventWorker_def nth_append split: option.splits)
next
  case (AddWorker e j)
  with step i show ?thesis
    by (auto simp: serve_step_def addWorkerByUUID_def ew_Get_def Let_def split: option.splits if_splits)
next
  case (WriteWorker e j)
  with step have "ep_workers s' = (ep_workers s)[j := fst (ew_Write e (ep_workers s ! j))]"
    by (auto simp: serve_step_def case_prod_beta)
  with i show ?thesis by simp
next
  case (PutWorker j err)
  with step i show ?thesis
    by (auto simp: serve_step_def ew_Put_def split: option.splits if_splits)
qed (use step i in \<open>auto simp: serve_step_def wait_select_def flush_select_def take_outComing_def
      split: branch.splits if_splits list.splits\<close>)

lemma worker_step_other:
  "worker_step P c br j s = Next (a, s') \<Longrightarrow> \<exists>ew. ep_workers s' = (ep_workers s)[j := ew]"
  by (cases "ew_pc (ep_workers s ! j)"; cases br) (auto simp: worker_step_def run_select_def Let_def split: if_splits list.splits option.splits)

text \<open>The worker is there and its goroutine has returned.\<close>

definition returned :: "nat \<Rightarrow> 'p eventProcessor \<Rightarrow> bool" where
  "returned i s \<longleftrightarrow> i < length (ep_workers s) \<and> ew_pc (ep_workers s ! i) = Finished"

lemma returned_blocked: "returned i s \<Longrightarrow> worker_step P c br i s = Blocked"
  by (simp add: returned_def worker_step_def)

lemma returned_turn:
  assumes ok: "ep_ok s" and r: "returned i s" and step: "take_turn P c t s = Next (a, s')"
  shows "returned i s' \<and> only_gets (ep_workers s ! i) (ep_workers s' ! i)"
proof (cases t)
  case (Serve br)
  with serve_step_gets [OF ok, of i br a s'] r step show ?thesis
    by (auto simp: returned_def take_turn_def only_gets_def split: if_splits)
next
  case (Worker j br)
  with step r returned_blocked [OF r] have "j \<noteq> i" and "worker_step P c br j s = Next (a, s')"
    by (auto simp: take_turn_def split: if_splits)
  with worker_step_other r show ?thesis by (force simp: returned_def)
next
  case (Caller f)
  with step have "ep_workers s' = ep_workers s"
    by (cases f) (auto simp: take_turn_def call_step_def Let_def split: if_splits list.splits)
  with r show ?thesis by (simp add: returned_def)
qed

lemma returned_run:
  assumes "(ep_moves P c)\<^sup>*\<^sup>* s s'" "ep_ok s" "returned i s"
  shows "ep_ok s' \<and> returned i s' \<and> only_gets (ep_workers s ! i) (ep_workers s' ! i)"
  using assms
proof (induction rule: rtranclp_induct)
  case (step x y)
  then have x: "ep_ok x" "returned i x" "only_gets (ep_workers s ! i) (ep_workers x ! i)" by auto
  obtain t a where "take_turn P c t x = Next (a, y)" using ep_moves_turn [OF x(1) step.hyps(2)] .
  with returned_turn [OF x(1,2)] x ep_moves_ok [OF step.hyps(2)] show ?case by (blast intro: only_gets_trans)
qed simp

section \<open>A finished worker in the queue\<close>

lemma registered_turn:
  assumes ok: "ep_ok s" and r: "returned i s" and q: "map_of (ep_workerQueue s) u = Some i"
    and step: "take_turn P c t s = Next (a, s')"
  shows "map_of (ep_workerQueue s') u = Some i"
proof (cases t)
  case (Serve br)
  have "map_of (ep_workerQueue s) (ew_UUID (ep_workers s ! j)) = None" if "ep_serve s = AddWorker e j" for e j
    using ok that by (simp add: ep_ok_def serve_ok_def)
  with q have "ew_UUID (ep_workers s ! j) \<noteq> u" if "ep_serve s = AddWorker e j" for e j using that by auto
  with Serve step q show ?thesis
    by (cases "ep_serve s"; cases br)
      (auto simp: take_turn_def serve_step_def serve_select_def drain_select_def wait_select_def flush_select_def
        take_incoming_def take_outComing_def destroyWorkers_def getWorkerByUUID_def NewEventWorker_def addWorkerByUUID_def
        ew_Write_def Let_def AList.update_conv' split: if_splits list.splits option.splits prod.splits)
next
  case (Worker j br)
  have "ew_UUID (ep_workers s ! j) \<noteq> u" if j: "j < length (ep_workers s)" "ew_pc (ep_workers s ! j) = Running"
  proof
    assume u: "ew_UUID (ep_workers s ! j) = u"
    have "map_of (ep_workerQueue s) u = Some j \<or> adding (ep_serve s) = Some j"
      using ok j u by (auto simp: ep_ok_def worker_ok_def Let_def)
    then show False
    proof
      assume "map_of (ep_workerQueue s) u = Some j"
      with q j r show False by (simp add: returned_def)
    next
      assume "adding (ep_serve s) = Some j"
      with ok u q show False by (cases "ep_serve s") (auto simp: ep_ok_def serve_ok_def)
    qed
  qed
  with Worker step q show ?thesis
    by (cases "ew_pc (ep_workers s ! j)"; cases br)
      (auto simp: take_turn_def worker_step_def run_select_def Let_def writeToChan_def AList.delete_conv'
        split: if_splits list.splits option.splits)
next
  case (Caller f)
  with step q show ?thesis
    by (cases f) (auto simp: take_turn_def call_step_def Let_def split: if_splits list.splits)
qed

lemma registered_run:
  assumes "(ep_moves P c)\<^sup>*\<^sup>* s s'" "ep_ok s" "returned i s" "map_of (ep_workerQueue s) u = Some i"
  shows "map_of (ep_workerQueue s') u = Some i"
  using assms
proof (induction rule: rtranclp_induct)
  case (step x y)
  then have x: "ep_ok x" "returned i x" using returned_run by blast+
  obtain t a where "take_turn P c t x = Next (a, y)" using ep_moves_turn [OF x(1) step.hyps(2)] .
  with registered_turn [OF x] step show ?case by blast
qed simp

section \<open>Properties\<close>



text \<open>
  C40: A worker that ends before it is registered swallows its UUID. The goroutine of a new worker starts before
  \<open>addWorkerByUUID\<close>. In every reachable state in which the worker has returned when \<open>Serve\<close> is about to register it,
  \<open>Serve\<close> puts the returned worker into the queue and goes on to write the event to it; in every
  continuation the queue names this worker for the UUID, its goroutine takes no step, its parser is as it was and its
  channel only fills (an event beyond its 1024 places is refused with an error), and \<open>Serve\<close> hands every later
  event of the UUID to this worker again.
\<close>

theorem stillborn_worker_stays:
  assumes "ep_trace P c tr s" and "ep_serve s = AddWorker e i" and "ew_pc (ep_workers s ! i) = Finished"
  shows "\<exists>s'. serve_step br s = Next (Internal, s') \<and> ep_serve s' = WriteWorker e i \<and>
    (\<forall>s''. (ep_moves P c)\<^sup>*\<^sup>* s' s'' \<longrightarrow>
       map_of (ep_workerQueue s'') (GetUUID e) = Some i \<and> (\<forall>br. worker_step P c br i s'' = Blocked) \<and>
       ew_parser (ep_workers s'' ! i) = ew_parser (ep_workers s ! i) \<and>
       prefix (ew_incoming (ep_workers s ! i)) (ew_incoming (ep_workers s'' ! i)) \<and>
       (\<forall>e' br. ep_serve s'' = GetWorker e' \<and> GetUUID e' = GetUUID e \<longrightarrow>
          (\<exists>t. serve_step br s'' = Next (Internal, t) \<and> ep_serve t = WriteWorker e' i)))"
proof -
  have ok: "ep_ok s" by (rule ep_trace_ok [OF assms(1)])
  then have i: "i < length (ep_workers s)" and u: "ew_UUID (ep_workers s ! i) = GetUUID e" and free: "\<not> ew_used (ep_workers s ! i)"
    using assms(2) by (auto simp: ep_ok_def serve_ok_def worker_ok_def Let_def)
  let ?s = "s\<lparr>ep_workerQueue := AList.update (GetUUID e) i (ep_workerQueue s),
    ep_workers := (ep_workers s)[i := (ep_workers s ! i)\<lparr>ew_used := True\<rparr>], ep_serve := WriteWorker e i\<rparr>"
  have step: "serve_step b s = Next (Internal, ?s)" for b
    using assms(2) free u by (simp add: serve_step_def addWorkerByUUID_def ew_Get_def put_worker_def Let_def)
  have ok': "ep_ok ?s" using serve_step_ok [OF ok] step by blast
  have ret: "returned i ?s" using i assms(3) by (simp add: returned_def)
  have q: "map_of (ep_workerQueue ?s) (GetUUID e) = Some i" by (simp add: AList.update_conv')
  have same: "ew_parser (ep_workers ?s ! i) = ew_parser (ep_workers s ! i)" "ew_incoming (ep_workers ?s ! i) = ew_incoming (ep_workers s ! i)"
    using i by simp_all
  have get: "\<exists>t'. serve_step b t = Next (Internal, t') \<and> ep_serve t' = WriteWorker e' i"
    if "ep_ok t" "map_of (ep_workerQueue t) (GetUUID e) = Some i" "ep_serve t = GetWorker e'" "GetUUID e' = GetUUID e"
      "returned i t" for t e' b
    using that by (auto simp: serve_step_def getWorkerByUUID_def ew_Get_def ep_ok_def worker_ok_def returned_def Let_def)
  show ?thesis
  proof (rule exI [of _ ?s], intro conjI allI impI)
    fix t assume t: "(ep_moves P c)\<^sup>*\<^sup>* ?s t"
    note r = returned_run [OF t ok' ret]
    show "map_of (ep_workerQueue t) (GetUUID e) = Some i" by (rule registered_run [OF t ok' ret q])
    show "worker_step P c b i t = Blocked" for b using r returned_blocked by blast
    show "ew_parser (ep_workers t ! i) = ew_parser (ep_workers s ! i)"
      "prefix (ew_incoming (ep_workers s ! i)) (ew_incoming (ep_workers t ! i))"
      using r same by (simp_all add: only_gets_def)
    show "\<exists>t'. serve_step b t = Next (Internal, t') \<and> ep_serve t' = WriteWorker e' i"
      if "ep_serve t = GetWorker e' \<and> GetUUID e' = GetUUID e" for e' b
      using that r by (intro get registered_run [OF t ok' ret q]) simp_all
  qed (simp_all add: step)
qed

section \<open>Concrete runs\<close>


definition stillborn_schedule :: "turn list" where
  "stillborn_schedule = arrives (sample_event ''7_7_curl_3'' ''GET '') @ serve_on 2 @ ticks 15 0"


lemma stillborn_run:
  "\<exists>tr s. ep_trace default_parsers plain_config tr s \<and> ep_serve s = AddWorker (sample_event ''7_7_curl_3'' ''GET '') 0 \<and>
     ew_pc (ep_workers s ! 0) = Finished"
  by (rule run_schedule_ex [where ts = stillborn_schedule]) code_simp


theorem stillborn_worker_stays_witness:
  "\<exists>tr s. ep_trace default_parsers plain_config tr s \<and>
     (\<forall>s'. (ep_moves default_parsers plain_config)\<^sup>*\<^sup>* s s' \<longrightarrow> map_of (ep_workerQueue s') ''7_7_curl_3'' = Some 0 \<and>
        worker_step default_parsers plain_config OnIncoming 0 s' = Blocked)"
proof -
  obtain tr and s :: "DefaultParser eventProcessor" where run: "ep_trace default_parsers plain_config tr s"
      "ep_serve s = AddWorker (sample_event ''7_7_curl_3'' ''GET '') 0" "ew_pc (ep_workers s ! 0) = Finished"
    using stillborn_run by blast
  from stillborn_worker_stays [OF this, of DefaultOrDone] obtain s' where
    s': "serve_step DefaultOrDone s = Next (Internal, s')"
    "\<forall>s''. (ep_moves default_parsers plain_config)\<^sup>*\<^sup>* s' s'' \<longrightarrow> map_of (ep_workerQueue s'') ''7_7_curl_3'' = Some 0 \<and>
        worker_step default_parsers plain_config OnIncoming 0 s'' = Blocked"
    by (auto simp: sample_event_def)
  have "\<not> ep_panic s" using ep_trace_ok [OF run(1)] by (simp add: ep_ok_def)
  with s'(1) have "take_turn default_parsers plain_config (Serve DefaultOrDone) s = Next (Internal, s')" by (simp add: take_turn_def)
  from ep_trace.step [OF run(1) ep_step.moves [OF this]] s'(2) show ?thesis by blast
qed

end
