(* ===== verification/Event_Liveness.thy ===== *)
theory Event_Liveness
  imports Event_Delivery "HOL-Library.Sublist"
begin

text \<open>
  \<open>Close\<close> returns. After \<open>isClosed\<close> is set the work left for \<open>Serve\<close> can only shrink (\<open>serve_work\<close>), so a
  \<open>Serve\<close> that keeps being scheduled gets to the point where it waits for the workers; from there on
  every step of any goroutine brings the end nearer (\<open>rest_work\<close>) and some step is always possible. The locale
  \<open>eventual\<close> is the argument both halves share.
\<close>

section \<open>Reaching a goal\<close>

locale eventual =
  fixes moves :: "'s \<Rightarrow> 's \<Rightarrow> bool" and helps :: "'s \<Rightarrow> 's \<Rightarrow> bool" and inv :: "'s \<Rightarrow> bool" and goal :: "'s \<Rightarrow> bool"
    and work :: "'s \<Rightarrow> nat"
  assumes kept: "inv s \<Longrightarrow> moves s t \<Longrightarrow> inv t"
    and helped: "inv s \<Longrightarrow> \<not> goal s \<Longrightarrow> helps s t \<Longrightarrow> goal t \<or> work t < work s"
    and unhurt: "inv s \<Longrightarrow> \<not> goal s \<Longrightarrow> moves s t \<Longrightarrow> goal t \<or> work t \<le> work s"
begin

lemma run_inv:
  assumes "inv (\<sigma> 0)" "\<forall>n. moves (\<sigma> n) (\<sigma> (Suc n)) \<or> \<sigma> (Suc n) = \<sigma> n"
  shows "inv (\<sigma> n)"
  by (induction n) (use assms kept in \<open>simp, metis\<close>)

lemma reaches_goal:
  assumes start: "inv (\<sigma> 0)" and run: "\<forall>n. moves (\<sigma> n) (\<sigma> (Suc n)) \<or> \<sigma> (Suc n) = \<sigma> n"
    and fair: "\<forall>n. \<exists>k \<ge> n. goal (\<sigma> k) \<or> helps (\<sigma> k) (\<sigma> (Suc k))"
  shows "\<exists>n. goal (\<sigma> n)"
proof (rule ccontr)
  assume "\<nexists>n. goal (\<sigma> n)"
  then have never: "\<not> goal (\<sigma> n)" for n by blast
  have shrinks: "work (\<sigma> (Suc n)) \<le> work (\<sigma> n)" for n
    using run unhurt [OF run_inv [OF start run] never] never by (metis order.refl)
  obtain n where least: "\<forall>k. work (\<sigma> n) \<le> work (\<sigma> k)"
    using ex_has_least_nat [of "\<lambda>_. True" 0 "\<lambda>n. work (\<sigma> n)"] by auto
  obtain k where k: "n \<le> k" "helps (\<sigma> k) (\<sigma> (Suc k))" using fair never by blast
  have "work (\<sigma> (Suc k)) < work (\<sigma> k)"
    using helped [OF run_inv [OF start run] never k(2)] never by blast
  also have "work (\<sigma> k) \<le> work (\<sigma> n)" using lift_Suc_antimono_le [of "\<lambda>n. work (\<sigma> n)"] shrinks k(1) by blast
  finally show False using least by (metis leD)
qed

end

section \<open>Work of the workers\<close>

lemma sum_list_put:
  fixes f :: "'a \<Rightarrow> nat"
  assumes "i < length xs"
  shows "sum_list (map f (xs[i := x])) + f (xs ! i) = sum_list (map f xs) + f x"
  using assms
proof (induction xs arbitrary: i)
  case (Cons y xs)
  then show ?case by (cases i) auto
qed simp

text \<open>Outputs a worker may still produce, counted against \<open>Serve\<close>.\<close>

definition worker_output :: "'p eventWorker \<Rightarrow> nat" where
  "worker_output ew = 2 * length (ew_incoming ew) + (if ew_payload ew = [] then 0 else 1)"

text \<open>Steps a worker may still take once nobody sends to it and, if it has a socket, it was told to close.\<close>

definition worker_rest :: "'p eventWorker \<Rightarrow> nat" where
  "worker_rest ew = 20 * length (ew_incoming ew) +
     (case ew_pc ew of
        Running \<Rightarrow> if ew_ticking ew then 21 - unat (ew_tickerCount ew) else 5
      | Draining leave \<Rightarrow> if leave then 4 else 9
      | Checking leave \<Rightarrow> if leave then 3 else 8
      | Closing leave \<Rightarrow> if leave then 2 else 7
      | Finished \<Rightarrow> 0)"

lemma worker_output_writeEvent: "worker_output (ew_writeEvent c e ew) \<le> worker_output ew + 1"
  by (auto simp: worker_output_def)

lemma worker_output_receive: "worker_output (ew_receive c e ew) \<le> worker_output ew + 1"
  by (auto simp: worker_output_def)

text \<open>
  What one step of a worker does: it replaces the worker, keeps its flag, may lower the queue entry, and may add one
  output.
\<close>

lemma worker_step_shape:
  assumes "worker_step P c br i s = Next (a, s')"
  obtains ew where "i < length (ep_workers s)" "ep_workers s' = (ep_workers s)[i := ew]"
    "ep_serve s' = ep_serve s" "ep_incoming s' = ep_incoming s" "ep_writers s' = ep_writers s"
    "ep_destroyConn s' = ep_destroyConn s" "ep_destroyers s' = ep_destroyers s" "ep_draining s' = ep_draining s"
    "ep_isClosed s' = ep_isClosed s" "ep_errChan s' = ep_errChan s"
    "worker_output ew + length (ep_outComing s') \<le> worker_output (ep_workers s ! i) + length (ep_outComing s)"
proof -
  let ?ew = "ep_workers s ! i"
  from assms have i: "i < length (ep_workers s)" by (auto simp: worker_step_def split: if_splits)
  show ?thesis
  proof (cases "ew_pc ?ew")
    case (Closing leave)
    then obtain ew' out where close: "ew_Close P c ?ew = Some (ew', out)"
        "s' = writeToChan out (put_worker i (ew_after_drain leave ew') s)"
      using assms i by (auto simp: worker_step_def Let_def split: option.splits)
    have "length (ep_outComing s') \<le> length (ep_outComing s) + (if out = None then 0 else 1)"
      by (auto simp: close(2) writeToChan_def split: option.splits)
    moreover have "worker_output (ew_after_drain leave ew') + (if out = None then 0 else 1) \<le> worker_output ?ew"
      using ew_Close_sel [OF close(1)] by (auto simp: worker_output_def)
    ultimately show ?thesis using i by (intro that [of "ew_after_drain leave ew'"]) (auto simp: close(2))
  qed (use assms i in \<open>auto simp: worker_step_def run_select_def Let_def worker_output_def split: run_branch.splits list.splits if_splits intro: that\<close>)
qed

section \<open>Serve gets to wait for the workers\<close>

definition serve_moves :: "'p IParser \<Rightarrow> ep_config \<Rightarrow> 'p eventProcessor \<Rightarrow> 'p eventProcessor \<Rightarrow> bool" where
  "serve_moves P c s s' \<longleftrightarrow> (\<exists>br a. ep_step P c (Serve br) a s s')"

definition waiting :: "'p eventProcessor \<Rightarrow> bool" where
  "waiting s \<longleftrightarrow> ep_serve s \<in> {WaitWorkers, FlushOut, Returned}"

definition closed_ok :: "'p eventProcessor \<Rightarrow> bool" where
  "closed_ok s \<longleftrightarrow> ep_ok s \<and> ep_isClosed s"

fun serve_left :: "serve_pc \<Rightarrow> nat" where
  "serve_left (GetWorker e) = 7"
| "serve_left (NewWorker e) = 6"
| "serve_left (AddWorker e i) = 5"
| "serve_left (WriteWorker e i) = 4"
| "serve_left (PutWorker i err) = 1"
| "serve_left _ = 0"

definition serve_work :: "'p eventProcessor \<Rightarrow> nat" where
  "serve_work s = 10 * length (ep_writers s) + 9 * length (ep_incoming s) + serve_left (ep_serve s)
     + sum_list (map worker_output (ep_workers s)) + length (ep_outComing s)
     + length (ep_destroyers s) + length (ep_destroyConn s) + (if ep_draining s then 0 else 1)"

lemma serve_moves_turn:
  assumes "ep_ok s" "serve_moves P c s s'"
  obtains br a where "serve_step br s = Next (a, s')"
  using assms take_turn_ok [OF assms(1)] by (auto simp: serve_moves_def take_turn_def elim!: ep_stepE split: if_splits)

lemma length_remove_at: "k < length xs \<Longrightarrow> length (remove_at k xs) = length xs - 1"
  by (simp add: remove_at_def)

lemma isClosed_stays: "take_turn P c t s = Next (a, s') \<Longrightarrow> ep_isClosed s \<Longrightarrow> ep_isClosed s'"
proof (cases t)
  case (Serve br)
  assume "take_turn P c t s = Next (a, s')" "ep_isClosed s"
  with Serve show ?thesis
    by (cases "ep_serve s"; cases br)
      (auto simp: take_turn_def serve_step_def serve_select_def drain_select_def wait_select_def flush_select_def
        take_incoming_def take_outComing_def destroyWorkers_def getWorkerByUUID_def NewEventWorker_def addWorkerByUUID_def
        ew_Write_def Let_def split: if_splits list.splits option.splits prod.splits)
next
  case (Worker i br)
  assume "take_turn P c t s = Next (a, s')" "ep_isClosed s"
  with Worker show ?thesis by (auto simp: take_turn_def split: if_splits elim: worker_step_shape)
next
  case (Caller f)
  assume "take_turn P c t s = Next (a, s')" "ep_isClosed s"
  with Caller show ?thesis
    by (cases f) (auto simp: take_turn_def call_step_def Let_def split: if_splits list.splits)
qed

lemma worker_step_serve_work: "worker_step P c br i s = Next (a, s') \<Longrightarrow> serve_work s' \<le> serve_work s"
proof (elim worker_step_shape)
  fix ew assume "i < length (ep_workers s)" and s': "ep_workers s' = (ep_workers s)[i := ew]"
    "ep_serve s' = ep_serve s" "ep_incoming s' = ep_incoming s" "ep_writers s' = ep_writers s"
    "ep_destroyConn s' = ep_destroyConn s" "ep_destroyers s' = ep_destroyers s" "ep_draining s' = ep_draining s"
    and less: "worker_output ew + length (ep_outComing s') \<le> worker_output (ep_workers s ! i) + length (ep_outComing s)"
  then show ?thesis
    using sum_list_put [of i "ep_workers s" worker_output ew] less by (simp add: serve_work_def s')
qed

lemma call_step_serve_work:
  "call_step f s = Next (a, s') \<Longrightarrow> ep_isClosed s \<Longrightarrow> serve_work s' \<le> serve_work s"
  by (cases f) (auto simp: call_step_def serve_work_def length_remove_at Let_def split: if_splits list.splits)

lemma sum_output_put:
  assumes "worker_output ew = worker_output (ws ! i)"
  shows "sum_list (map worker_output (ws[i := ew])) = sum_list (map worker_output ws)"
proof (cases "i < length ws")
  case True
  from sum_list_put [OF this, of worker_output ew] assms show ?thesis by simp
qed (simp add: not_less list_update_beyond)

lemma sum_output_close [simp]:
  "sum_list (map worker_output (ws[i := CloseEventWorker (ws ! i)])) = sum_list (map worker_output ws)"
  "sum_list (map worker_output (ws[i := (ws ! i)\<lparr>ew_used := u\<rparr>])) = sum_list (map worker_output ws)"
  by (simp_all add: sum_output_put worker_output_def)

lemma take_channel_serve_work:
  "take_incoming s = Next (a, s') \<Longrightarrow> ep_serve s = Select \<Longrightarrow> serve_work s' < serve_work s"
  "take_outComing s = Next (a, s') \<Longrightarrow> serve_work s' < serve_work s"
  by (auto simp: take_incoming_def take_outComing_def serve_work_def split: list.splits)

lemma destroyWorkers_serve_work: "serve_work (destroyWorkers entries d s) = serve_work s"
  by (auto simp: destroyWorkers_def serve_work_def split: option.splits)

lemma dispatch_serve_work:
  fixes s :: "'p eventProcessor"
  assumes ok: "ep_ok s" and pc: "ep_serve s \<notin> {Select, WaitWorkers, FlushOut, Returned}"
    and step: "serve_step br s = Next (a, s')"
  shows "serve_work s' < serve_work s"
proof (cases "ep_serve s")
  case (GetWorker e)
  with step show ?thesis
    by (auto simp: serve_step_def getWorkerByUUID_def ew_Get_def serve_work_def split: option.splits if_splits)
next
  case (NewWorker e)
  with step show ?thesis
    by (auto simp: serve_step_def NewEventWorker_def serve_work_def worker_output_def dest!: ew_init_ok split: option.splits)
next
  case (AddWorker e i)
  with step show ?thesis
    by (auto simp: serve_step_def addWorkerByUUID_def ew_Get_def serve_work_def Let_def split: option.splits if_splits)
next
  case (WriteWorker e i)
  then have i: "i < length (ep_workers s)" using ok by (simp add: ep_ok_def serve_ok_def)
  obtain ew err where w: "ew_Write e (ep_workers s ! i) = (ew, err)" by fastforce
  have "worker_output ew \<le> worker_output (ep_workers s ! i) + 2"
    using w by (auto simp: ew_Write_def worker_output_def split: if_splits)
  with WriteWorker step w sum_list_put [OF i, of worker_output ew] show ?thesis
    by (auto simp: serve_step_def serve_work_def)
next
  case (PutWorker i err)
  with step show ?thesis
    by (auto simp: serve_step_def ew_Put_def serve_work_def split: option.splits if_splits)
qed (use pc in auto)

lemma serve_step_serve_work:
  assumes ok: "ep_ok s" and step: "serve_step br s = Next (a, s')" and busy: "\<not> waiting s"
  shows "waiting s' \<or> serve_work s' < serve_work s"
proof (cases "ep_serve s = Select")
  case True
  show ?thesis
  proof (cases "ep_draining s")
    case True
    with step \<open>ep_serve s = Select\<close> show ?thesis
      by (cases br) (auto simp: serve_step_def drain_select_def waiting_def take_channel_serve_work split: if_splits)
  next
    case False
    have "serve_work (s\<lparr>ep_destroyConn := ds\<rparr>) < serve_work s" if "ep_destroyConn s = d # ds" for d ds
      using that by (simp add: serve_work_def)
    moreover have "serve_work (s\<lparr>ep_draining := True\<rparr>) < serve_work s" using False by (simp add: serve_work_def)
    ultimately show ?thesis using False step \<open>ep_serve s = Select\<close>
      by (cases br) (auto simp: serve_step_def serve_select_def take_channel_serve_work destroyWorkers_serve_work split: if_splits list.splits)
  qed
next
  case False
  with dispatch_serve_work [OF ok _ step] busy show ?thesis by (auto simp: waiting_def)
qed

interpretation serving: eventual "ep_moves P c" "serve_moves P c" closed_ok waiting serve_work for P c
proof
  fix s t :: "'a eventProcessor"
  assume inv: "closed_ok s"
  then have ok: "ep_ok s" and closed: "ep_isClosed s" by (auto simp: closed_ok_def)
  show "closed_ok t" if "ep_moves P c s t"
    using that closed take_turn_ok [OF ok] isClosed_stays by (fastforce simp: closed_ok_def elim: ep_moves_turn [OF ok])
  show "waiting t \<or> serve_work t < serve_work s" if "\<not> waiting s" "serve_moves P c s t"
    using that serve_step_serve_work [OF ok] by (auto elim: serve_moves_turn [OF ok])
  show "waiting t \<or> serve_work t \<le> serve_work s" if busy: "\<not> waiting s" and moves: "ep_moves P c s t"
  proof -
    obtain tn a where "take_turn P c tn s = Next (a, t)" using ep_moves_turn [OF ok moves] .
    then show ?thesis
      using serve_step_serve_work [OF ok _ busy] worker_step_serve_work [of P c _ _ s a t] call_step_serve_work [of _ s a t] closed
      by (cases tn) (fastforce simp: take_turn_def split: if_splits)+
  qed
qed

section \<open>Everybody comes to an end\<close>

definition rest_work :: "'p eventProcessor \<Rightarrow> nat" where
  "rest_work s = 2 * length (ep_writers s) + length (ep_incoming s) + 2 * length (ep_destroyers s) + length (ep_destroyConn s)
     + length (ep_errChan s) + length (ep_outComing s) + sum_list (map worker_rest (ep_workers s))
     + (case ep_serve s of WaitWorkers \<Rightarrow> 2 | FlushOut \<Rightarrow> 1 | _ \<Rightarrow> 0)"

definition waiting_ok :: "'p eventProcessor \<Rightarrow> bool" where
  "waiting_ok s \<longleftrightarrow> ep_ok s \<and> waiting s"

lemma waiting_free: "waiting_ok s \<Longrightarrow> i < length (ep_workers s) \<Longrightarrow> \<not> ew_used (ep_workers s ! i)"
  by (auto simp: waiting_ok_def waiting_def ep_ok_def worker_ok_def Let_def)

lemma count_bound:
  assumes "ew_ok ew"
  shows "unat (ew_tickerCount ew) \<le> 11"
    and "\<not> MaxTickerCount < ew_tickerCount ew \<Longrightarrow> unat (ew_tickerCount ew + 1) = unat (ew_tickerCount ew) + 1 \<and> unat (ew_tickerCount ew) \<le> 10"
  using assms by (auto simp: ew_ok_def MaxTickerCount_def word_le_nat_alt word_less_nat_alt unat_word_ariths)

lemma worker_rest_receive:
  assumes "ew_pc ew = Running" "ew_incoming ew = e # es" "ew_ok ew"
  shows "worker_rest (ew_receive c e (ew\<lparr>ew_incoming := es\<rparr>)) < worker_rest ew"
  using assms count_bound(1) [OF assms(3)] by (auto simp: worker_rest_def)

lemma run_select_rest:
  assumes ok: "ew_ok (ep_workers s ! i)" and run: "ew_pc (ep_workers s ! i) = Running"
    and step: "run_select c br i s = Next (a, s')"
  shows "\<exists>ew. ep_workers s' = (ep_workers s)[i := ew] \<and> ep_outComing s' = ep_outComing s \<and>
    worker_rest ew < worker_rest (ep_workers s ! i)"
proof (cases br)
  case OnTicker
  with step run count_bound [OF ok] show ?thesis
    by (auto simp: run_select_def Let_def worker_rest_def split: if_splits)
next
  case OnIncoming
  then obtain e es where "ew_incoming (ep_workers s ! i) = e # es"
      "s' = put_worker i (ew_receive c e ((ep_workers s ! i)\<lparr>ew_incoming := es\<rparr>)) s"
    using step by (auto simp: run_select_def Let_def split: list.splits)
  with worker_rest_receive [OF run _ ok] show ?thesis by auto
next
  case OnCloseChan
  with step run count_bound(1) [OF ok] show ?thesis
    by (auto simp: run_select_def Let_def worker_rest_def split: if_splits)
qed

lemma worker_step_rest:
  assumes wait: "waiting_ok s" and step: "worker_step P c br i s = Next (a, s')"
  shows "\<exists>ew. ep_workers s' = (ep_workers s)[i := ew] \<and> worker_rest ew + length (ep_outComing s') <
    worker_rest (ep_workers s ! i) + length (ep_outComing s)"
proof -
  let ?ew = "ep_workers s ! i"
  from step have i: "i < length (ep_workers s)" by (auto simp: worker_step_def split: if_splits)
  have w: "ew_ok ?ew" using wait i by (simp add: waiting_ok_def ep_ok_worker)
  show ?thesis
  proof (cases "ew_pc ?ew")
    case Running
    with step i run_select_rest [OF w Running] show ?thesis by (fastforce simp: worker_step_def Let_def)
  next
    case (Closing leave)
    then obtain ew' out where close: "ew_Close P c ?ew = Some (ew', out)"
        "s' = writeToChan out (put_worker i (ew_after_drain leave ew') s)"
      using step i by (auto simp: worker_step_def Let_def split: option.splits)
    have "length (ep_outComing s') \<le> length (ep_outComing s) + 1"
      by (auto simp: close(2) writeToChan_def split: option.splits)
    moreover have "worker_rest (ew_after_drain leave ew') + 1 < worker_rest ?ew"
      using Closing ew_Close_sel [OF close(1)] by (auto simp: worker_rest_def ew_after_drain_def)
    ultimately show ?thesis by (intro exI [of _ "ew_after_drain leave ew'"]) (simp add: close(2))
  qed (use step i waiting_free [OF wait i] in \<open>auto simp: worker_step_def Let_def worker_rest_def split: list.splits\<close>)
qed

lemma worker_step_rest_work:
  assumes "waiting_ok s" "worker_step P c br i s = Next (a, s')"
  shows "rest_work s' < rest_work s"
proof -
  obtain ew where ew: "ep_workers s' = (ep_workers s)[i := ew]"
      "worker_rest ew + length (ep_outComing s') < worker_rest (ep_workers s ! i) + length (ep_outComing s)"
    using worker_step_rest [OF assms] by blast
  show ?thesis
    using assms(2)
  proof (elim worker_step_shape)
    assume "i < length (ep_workers s)" and s': "ep_serve s' = ep_serve s" "ep_incoming s' = ep_incoming s"
      "ep_writers s' = ep_writers s" "ep_destroyConn s' = ep_destroyConn s" "ep_destroyers s' = ep_destroyers s"
      "ep_errChan s' = ep_errChan s"
    then show ?thesis
      using sum_list_put [of i "ep_workers s" worker_rest ew] ew by (simp add: rest_work_def)
  qed
qed

lemma serve_step_rest_work:
  assumes "waiting s" "serve_step br s = Next (a, s')"
  shows "waiting s' \<and> rest_work s' < rest_work s"
  using assms
  by (cases br) (auto simp: waiting_def serve_step_def wait_select_def flush_select_def take_outComing_def rest_work_def
      split: if_splits list.splits)

lemma call_step_rest_work:
  assumes "waiting_ok s" "call_step f s = Next (a, s')"
  shows "waiting s' \<and> rest_work s' < rest_work s"
proof -
  have "ep_isClosed s" using assms(1) by (auto simp: waiting_ok_def waiting_def ep_ok_def serve_ok_def)
  with assms show ?thesis
    by (cases f) (auto simp: call_step_def waiting_ok_def waiting_def rest_work_def length_remove_at Let_def
        split: if_splits list.splits)
qed

lemma turn_rest_work:
  assumes "waiting_ok s" "take_turn P c t s = Next (a, s')"
  shows "waiting_ok s' \<and> rest_work s' < rest_work s"
proof -
  have ok: "ep_ok s" "waiting s" using assms(1) by (auto simp: waiting_ok_def)
  have "waiting s' \<and> rest_work s' < rest_work s"
  proof (cases t)
    case (Worker i br)
    with assms(2) have step: "worker_step P c br i s = Next (a, s')" by (simp add: take_turn_def split: if_splits)
    then have "ep_serve s' = ep_serve s" by (rule worker_step_shape)
    with ok(2) worker_step_rest_work [OF assms(1) step] show ?thesis by (simp add: waiting_def)
  qed (use assms serve_step_rest_work [OF ok(2)] call_step_rest_work [OF assms(1)] in \<open>auto simp: take_turn_def split: if_splits\<close>)
  with take_turn_ok [OF ok(1)] assms(2) show ?thesis by (simp add: waiting_ok_def)
qed

interpretation ending: eventual "ep_moves P c" "ep_moves P c" waiting_ok "\<lambda>s. ep_serve s = Returned" rest_work for P c
proof
  fix s t :: "'a eventProcessor"
  assume inv: "waiting_ok s"
  have step: "waiting_ok t \<and> rest_work t < rest_work s" if "ep_moves P c s t"
    using that turn_rest_work [OF inv] inv by (auto simp: waiting_ok_def elim!: ep_moves_turn [rotated])
  show "waiting_ok t" if "ep_moves P c s t" using step [OF that] by simp
  show "ep_serve t = Returned \<or> rest_work t < rest_work s" if "ep_moves P c s t" using step [OF that] by simp
  show "ep_serve t = Returned \<or> rest_work t \<le> rest_work s" if "ep_moves P c s t" using step [OF that] by simp
qed

lemma worker_not_stuck:
  assumes wait: "waiting_ok s" "ep_serve s = WaitWorkers" and i: "i < length (ep_workers s)"
    and busy: "ew_pc (ep_workers s ! i) \<noteq> Finished"
  shows "\<exists>br a s'. worker_step P c br i s = Next (a, s')"
proof (cases "ew_pc (ep_workers s ! i) = Running")
  case True
  let ?ew = "ep_workers s ! i"
  have w: "ew_ok ?ew" using wait i by (simp add: waiting_ok_def ep_ok_worker)
  have shut: "ew_closeChan ?ew \<noteq> Some False"
    using wait i by (simp add: waiting_ok_def ep_ok_def serve_ok_def ew_open_def)
  show ?thesis
  proof (cases "ew_ticking ?ew")
    case True
    with i \<open>ew_pc ?ew = Running\<close> show ?thesis
      by (intro exI [of _ OnTicker]) (simp add: worker_step_def run_select_def Let_def)
  next
    case False
    then have "ew_closeChan ?ew = Some True" using w True shut by (cases "ew_closeChan ?ew") (auto simp: ew_ok_def)
    with i \<open>ew_pc ?ew = Running\<close> show ?thesis
      by (intro exI [of _ OnCloseChan]) (simp add: worker_step_def run_select_def Let_def)
  qed
next
  case False
  obtain ew' out where "ew_Close P c (ep_workers s ! i) = Some (ew', out)"
    using ew_Close_returns [OF ep_ok_worker [OF _ i], of P c] wait(1) unfolding waiting_ok_def by blast
  with False busy i show ?thesis
    by (cases "ew_pc (ep_workers s ! i)") (auto simp: worker_step_def Let_def split: list.splits)
qed

lemma waiting_not_stuck:
  assumes "waiting_ok s" "ep_serve s \<noteq> Returned"
  shows "\<exists>s'. ep_moves P c s s'"
proof -
  have alive: "\<not> ep_panic s" using assms(1) by (simp add: waiting_ok_def ep_ok_def)
  have serve: ?thesis if "serve_step br s = Next (a, s')" for br a s'
    using that alive by (auto simp: ep_moves_def take_turn_def intro!: exI [of _ s'] exI [of _ "Serve br"] exI [of _ a] ep_step.moves)
  consider (out) b bs where "ep_outComing s = b # bs" | (flush) "ep_serve s = FlushOut" "ep_outComing s = []"
    | (ended) "ep_serve s = WaitWorkers" "list_all (\<lambda>ew. ew_pc ew = Finished) (ep_workers s)"
    | (worker) i where "ep_serve s = WaitWorkers" "i < length (ep_workers s)" "ew_pc (ep_workers s ! i) \<noteq> Finished"
    using assms by (cases "ep_outComing s") (auto simp: waiting_ok_def waiting_def list_all_length)
  then show ?thesis
  proof cases
    case out
    have "take_outComing s = Next (Internal, s\<lparr>ep_outComing := bs, ep_logger := ep_logger s @ [b]\<rparr>)"
      using out by (simp add: take_outComing_def)
    with assms show ?thesis
      by (intro serve [of FromOutComing]) (auto simp: waiting_ok_def waiting_def serve_step_def wait_select_def flush_select_def)
  next
    case flush
    then show ?thesis by (intro serve [of DefaultOrDone]) (simp add: serve_step_def flush_select_def)
  next
    case ended
    then show ?thesis by (intro serve [of DefaultOrDone]) (simp add: serve_step_def wait_select_def)
  next
    case (worker i)
    then obtain br a s' where "worker_step P c br i s = Next (a, s')"
      using worker_not_stuck [OF assms(1)] by blast
    with alive show ?thesis
      by (auto simp: ep_moves_def take_turn_def intro!: exI [of _ s'] exI [of _ "Worker i br"] exI [of _ a] ep_step.moves)
  qed
qed

section \<open>Runs\<close>

text \<open>
  A run goes on as long as some goroutine can move (ticks included: time passes); \<open>Serve\<close> is not
  starved before it waits for the workers.
\<close>

definition full_run :: "'p IParser \<Rightarrow> ep_config \<Rightarrow> (nat \<Rightarrow> 'p eventProcessor) \<Rightarrow> bool" where
  "full_run P c \<sigma> \<longleftrightarrow> (\<forall>n. ep_moves P c (\<sigma> n) (\<sigma> (Suc n)) \<or> (\<sigma> (Suc n) = \<sigma> n \<and> (\<nexists>s. ep_moves P c (\<sigma> n) s)))"

definition serve_scheduled :: "'p IParser \<Rightarrow> ep_config \<Rightarrow> (nat \<Rightarrow> 'p eventProcessor) \<Rightarrow> bool" where
  "serve_scheduled P c \<sigma> \<longleftrightarrow> (\<forall>n. \<exists>k \<ge> n. waiting (\<sigma> k) \<or> serve_moves P c (\<sigma> k) (\<sigma> (Suc k)))"

lemma full_run_from: "full_run P c \<sigma> \<Longrightarrow> full_run P c (\<lambda>n. \<sigma> (n + k))"
  by (simp add: full_run_def)

lemma waiting_run_returns:
  assumes "waiting_ok (\<sigma> 0)" "full_run P c \<sigma>"
  shows "\<exists>n. ep_serve (\<sigma> n) = Returned"
proof (rule ending.reaches_goal [where \<sigma> = \<sigma>])
  show run: "\<forall>n. ep_moves P c (\<sigma> n) (\<sigma> (Suc n)) \<or> \<sigma> (Suc n) = \<sigma> n"
    using assms(2) by (auto simp: full_run_def)
  show "\<forall>n. \<exists>k \<ge> n. ep_serve (\<sigma> k) = Returned \<or> ep_moves P c (\<sigma> k) (\<sigma> (Suc k))"
    using assms(2) waiting_not_stuck [OF ending.run_inv [OF assms(1) run]] unfolding full_run_def by (metis order.refl)
qed (rule assms(1))

section \<open>What was put out is written\<close>

text \<open>The lines of the logger, and those on their way to it.\<close>

definition outputs :: "'p eventProcessor \<Rightarrow> bytes list" where
  "outputs s = ep_logger s @ ep_outComing s"

lemma logger_frame [simp]:
  "ep_logger (put_worker i ew s) = ep_logger s" "ep_logger (delWorkerByUUID i s) = ep_logger s"
  "ep_logger (report_error err s) = ep_logger s" "ep_logger (writeToChan out s) = ep_logger s"
  "ep_logger (destroyWorkers entries d s) = ep_logger s" "ep_outComing (destroyWorkers entries d s) = ep_outComing s"
  by (auto simp: put_worker_def delWorkerByUUID_def report_error_def writeToChan_def destroyWorkers_def split: option.splits)

lemma signalWorkers_logger [simp]: "ep_logger (signalWorkers s) = ep_logger s"
proof -
  have "ep_logger (fold (\<lambda>(_, i) s. put_worker i (CloseEventWorker (ep_workers s ! i)) s) es s) = ep_logger s" for es
    by (induction es arbitrary: s) (simp_all add: case_prod_beta)
  then show ?thesis by (simp add: signalWorkers_def)
qed

lemma serve_step_outputs: "serve_step br s = Next (a, s') \<Longrightarrow> outputs s' = outputs s"
  by (cases "ep_serve s"; cases br)
    (auto simp: serve_step_def serve_select_def drain_select_def wait_select_def flush_select_def outputs_def
      take_incoming_def take_outComing_def getWorkerByUUID_def NewEventWorker_def addWorkerByUUID_def
      ew_Write_def Let_def split: if_splits list.splits option.splits prod.splits)

lemma worker_step_outputs: "worker_step P c br i s = Next (a, s') \<Longrightarrow> prefix (outputs s) (outputs s')"
  by (cases "ew_pc (ep_workers s ! i)"; cases br)
    (auto simp: worker_step_def run_select_def Let_def outputs_def writeToChan_def split: if_splits list.splits option.splits)

lemma call_step_outputs: "call_step f s = Next (a, s') \<Longrightarrow> outputs s' = outputs s \<and> ep_serve s' = ep_serve s"
  by (cases f) (auto simp: call_step_def Let_def outputs_def split: if_splits list.splits)

lemma moves_outputs:
  assumes "ep_ok s" "ep_moves P c s s'"
  shows "prefix (outputs s) (outputs s')"
proof -
  obtain t a where "take_turn P c t s = Next (a, s')" using ep_moves_turn [OF assms] .
  then show ?thesis
    using serve_step_outputs worker_step_outputs call_step_outputs by (cases t) (fastforce simp: take_turn_def split: if_splits)+
qed

text \<open>After the return of \<open>Serve\<close> nothing is put out any more: every worker has ended.\<close>

lemma returned_outputs:
  assumes ok: "ep_ok s" and ret: "ep_serve s = Returned" and moves: "ep_moves P c s s'"
  shows "ep_serve s' = Returned \<and> outputs s' = outputs s"
proof -
  obtain t a where turn: "take_turn P c t s = Next (a, s')" using ep_moves_turn [OF ok moves] .
  have "worker_step P c br i s = Blocked" for br i using ok ret by (simp add: ep_ok_def serve_ok_def worker_step_def)
  with turn ret show ?thesis
    by (cases t) (auto simp: take_turn_def serve_step_def dest: call_step_outputs split: if_splits)
qed

lemma run_outputs:
  assumes ok: "\<And>n. ep_ok (\<sigma> n)" and run: "\<forall>n. ep_moves P c (\<sigma> n) (\<sigma> (Suc n)) \<or> \<sigma> (Suc n) = \<sigma> n" and ret: "ep_serve (\<sigma> n) = Returned"
  shows "prefix (outputs (\<sigma> m)) (outputs (\<sigma> n))"
proof (cases "m \<le> n")
  case True
  have "prefix (outputs (\<sigma> k)) (outputs (\<sigma> (Suc k)))" for k using run moves_outputs [OF ok] by (metis prefix_order.refl)
  then show ?thesis using prefix_order.lift_Suc_mono_le [of "\<lambda>k. outputs (\<sigma> k)"] True by blast
next
  case False
  have "ep_serve (\<sigma> (n + k)) = Returned \<and> outputs (\<sigma> (n + k)) = outputs (\<sigma> n)" for k
  proof (induction k)
    case (Suc k)
    then show ?case using run returned_outputs [OF ok] by (metis add_Suc_right)
  qed (simp add: ret)
  from this [of "m - n"] False show ?thesis by simp
qed

section \<open>Close returns with everything written\<close>

text \<open>
  C16: \<open>Close\<close> returns with everything finished. From every reachable state in which \<open>isClosed\<close> is set, every run
  in which \<open>Serve\<close> is not starved (and which goes on as long as a goroutine can move) reaches the return of \<open>Serve\<close>,
  which is what \<open>Close\<close> waits for, whatever events, calls, workers and parsers are under way. Then every worker has
  ended, nothing has panicked, and the logger holds, in order, whatever the logger and the outgoing channel
  hold at any other moment of the run: every output that the channel accepts is written.
\<close>

theorem close_returns:
  assumes "ep_trace P c tr (\<sigma> 0)" and "ep_isClosed (\<sigma> 0)" and "full_run P c \<sigma>" and "serve_scheduled P c \<sigma>"
  shows "\<exists>n. ep_serve (\<sigma> n) = Returned \<and> ep_outComing (\<sigma> n) = [] \<and> \<not> ep_panic (\<sigma> n) \<and>
    list_all (\<lambda>ew. ew_pc ew = Finished) (ep_workers (\<sigma> n)) \<and>
    (\<forall>m. prefix (ep_logger (\<sigma> m) @ ep_outComing (\<sigma> m)) (ep_logger (\<sigma> n)))"
proof -
  have run: "\<forall>n. ep_moves P c (\<sigma> n) (\<sigma> (Suc n)) \<or> \<sigma> (Suc n) = \<sigma> n" using assms(3) by (auto simp: full_run_def)
  have start: "closed_ok (\<sigma> 0)" using assms(1,2) ep_trace_ok by (simp add: closed_ok_def)
  obtain k where "waiting (\<sigma> k)"
    using serving.reaches_goal [OF start run] assms(4) by (auto simp: serve_scheduled_def)
  then have "waiting_ok (\<sigma> (0 + k))" using serving.run_inv [OF start run, of k] by (simp add: waiting_ok_def closed_ok_def)
  with waiting_run_returns [OF _ full_run_from [OF assms(3)], of k] obtain n where n: "ep_serve (\<sigma> (n + k)) = Returned" by blast
  have ok: "ep_ok (\<sigma> m)" for m using serving.run_inv [OF start run] by (simp add: closed_ok_def)
  have out: "ep_outComing (\<sigma> (n + k)) = []" using n ok [of "n + k"] by (simp add: ep_ok_def serve_ok_def)
  then have "prefix (outputs (\<sigma> m)) (ep_logger (\<sigma> (n + k)))" for m using run_outputs [OF ok run n, of m] by (simp add: outputs_def)
  with n out ok [of "n + k"] show ?thesis
    by (intro exI [of _ "n + k"]) (simp add: ep_ok_def serve_ok_def list_all_length outputs_def)
qed

section \<open>A run that closes\<close>

text \<open>The run of a schedule as a sequence of states that rests at the end.\<close>

definition states_of :: "'p IParser \<Rightarrow> ep_config \<Rightarrow> turn list \<Rightarrow> 'p eventProcessor \<Rightarrow> nat \<Rightarrow> 'p eventProcessor" where
  "states_of P c ts s n = (case run_schedule P c (take n ts) s of Some (_, s') \<Rightarrow> s' | None \<Rightarrow> s)"

definition quiet :: "'p eventProcessor \<Rightarrow> bool" where
  "quiet s \<longleftrightarrow> ep_serve s = Returned \<and> ep_isClosed s \<and> ep_writers s = [] \<and> ep_destroyers s = [] \<and> ep_errChan s = [] \<and>
     list_all (\<lambda>ew. ew_pc ew = Finished) (ep_workers s)"

lemma quiet_stuck: "quiet s \<Longrightarrow> \<not> ep_moves P c s s'"
proof
  assume q: "quiet s" and "ep_moves P c s s'"
  then obtain t where "take_turn P c t s \<noteq> Blocked" by (fastforce simp: ep_moves_def elim!: ep_stepE)
  with q show False
    by (cases t) (auto simp: quiet_def take_turn_def serve_step_def worker_step_def call_step_def list_all_length
        Let_def split: call.splits if_splits)
qed

lemma run_schedule_append:
  "run_schedule P c (xs @ ys) s =
     (case run_schedule P c xs s of None \<Rightarrow> None
      | Some (as, s1) \<Rightarrow> map_option (\<lambda>(bs, s2). (as @ bs, s2)) (run_schedule P c ys s1))"
  by (induction xs arbitrary: s) (auto simp: option.map_comp option.map_ident comp_def split_def split: option.splits go_outcome.splits)

lemma states_of_step:
  assumes "run_schedule P c ts s = Some (as, s')" "n < length ts"
  shows "ep_moves P c (states_of P c ts s n) (states_of P c ts s (Suc n))"
proof -
  have "ts = take n ts @ ts ! n # drop (Suc n) ts" using assms(2) by (rule id_take_nth_drop)
  then have "run_schedule P c (take n ts @ ts ! n # drop (Suc n) ts) s = Some (as, s')" using assms(1) by simp
  then obtain bs s1 where s1: "run_schedule P c (take n ts) s = Some (bs, s1)"
      "run_schedule P c (ts ! n # drop (Suc n) ts) s1 \<noteq> None"
    by (auto simp: run_schedule_append simp del: run_schedule.simps split: option.splits)
  then obtain a s2 where s2: "take_turn P c (ts ! n) s1 = Next (a, s2)" by (auto split: go_outcome.splits)
  have "run_schedule P c (take (Suc n) ts) s = Some (bs @ [a], s2)"
    using assms(2) s1(1) s2 by (simp add: take_Suc_conv_app_nth run_schedule_append)
  with s1(1) ep_step.moves [OF s2] show ?thesis by (auto simp: states_of_def ep_moves_def)
qed

lemma states_of_full:
  assumes "run_schedule P c ts s = Some (as, s')" "quiet s'"
  shows "full_run P c (states_of P c ts s) \<and> serve_scheduled P c (states_of P c ts s)"
proof -
  have rest: "states_of P c ts s n = s'" if "length ts \<le> n" for n using that assms(1) by (simp add: states_of_def)
  have "ep_moves P c (states_of P c ts s n) (states_of P c ts s (Suc n)) \<or>
      (states_of P c ts s (Suc n) = states_of P c ts s n \<and> (\<nexists>t. ep_moves P c (states_of P c ts s n) t))" for n
    using states_of_step [OF assms(1), of n] rest quiet_stuck [OF assms(2)] by (cases "n < length ts") auto
  moreover have "\<exists>k \<ge> n. waiting (states_of P c ts s k)" for n
    using rest [of "max n (length ts)"] assms(2) by (intro exI [of _ "max n (length ts)"]) (simp add: quiet_def waiting_def)
  ultimately show ?thesis unfolding full_run_def serve_scheduled_def by blast
qed

text \<open>An event is with its worker when the processor is closed; the worker times out, its output is written.\<close>

definition busy_schedule :: "turn list" where
  "busy_schedule = arrives (sample_event ''7_7_curl_3'' ''GET '') @ serve_on 5 @ [Caller Call_Close]"

definition close_schedule :: "turn list" where
  "close_schedule = [Serve FromCloseChan, Serve DefaultOrDone, Worker 0 OnIncoming] @ ticks 15 0
     @ [Serve FromOutComing] @ serve_on 2"

lemma close_run:
  "\<exists>tr s as s'. run_schedule default_parsers plain_config busy_schedule NewEventProcessor = Some (tr, s) \<and>
     run_schedule default_parsers plain_config close_schedule s = Some (as, s') \<and>
     ep_isClosed s \<and> ep_logger s = [] \<and> quiet s' \<and> length (ep_logger s') = 1"
proof -
  have "case run_schedule default_parsers plain_config busy_schedule NewEventProcessor of None \<Rightarrow> False
    | Some (tr, s) \<Rightarrow> ep_isClosed s \<and> ep_logger s = [] \<and>
        (case run_schedule default_parsers plain_config close_schedule s of None \<Rightarrow> False
         | Some (as, s') \<Rightarrow> quiet s' \<and> length (ep_logger s') = 1)"
    by code_simp
  then show ?thesis by (auto split: option.splits)
qed

theorem close_returns_witness:
  "\<exists>(\<sigma> :: nat \<Rightarrow> DefaultParser eventProcessor) n.
     ep_logger (\<sigma> 0) = [] \<and> ep_serve (\<sigma> n) = Returned \<and> ep_outComing (\<sigma> n) = [] \<and> ep_logger (\<sigma> n) \<noteq> []"
proof -
  let ?run = "run_schedule default_parsers plain_config"
  obtain tr s as s' where run: "?run busy_schedule NewEventProcessor = Some (tr, s)" "?run close_schedule s = Some (as, s')"
      "ep_isClosed s" "ep_logger s = []" "quiet s'" "length (ep_logger s') = 1"
    using close_run by blast
  let ?\<sigma> = "states_of default_parsers plain_config close_schedule s"
  have ends: "?\<sigma> 0 = s" "?\<sigma> (length close_schedule) = s'" using run(2) by (simp_all add: states_of_def)
  have "ep_trace default_parsers plain_config tr (?\<sigma> 0)"
    using run_schedule_trace [OF ep_trace.start run(1)] by (simp add: ends)
  from close_returns [of default_parsers plain_config tr ?\<sigma>, OF this] states_of_full [OF run(2,5)] run(3) obtain n where
    n: "ep_serve (?\<sigma> n) = Returned" "ep_outComing (?\<sigma> n) = []" and
    out: "\<forall>m. prefix (ep_logger (?\<sigma> m) @ ep_outComing (?\<sigma> m)) (ep_logger (?\<sigma> n))" by (auto simp: ends(1))
  have "ep_logger (?\<sigma> n) \<noteq> []"
    using out [rule_format, of "length close_schedule"] run(6) by (auto simp: ends(2) prefix_def)
  with n run(4) ends(1) show ?thesis by (intro exI [of _ ?\<sigma>] exI [of _ n]) simp
qed

end
