(* ===== verification/Perf_Reorder.thy ===== *)
theory Perf_Reorder
  imports Prelude "HOL-Library.Multiset"
begin

text \<open>
  The read loops of internal/probe/base/base_probe.go and the reordering of events that arrive from
  the buffers of several CPUs, internal/probe/base/perf_reorder.go. \<open>PerfMonoNs\<close> is the argument \<open>ns\<close>, the
  kernel's clock in the event. Timestamps are compared as \<open>uint64\<close> when sorting and as \<open>int64\<close> when the window
  is computed, as in the source; \<open>sort.SliceStable\<close> is \<open>sort_key\<close>, which is stable.
\<close>

section \<open>The reorder buffer\<close>

record 'e perfReorderItem =
  pi_ev :: 'e
  pi_mono :: u64

record 'e perfLagReorder =
  lagNs :: u64
  maxPending :: nat
  buf :: "'e perfReorderItem list"

definition newPerfLagReorder :: "u64 \<Rightarrow> 'e perfLagReorder" where
  "newPerfLagReorder lag = \<lparr>lagNs = lag, maxPending = 1024, buf = []\<rparr>"

text \<open>\<open>PerfReorderLagNs\<close> of internal/config/base_config.go: the window in nanoseconds, ten milliseconds by default.\<close>

definition PerfReorderLagNs :: "u64 \<Rightarrow> u64" where
  "PerfReorderLagNs ms = (if ms = 0 then 10000000 else ms * 1000000)"

definition flushAll :: "'e perfLagReorder \<Rightarrow> 'e list \<times> 'e perfLagReorder" where
  "flushAll r = (map pi_ev (sort_key pi_mono (buf r)), r\<lparr>buf := []\<rparr>)"

definition flushPressure :: "'e perfLagReorder \<Rightarrow> 'e list \<times> 'e perfLagReorder" where
  "flushPressure r =
     (let sorted = sort_key pi_mono (buf r);
          n = (if length sorted div 2 = 0 then 1 else length sorted div 2)
      in (map pi_ev (take n sorted), r\<lparr>buf := drop n sorted\<rparr>))"

text \<open>The loop for the largest and smallest timestamp, as \<open>int64\<close>, from -1.\<close>

definition scan_step :: "s64 \<times> s64 \<Rightarrow> 'e perfReorderItem \<Rightarrow> s64 \<times> s64" where
  "scan_step m x =
     (let v = pi_mono x
      in (if sint (fst m) < sint v then v else fst m,
          if sint (snd m) < 0 \<or> sint v < sint (snd m) then v else snd m))"

definition flushByLag :: "'e perfLagReorder \<Rightarrow> 'e list \<times> 'e perfLagReorder" where
  "flushByLag r =
     (if length (buf r) \<le> 1 then ([], r)
      else let (maxNs, minNs) = foldl scan_step (-1, -1) (buf r) in
        if sint (maxNs - minNs) < sint (lagNs r) then ([], r)
        else let cutoff = maxNs - lagNs r in
          (map pi_ev (sort_key pi_mono (filter (\<lambda>x. sint (pi_mono x) \<le> sint cutoff) (buf r))),
           r\<lparr>buf := filter (\<lambda>x. \<not> sint (pi_mono x) \<le> sint cutoff) (buf r)\<rparr>))"

definition push :: "('e \<Rightarrow> u64) \<Rightarrow> 'e \<Rightarrow> 'e perfLagReorder \<Rightarrow> 'e list \<times> 'e perfLagReorder" where
  "push ns e r =
     (let r = r\<lparr>buf := buf r @ [\<lparr>pi_ev = e, pi_mono = ns e\<rparr>]\<rparr>
      in if maxPending r \<le> length (buf r) then flushPressure r else flushByLag r)"

section \<open>The read loops\<close>

text \<open>
  What a read of the perf buffer and the decoder give. The loop ends when the reader is closed (or the context
  is done), here at the end of the list; the result is what is dispatched, in order.
\<close>

datatype 'e sample = ReadError | LostSamples | Undecoded | PlainEvent 'e | MonoNsEvent 'e

fun perfEventLoop :: "'e sample list \<Rightarrow> 'e list" where
  "perfEventLoop [] = []"
| "perfEventLoop (PlainEvent e # xs) = e # perfEventLoop xs"
| "perfEventLoop (MonoNsEvent e # xs) = e # perfEventLoop xs"
| "perfEventLoop (_ # xs) = perfEventLoop xs"

fun perfEventLoopOrdered :: "('e \<Rightarrow> u64) \<Rightarrow> 'e perfLagReorder \<Rightarrow> 'e sample list \<Rightarrow> 'e list" where
  "perfEventLoopOrdered ns r [] = fst (flushAll r)"
| "perfEventLoopOrdered ns r (PlainEvent e # xs) = e # perfEventLoopOrdered ns r xs"
| "perfEventLoopOrdered ns r (MonoNsEvent e # xs) =
     (let (out, r) = push ns e r in out @ perfEventLoopOrdered ns r xs)"
| "perfEventLoopOrdered ns r (_ # xs) = perfEventLoopOrdered ns r xs"

section \<open>Nothing is lost and equal timestamps keep their order\<close>

definition stamped :: "('e \<Rightarrow> u64) \<Rightarrow> 'e perfLagReorder \<Rightarrow> bool" where
  "stamped ns r \<longleftrightarrow> (\<forall>x \<in> set (buf r). pi_mono x = ns (pi_ev x)) \<and> maxPending r = 1024 \<and> length (buf r) < 1024"

text \<open>The events of one timestamp in a list, and in a buffer.\<close>

abbreviation at_time :: "('e \<Rightarrow> u64) \<Rightarrow> u64 \<Rightarrow> 'e list \<Rightarrow> 'e list" where
  "at_time ns t es \<equiv> filter (\<lambda>e. ns e = t) es"

definition pending :: "'e perfLagReorder \<Rightarrow> 'e list" where
  "pending r = map pi_ev (buf r)"

lemma at_time_map:
  "\<forall>x \<in> set xs. pi_mono x = ns (pi_ev x) \<Longrightarrow> at_time ns t (map pi_ev xs) = map pi_ev (filter (\<lambda>x. pi_mono x = t) xs)"
  by (induction xs) auto

lemma at_time_sorted:
  assumes "\<forall>x \<in> set xs. pi_mono x = ns (pi_ev x)"
  shows "at_time ns t (map pi_ev (sort_key pi_mono xs)) = at_time ns t (map pi_ev xs)"
  using assms by (simp add: at_time_map sort_key_stable)

lemma at_time_split:
  assumes "\<forall>x \<in> set xs. pi_mono x = ns (pi_ev x)"
  shows "at_time ns t (map pi_ev (filter (\<lambda>x. P (pi_mono x)) xs)) @ at_time ns t (map pi_ev (filter (\<lambda>x. \<not> P (pi_mono x)) xs)) =
    at_time ns t (map pi_ev xs)"
proof -
  have part: "at_time ns t (map pi_ev (filter Q xs)) = map pi_ev (filter (\<lambda>x. Q x \<and> pi_mono x = t) xs)" for Q
    using assms by (subst at_time_map) (auto simp: conj_commute)
  have one: "filter (\<lambda>x. Q (pi_mono x) \<and> pi_mono x = t) xs = (if Q t then filter (\<lambda>x. pi_mono x = t) xs else [])" for Q
    by (auto simp: filter_empty_conv intro: filter_cong)
  show ?thesis
    by (simp add: part [of "\<lambda>x. P (pi_mono x)"] part [of "\<lambda>x. \<not> P (pi_mono x)"] at_time_map [OF assms]
        one [of P] one [of "\<lambda>v. \<not> P v"])
qed

lemma flushByLag_keeps:
  assumes "stamped ns r" "flushByLag r = (out, r')"
  shows "stamped ns r' \<and> at_time ns t (out @ pending r') = at_time ns t (pending r)"
proof (cases "buf r' = buf r \<and> out = []")
  case True
  moreover have "maxPending r' = maxPending r"
    using assms(2) by (auto simp: flushByLag_def Let_def split: prod.splits if_splits)
  ultimately show ?thesis using assms(1) by (simp add: stamped_def pending_def)
next
  case False
  define c where "c = sint (fst (foldl scan_step (-1, -1) (buf r)) - lagNs r)"
  have c: "out = map pi_ev (sort_key pi_mono (filter (\<lambda>x. sint (pi_mono x) \<le> c) (buf r)))"
      "r' = r\<lparr>buf := filter (\<lambda>x. \<not> sint (pi_mono x) \<le> c) (buf r)\<rparr>"
    using assms(2) False by (auto simp: c_def flushByLag_def Let_def case_prod_beta split: if_splits)
  have st: "\<forall>x \<in> set (buf r). pi_mono x = ns (pi_ev x)" using assms(1) by (simp add: stamped_def)
  from at_time_split [OF st, of t "\<lambda>v. sint v \<le> c"] st
  have "at_time ns t (out @ pending r') = at_time ns t (pending r)"
    by (simp add: c pending_def at_time_sorted)
  moreover have "stamped ns r'"
    using assms(1) by (auto simp: c stamped_def intro: le_less_trans [OF length_filter_le])
  ultimately show ?thesis by simp
qed

lemma flushPressure_keeps:
  assumes st: "\<forall>x \<in> set (buf r). pi_mono x = ns (pi_ev x)" and r: "maxPending r = 1024" "length (buf r) \<le> 1024" "buf r \<noteq> []"
    and flush: "flushPressure r = (out, r')"
  shows "stamped ns r' \<and> at_time ns t (out @ pending r') = at_time ns t (pending r)"
proof -
  let ?s = "sort_key pi_mono (buf r)"
  obtain n where n: "0 < n" "out = map pi_ev (take n ?s)" "r' = r\<lparr>buf := drop n ?s\<rparr>"
    using flush by (auto simp: flushPressure_def Let_def split: if_splits)
  have "out @ pending r' = map pi_ev ?s"
    by (simp add: n pending_def flip: map_append)
  then have "at_time ns t (out @ pending r') = at_time ns t (pending r)"
    using st by (simp add: pending_def at_time_sorted)
  moreover have "stamped ns r'"
    using st r n(1) by (auto simp: n(3) stamped_def dest: in_set_dropD)
  ultimately show ?thesis by simp
qed

lemma push_keeps:
  assumes "stamped ns r" "push ns e r = (out, r')"
  shows "stamped ns r' \<and> at_time ns t (out @ pending r') = at_time ns t (pending r @ [e])"
proof -
  let ?r = "r\<lparr>buf := buf r @ [\<lparr>pi_ev = e, pi_mono = ns e\<rparr>]\<rparr>"
  have p: "pending ?r = pending r @ [e]" by (simp add: pending_def)
  show ?thesis
  proof (cases "1024 \<le> length (buf ?r)")
    case True
    with assms have "flushPressure ?r = (out, r')" by (simp add: push_def stamped_def)
    from flushPressure_keeps [OF _ _ _ _ this, of ns t] assms(1) p show ?thesis by (auto simp: stamped_def)
  next
    case False
    with assms have "flushByLag ?r = (out, r')" by (simp add: push_def stamped_def)
    from flushByLag_keeps [OF _ this, of ns t] assms(1) False p show ?thesis by (auto simp: stamped_def)
  qed
qed

definition mono_events :: "'e sample list \<Rightarrow> 'e list" where
  "mono_events xs = List.map_filter (\<lambda>x. case x of MonoNsEvent e \<Rightarrow> Some e | _ \<Rightarrow> None) xs"

lemma mono_events_simps [simp]:
  "mono_events [] = []" "mono_events (MonoNsEvent e # xs) = e # mono_events xs"
  "mono_events (PlainEvent e # xs) = mono_events xs" "mono_events (ReadError # xs) = mono_events xs"
  "mono_events (LostSamples # xs) = mono_events xs" "mono_events (Undecoded # xs) = mono_events xs"
  by (simp_all add: mono_events_def List.map_filter_simps)

lemma same_times_mset:
  assumes "\<And>t. at_time ns t xs = at_time ns t ys"
  shows "mset xs = mset ys"
proof (rule multiset_eqI)
  fix e
  have "count (mset zs) e = count (mset (at_time ns (ns e) zs)) e" for zs by simp
  with assms [of "ns e"] show "count (mset xs) e = count (mset ys) e" by metis
qed

lemma ordered_loop_mset:
  "stamped ns r \<Longrightarrow> mset (perfEventLoopOrdered ns r xs) = mset (pending r) + mset (perfEventLoop xs)"
proof (induction ns r xs rule: perfEventLoopOrdered.induct)
  case (1 ns r)
  then show ?case by (simp add: flushAll_def pending_def)
next
  case (3 ns r e xs)
  obtain out r' where p: "push ns e r = (out, r')" by fastforce
  have k: "stamped ns r'" "\<And>t. at_time ns t (out @ pending r') = at_time ns t (pending r @ [e])"
    using push_keeps [OF "3.prems" p] by auto
  from same_times_mset [OF k(2)] "3.IH" [OF p [symmetric] refl k(1)] p show ?case by simp
qed auto

lemma ordered_loop_times:
  "stamped ns r \<Longrightarrow> at_time ns t (perfEventLoopOrdered ns r (map MonoNsEvent es)) = at_time ns t (pending r @ es)"
proof (induction es arbitrary: r)
  case Nil
  then show ?case by (simp add: flushAll_def pending_def at_time_sorted stamped_def)
next
  case (Cons e es)
  obtain out r' where p: "push ns e r = (out, r')" by fastforce
  from push_keeps [OF Cons.prems p] Cons.IH [of r'] p show ?case by auto
qed

section \<open>A bounded disorder is undone\<close>

text \<open>
  Which of the events so far lie within the window before the newest, and that no event is later than the window
  allows.
\<close>

definition window :: "('e \<Rightarrow> u64) \<Rightarrow> u64 \<Rightarrow> 'e list \<Rightarrow> 'e list" where
  "window ns lag ps = filter (\<lambda>e. \<forall>d \<in> set ps. uint (ns d) < uint (ns e) + uint lag) ps"

definition late_at_most :: "('e \<Rightarrow> u64) \<Rightarrow> u64 \<Rightarrow> 'e list \<Rightarrow> bool" where
  "late_at_most ns lag es \<longleftrightarrow> sorted_wrt (\<lambda>d e. uint (ns d) \<le> uint (ns e) + uint lag) es"

abbreviation is_time :: "u64 \<Rightarrow> bool" where
  "is_time t \<equiv> uint t < 2 ^ 63"

lemma sint_time: "is_time t \<Longrightarrow> sint t = uint t"
proof -
  assume t: "is_time t"
  have "signed_take_bit 63 (uint t) = uint t"
    by (rule signed_take_bit_int_eq_self) (use t uint_ge_0 [of t] in \<open>linarith+\<close>)
  then show ?thesis by (simp add: sint_uint)
qed

lemma sint_diff:
  assumes "is_time a" "is_time b"
  shows "sint (a - b) = uint a - uint b"
proof -
  have "signed_take_bit 63 (uint a - uint b) = uint a - uint b"
    by (rule signed_take_bit_int_eq_self) (use assms uint_ge_0 [of a] uint_ge_0 [of b] in \<open>linarith+\<close>)
  then show ?thesis by (simp add: sint_word_ariths sint_time [OF assms(1)] sint_time [OF assms(2)])
qed

lemma scan_max:
  "let m' = fst (foldl scan_step m xs) in
     sint (fst m) \<le> sint m' \<and> (\<forall>x \<in> set xs. sint (pi_mono x) \<le> sint m') \<and> (m' = fst m \<or> m' \<in> pi_mono ` set xs)"
proof (induction xs arbitrary: m)
  case (Cons x xs)
  from Cons [of "scan_step m x"] show ?case by (auto simp: scan_step_def Let_def split: if_splits)
qed simp

lemma scan_min:
  assumes "\<forall>x \<in> set xs. 0 \<le> sint (pi_mono x)" "0 \<le> sint (snd m)"
  shows "let m' = snd (foldl scan_step m xs) in
     sint m' \<le> sint (snd m) \<and> (\<forall>x \<in> set xs. sint m' \<le> sint (pi_mono x)) \<and> (m' = snd m \<or> m' \<in> pi_mono ` set xs)"
  using assms
proof (induction xs arbitrary: m)
  case (Cons x xs)
  have "snd (scan_step m x) = (if sint (pi_mono x) < sint (snd m) then pi_mono x else snd m)"
    using Cons.prems by (simp add: scan_step_def Let_def)
  with Cons.prems Cons.IH [of "scan_step m x"] show ?case by (auto simp: Let_def split: if_splits)
qed simp

lemma scan_result:
  assumes "xs \<noteq> []" "\<forall>x \<in> set xs. is_time (pi_mono x)" "foldl scan_step (-1, -1) xs = (mx, mn)"
  shows "mx \<in> pi_mono ` set xs" "mn \<in> pi_mono ` set xs"
    "\<forall>x \<in> set xs. uint (pi_mono x) \<le> uint mx \<and> uint mn \<le> uint (pi_mono x)"
proof -
  obtain y ys where xs: "xs = y # ys" using assms(1) by (cases xs) auto
  have nonneg: "0 \<le> sint (pi_mono x)" if "x \<in> set xs" for x using assms(2) that by (simp add: sint_time)
  have "scan_step (-1, -1) y = (pi_mono y, pi_mono y)"
    using nonneg [of y] by (simp add: xs scan_step_def Let_def)
  then have f: "foldl scan_step (pi_mono y, pi_mono y) ys = (mx, mn)" using assms(3) xs by simp
  have a: "sint (pi_mono y) \<le> sint mx" "\<forall>x \<in> set ys. sint (pi_mono x) \<le> sint mx" "mx \<in> pi_mono ` set xs"
    using scan_max [of "(pi_mono y, pi_mono y)" ys] by (auto simp: f xs Let_def)
  have b: "sint mn \<le> sint (pi_mono y)" "\<forall>x \<in> set ys. sint mn \<le> sint (pi_mono x)" "mn \<in> pi_mono ` set xs"
    using scan_min [of ys "(pi_mono y, pi_mono y)"] nonneg by (auto simp: f xs Let_def)
  have t: "is_time mx" "is_time mn" using a(3) b(3) assms(2) by auto
  show "mx \<in> pi_mono ` set xs" "mn \<in> pi_mono ` set xs" by fact+
  show "\<forall>x \<in> set xs. uint (pi_mono x) \<le> uint mx \<and> uint mn \<le> uint (pi_mono x)"
    using a(1,2) b(1,2) t assms(2) by (auto simp: xs sint_time)
qed

lemma flushByLag_window:
  assumes ne: "buf r \<noteq> []" and t: "\<forall>x \<in> set (buf r). is_time (pi_mono x)" and lag: "is_time (lagNs r)" "0 < uint (lagNs r)"
  shows "\<exists>mx \<in> pi_mono ` set (buf r). (\<forall>x \<in> set (buf r). uint (pi_mono x) \<le> uint mx) \<and>
    flushByLag r = (map pi_ev (sort_key pi_mono (filter (\<lambda>x. \<not> uint mx < uint (pi_mono x) + uint (lagNs r)) (buf r))),
      r\<lparr>buf := filter (\<lambda>x. uint mx < uint (pi_mono x) + uint (lagNs r)) (buf r)\<rparr>)"
proof -
  obtain mx mn where f: "foldl scan_step (-1, -1) (buf r) = (mx, mn)" by fastforce
  note m = scan_result [OF ne t f]
  have tm: "is_time mx" "is_time mn" using m(1,2) t by auto
  have none: "flushByLag r = ([], r) \<Longrightarrow> \<forall>x \<in> set (buf r). uint mx < uint (pi_mono x) + uint (lagNs r) \<Longrightarrow> ?thesis"
    using m(1,3) by (intro bexI [of _ mx]) (auto simp: filter_empty_conv filter_id_conv)
  show ?thesis
  proof (cases "length (buf r) \<le> 1")
    case True
    with ne obtain x where "buf r = [x]" by (cases "buf r") auto
    with True m(1) lag show ?thesis by (intro none) (auto simp: flushByLag_def)
  next
    case False
    show ?thesis
    proof (cases "uint mx - uint mn < uint (lagNs r)")
      case True
      then have "sint (mx - mn) < sint (lagNs r)" using sint_diff [OF tm] sint_time [OF lag(1)] by simp
      with False f have "flushByLag r = ([], r)" by (simp add: flushByLag_def)
      moreover have "\<forall>x \<in> set (buf r). uint mx < uint (pi_mono x) + uint (lagNs r)"
      proof
        fix x assume "x \<in> set (buf r)"
        with m(3) have "uint mn \<le> uint (pi_mono x)" by blast
        with True show "uint mx < uint (pi_mono x) + uint (lagNs r)" by linarith
      qed
      ultimately show ?thesis by (rule none)
    next
      case far: False
      then have "\<not> sint (mx - mn) < sint (lagNs r)" using sint_diff [OF tm] sint_time [OF lag(1)] by simp
      moreover have "sint (pi_mono x) \<le> sint (mx - lagNs r) \<longleftrightarrow> \<not> uint mx < uint (pi_mono x) + uint (lagNs r)"
        if "x \<in> set (buf r)" for x
        using that t sint_diff [OF tm(1) lag(1)] sint_time [of "pi_mono x"] by auto
      then have "filter (\<lambda>x. sint (pi_mono x) \<le> sint (mx - lagNs r)) (buf r) =
          filter (\<lambda>x. \<not> uint mx < uint (pi_mono x) + uint (lagNs r)) (buf r)"
        "filter (\<lambda>x. \<not> sint (pi_mono x) \<le> sint (mx - lagNs r)) (buf r) =
          filter (\<lambda>x. uint mx < uint (pi_mono x) + uint (lagNs r)) (buf r)"
        by (auto intro: filter_cong)
      ultimately show ?thesis using False f m(1,3)
        by (intro bexI [of _ mx] conjI) (simp_all add: flushByLag_def Let_def)
    qed
  qed
qed

lemma window_snoc:
  assumes lag: "0 < uint lag" and mx: "M \<in> (\<lambda>x. uint (ns x)) ` set (window ns lag ps @ [e])"
    and ub: "\<forall>x \<in> set (window ns lag ps @ [e]). uint (ns x) \<le> M"
  shows "window ns lag (ps @ [e]) = filter (\<lambda>x. M < uint (ns x) + uint lag) (window ns lag ps @ [e])"
proof -
  have top: "uint (ns d) \<le> M" if d: "d \<in> set ps" for d
  proof -
    obtain d' where d': "d' \<in> set ps" "\<forall>x \<in> set ps. uint (ns x) \<le> uint (ns d')"
      using d Max_in [of "(\<lambda>x. uint (ns x)) ` set ps"] Max_ge [of "(\<lambda>x. uint (ns x)) ` set ps"] by fastforce
    then have "d' \<in> set (window ns lag ps)" using lag by (force simp: window_def)
    with ub d' d show ?thesis by force
  qed
  have "M \<in> (\<lambda>x. uint (ns x)) ` set (ps @ [e])" using mx by (auto simp: window_def)
  then have all: "(\<forall>d \<in> set (ps @ [e]). uint (ns d) < uint (ns x) + uint lag) \<longleftrightarrow> M < uint (ns x) + uint lag" for x
    using top ub by fastforce
  have "filter (\<lambda>x. M < uint (ns x) + uint lag) (window ns lag ps) = filter (\<lambda>x. M < uint (ns x) + uint lag) ps"
    using top by (auto simp: window_def intro!: filter_cong intro: le_less_trans)
  then show ?thesis by (simp only: window_def [of ns lag "ps @ [e]"] all) simp
qed

text \<open>After the events \<open>ps\<close>: what has been dispatched is in order, and older than the window that is held back.\<close>

definition in_order :: "('e \<Rightarrow> u64) \<Rightarrow> u64 \<Rightarrow> 'e list \<Rightarrow> 'e list \<Rightarrow> 'e perfLagReorder \<Rightarrow> bool" where
  "in_order ns lag ps out r \<longleftrightarrow> stamped ns r \<and> lagNs r = lag \<and> pending r = window ns lag ps \<and> sorted (map ns out) \<and>
     (\<forall>a \<in> set out. \<exists>d \<in> set ps. uint (ns a) + uint lag \<le> uint (ns d))"

lemma in_order_pending:
  assumes "in_order ns lag ps out r" "a \<in> set out" "b \<in> set (pending r)"
  shows "ns a \<le> ns b"
  using assms by (fastforce simp: in_order_def window_def word_le_def)

lemma stamped_sorted: "\<forall>x \<in> set xs. pi_mono x = ns (pi_ev x) \<Longrightarrow> sorted (map ns (map pi_ev (sort_key pi_mono xs)))"
proof -
  assume "\<forall>x \<in> set xs. pi_mono x = ns (pi_ev x)"
  then have "map ns (map pi_ev (sort_key pi_mono xs)) = map pi_mono (sort_key pi_mono xs)" by simp
  then show ?thesis by (simp only: sorted_sort_key)
qed

lemma push_in_order:
  fixes ns :: "'e \<Rightarrow> u64"
  assumes inv: "in_order ns lag ps out r" and lag: "is_time lag" "0 < uint lag" and t: "\<forall>d \<in> set (ps @ [e]). is_time (ns d)"
    and late: "\<forall>d \<in> set ps. uint (ns d) \<le> uint (ns e) + uint lag" and room: "length (window ns lag ps) < 1023"
    and push: "push ns e r = (out', r')"
  shows "in_order ns lag (ps @ [e]) (out @ out') r'"
proof -
  define b where "b = buf r @ [\<lparr>pi_ev = e, pi_mono = ns e\<rparr>]"
  have st: "\<forall>x \<in> set b. pi_mono x = ns (pi_ev x)" and lagr: "lagNs r = lag" and p: "map pi_ev b = window ns lag ps @ [e]"
    and ne: "b \<noteq> []" and len: "length b < 1024"
    using inv room by (auto simp: b_def in_order_def stamped_def pending_def dest: arg_cong [of _ _ length])
  have sub: "pi_ev ` set b \<subseteq> set (ps @ [e])"
    using arg_cong [OF p, of set] by (auto simp: window_def)
  have flush: "flushByLag (r\<lparr>buf := b\<rparr>) = (out', r')"
    using push inv len by (simp add: push_def in_order_def stamped_def b_def)
  have tb: "\<forall>x \<in> set b. is_time (pi_mono x)" using st t sub by auto
  obtain mx where mx: "mx \<in> pi_mono ` set b" "\<forall>x \<in> set b. uint (pi_mono x) \<le> uint mx"
    and o: "out' = map pi_ev (sort_key pi_mono (filter (\<lambda>x. \<not> uint mx < uint (pi_mono x) + uint lag) b))"
    and r': "r' = r\<lparr>buf := filter (\<lambda>x. uint mx < uint (pi_mono x) + uint lag) b\<rparr>"
    using flushByLag_window [of "r\<lparr>buf := b\<rparr>"] ne tb lag lagr flush by auto
  have wps: "set (window ns lag ps @ [e]) = pi_ev ` set b" using arg_cong [OF p, of set] by simp
  have "window ns lag (ps @ [e]) = filter (\<lambda>x. uint mx < uint (ns x) + uint lag) (map pi_ev b)"
    unfolding p by (rule window_snoc [OF lag(2)]) (use mx st in \<open>auto simp only: wps image_iff ball_simps bex_simps\<close>)
  also have "\<dots> = map pi_ev (filter (\<lambda>x. uint mx < uint (pi_mono x) + uint lag) b)"
    using st by (auto simp: filter_map intro!: arg_cong [of _ _ "map pi_ev"] filter_cong)
  finally have pend: "pending r' = window ns lag (ps @ [e])" by (simp add: r' pending_def)
  have old: "ns a \<le> ns b" if "a \<in> set out" "b \<in> set (window ns lag ps @ [e])" for a b
  proof (cases "b = e")
    case True
    obtain d where "d \<in> set ps" "uint (ns a) + uint lag \<le> uint (ns d)" using inv \<open>a \<in> set out\<close> by (auto simp: in_order_def)
    with late True show ?thesis by (force simp: word_le_def)
  next
    case False
    with that inv in_order_pending [OF inv] show ?thesis by (auto simp: in_order_def)
  qed
  have new: "a \<in> set out' \<Longrightarrow> a \<in> set (window ns lag ps @ [e]) \<and> \<not> uint mx < uint (ns a) + uint lag" for a
    using st unfolding wps by (auto simp: o)
  have "sorted (map ns out')"
    unfolding o by (rule stamped_sorted) (use st in auto)
  then have "sorted (map ns (out @ out'))"
    using inv old new by (auto simp: in_order_def sorted_append)
  moreover have "\<exists>d \<in> set (ps @ [e]). uint (ns a) + uint lag \<le> uint (ns d)" if a: "a \<in> set out'" for a
  proof -
    obtain x where x: "x \<in> set b" "mx = pi_mono x" using mx(1) by blast
    then have "pi_ev x \<in> set (ps @ [e])" "ns (pi_ev x) = mx" using sub st by auto
    with new [OF a] show ?thesis by (intro bexI [of _ "pi_ev x"]) auto
  qed
  moreover have "stamped ns r'" using push_keeps [OF _ push] inv by (simp add: in_order_def)
  ultimately show ?thesis using inv pend by (auto simp: in_order_def r')
qed

lemma loop_in_order:
  assumes "in_order ns lag ps out r" and lag: "is_time lag" "0 < uint lag" and "\<forall>d \<in> set (ps @ es). is_time (ns d)"
    and "late_at_most ns lag (ps @ es)" and "\<forall>k. length (window ns lag (take k (ps @ es))) < 1023"
  shows "sorted (map ns (out @ perfEventLoopOrdered ns r (map MonoNsEvent es)))"
  using assms(1,4-)
proof (induction es arbitrary: ps out r)
  case Nil
  then have "sorted (map ns (fst (flushAll r)))"
    by (auto simp: flushAll_def in_order_def stamped_def simp del: map_map intro: stamped_sorted)
  moreover have "set (fst (flushAll r)) = set (pending r)" by (simp add: flushAll_def pending_def)
  moreover have "sorted (map ns out)" using Nil.prems(1) by (simp add: in_order_def)
  ultimately show ?case using in_order_pending [OF Nil.prems(1)] by (auto simp: sorted_append)
next
  case (Cons e es)
  obtain out' r' where p: "push ns e r = (out', r')" by fastforce
  have late: "\<forall>d \<in> set ps. uint (ns d) \<le> uint (ns e) + uint lag"
    using Cons.prems(3) by (simp add: late_at_most_def sorted_wrt_append)
  have room: "length (window ns lag ps) < 1023" using Cons.prems(4) [rule_format, of "length ps"] by simp
  have "in_order ns lag (ps @ [e]) (out @ out') r'"
    by (rule push_in_order [OF Cons.prems(1) lag _ late room p]) (use Cons.prems(2) in auto)
  from Cons.IH [OF this] Cons.prems p show ?case by simp
qed

lemma new_stamped [simp]: "stamped ns (newPerfLagReorder lag)" "pending (newPerfLagReorder lag) = []"
  by (simp_all add: newPerfLagReorder_def stamped_def pending_def)

section \<open>Properties\<close>

text \<open>
  C15: The reordering read loop undoes every disorder its window covers: when no event is overtaken by one that
  is more than the window newer, and fewer than 1023 events ever lie within the window before the newest, the
  events are dispatched exactly in the order of a stable sort of the whole stream by timestamp.
\<close>

theorem reorder_sorts:
  assumes "0 < uint lag" "uint lag < 2 ^ 63" "\<forall>e \<in> set es. uint (ns e) < 2 ^ 63"
    and "late_at_most ns lag es" and "\<forall>k. length (window ns lag (take k es)) < 1023"
  shows "perfEventLoopOrdered ns (newPerfLagReorder lag) (map MonoNsEvent es) = sort_key ns es"
proof (rule properties_for_sort_key [symmetric])
  let ?out = "perfEventLoopOrdered ns (newPerfLagReorder lag) (map MonoNsEvent es)"
  have times: "at_time ns t ?out = at_time ns t es" for t using ordered_loop_times [of ns "newPerfLagReorder lag"] by simp
  then show "mset ?out = mset es" by (rule same_times_mset)
  show "filter (\<lambda>x. ns k = ns x) ?out = filter (\<lambda>x. ns k = ns x) es" for k
    using times [of "ns k"] by (simp add: eq_commute)
  have "in_order ns lag [] [] (newPerfLagReorder lag)"
    by (simp add: in_order_def window_def) (simp add: newPerfLagReorder_def)
  from loop_in_order [OF this assms(2,1)] assms(3-) show "sorted (map ns ?out)" by simp
qed

theorem reorder_sorts_witness:
  "perfEventLoopOrdered snd (newPerfLagReorder 30) (map MonoNsEvent [(1 :: nat, 100), (2, 95), (3, 120), (4, 95)]) =
     [(2, 95), (4, 95), (1, 100), (3, 120)]"
proof -
  let ?es = "[(1 :: nat, 100 :: u64), (2, 95), (3, 120), (4, 95)]"
  have "length (window snd 30 (take k ?es)) < 1023" for k
    unfolding window_def by (rule le_less_trans [OF length_filter_le]) simp
  then have "perfEventLoopOrdered snd (newPerfLagReorder 30) (map MonoNsEvent ?es) = sort_key snd ?es"
    by (intro reorder_sorts) (simp_all add: late_at_most_def)
  then show ?thesis by simp
qed

text \<open>
  C18: The reordering read loop dispatches exactly the events the plain loop dispatches, each once, whatever the
  timestamps, the window and the number of events waiting (also when the full buffer is halved); and events
  with the same timestamp keep their order.
\<close>

theorem reorder_keeps_events:
  "mset (perfEventLoopOrdered ns (newPerfLagReorder lag) xs) = mset (perfEventLoop xs) \<and>
   filter (\<lambda>e. ns e = t) (perfEventLoopOrdered ns (newPerfLagReorder lag) (map MonoNsEvent es)) = filter (\<lambda>e. ns e = t) es"
  using ordered_loop_mset [of ns "newPerfLagReorder lag" xs] ordered_loop_times [of ns "newPerfLagReorder lag" t es] by simp

end
