(* ===== verification/Spec2Isabelle.thy ===== *)
theory Spec2Isabelle
  imports Bash_Probe Zsh_Probe Postgres_Probe Mysql_Probe Nspr_Probe Gnutls_Probe Openssl_Capture
    Openssl_Masterkey Gnutls_Masterkey Boringssl_Masterkey Tc_Capture Gotls_Capture Offset_Headers Keylog_Output
    Event_Recording Event_Races Event_Liveness Perf_Reorder
begin

text \<open>
  \<^bold>\<open>eCapture: the eBPF programs\<close>

  eCapture observes TLS plaintext, TLS keys, shell commands, SQL queries and packets of a running
  system. Its core is the C code under src/kern: one BPF object per target, whose programs the kernel
  runs at the entry or return of a function of the observed process (uprobes), of the kernel
  (kprobes) or for every packet (traffic-control classifiers). The programs keep what they need
  between two hooks in BPF maps and send what they find to user space as perf events. This
  development models those objects, program by program, together with the parts of the Go user
  space that consume their events where a property needs the consumer.

  \<^bold>\<open>How the code is modelled\<close>

  \<^item> C integers are words of their width (\<open>u8\<close> to \<open>u64\<close>, \<open>s32\<close> read with \<open>sint\<close>); structs are records
    with the members of the source, arrays of bytes are \<open>bytes\<close>; both targets are little-endian.
  \<^item> \<open>make all\<close> compiles each object twice, with CO-RE and without (\<open>NOCORE\<close>). The two differ for this model in the
    header structs of kern/ecapture.h only: Tc_Probe and Tc_Capture have the \<open>build\<close> as an argument, and every theorem
    there is for both builds or says for which. The registers and the kernel structs the
    other programs read are the same in both (the layout of \<open>struct sock\<close> is a parameter).
  \<^item> What the kernel's helpers answer during one run is the argument \<open>kernel\<close> (Bpf_Runtime): the
    current task, clock, CPU and comm, the readable memories, what a failed read leaves behind, the
    contents of uninitialised variables, the victim of an LRU eviction. Every theorem quantifies over it.
  \<^item> The state of an object is a record with one field per map; a perf event array is the list of the
    samples sent. A program is a function from the state to the state and its return value, with
    one branch per early return of the C code. Debug prints are left out. A pointer to a map element is the value
    it points to, written back where the program writes through it; the reuse of a deleted element by
    another CPU is not represented.
  \<^item> Maps are association lists with their capacity: a full \<open>HASH\<close> refuses a new key, a full
    \<open>LRU_HASH\<close> evicts one. The locales \<open>keyed_map\<close> and \<open>hash_like\<close> state their contracts.
  \<^item> Programs of several tasks interleave: \<open>others\<close> is any number of runs that do not belong to a
    given task (or socket), \<open>task_isolated\<close> and \<open>task_lossy\<close> are the contracts of objects whose
    per-task state survives them, and \<open>probe_pair\<close> is the contract of an entry hook with its return
    hook. They are interpreted on the objects that satisfy them. The reachable states of each
    object are an inductive predicate over its step relation.
  \<^item> No fuel is needed: the BPF programs have no unbounded loop, and the loop of the generators'
    \<open>toUpper\<close> is a partial function (its \<open>int\<close> index an unbounded number) proved to return on every string; the loops of the event processor's goroutines
    are step functions, and that they end is proved of their runs. The sixteen unrolled segments of the Go probe
    are a fold over the same sixteen indices; they cover the 256 KiB the payload is clipped to.

  \<^bold>\<open>Theories\<close>

  \<^item> Prelude: words, little-endian encodings, memory, pieces of a list; byte swapping of
    kern/bpf/bpf_endian.h and \<open>roundup\<close> of kern/common.h. Bpf_Runtime: helpers, maps, interleaving.
    Bpf_Regs: the argument registers of kern/bpf/bpf_tracing.h and kern/go_argument.h. Go_Reader: the
    reads of Go's encoding/binary.
  \<^item> Ecapture_Filter: kern/common.h and kern/ecapture.h, the constants user space sets and the filter;
    \<open>wants\<close> is its specification.
  \<^item> Bash_Probe, Zsh_Probe, Postgres_Probe, Mysql_Probe: the objects of the same name. A command line
    or query is joined with its status by exactly its own return hook; Bash_Probe includes the
    consumer \<open>handleEvent\<close> of internal/probe/bash.
  \<^item> Ssl_Capture with Nspr_Probe, Gnutls_Probe, Openssl_Probe and Openssl_Capture: plaintext capture
    of kern/nspr_kern.c, kern/gnutls.h and kern/openssl.h, and the connection tracking of the latter.
    A call is reported once with its own buffer; a connect or accept is reported with the end points
    the socket has in kernel memory, and both ends of a connection name the same flow.
  \<^item> Master_Secret with Openssl_Masterkey, Gnutls_Masterkey, Boringssl_Masterkey and the offset tables
    Openssl_Offsets, Gnutls_Offsets, Boringssl_Offsets: the key probes (kern/openssl_masterkey*.h,
    kern/gnutls_masterkey.h, kern/boringssl_masterkey.h, kern/boringssl_const.h) and all version
    files. The programs report exactly the secrets that a declarative reading of the process's memory
    gives, with any of the tables.
  \<^item> Tc_Probe and Tc_Capture: kern/tc.h, the packet classifiers and the sendmsg kprobes, with the
    decoder of internal/probe/openssl/event_packet.go. Packet access is safe for every packet and
    every answer of \<open>bpf_skb_pull_data\<close>; the classifiers refine a specification on the whole packet;
    a packet is attributed to the process that sent on its socket. The two builds report different packets: the
    CO-RE object no short IPv4 packets, the other one hardly any IPv6 packet.
  \<^item> Gotls_Probe and Gotls_Capture: kern/gotls_kern.c with the decoders of internal/probe/gotls. A
    payload arrives as the pieces of its first 256 KiB, with the connection it was captured on; a
    key-log line arrives as the process wrote it.
  \<^item> Offset_Text, Offset_Generator and Offset_Headers: the programs src/utils/*_offset.c that print the
    offset tables, as the text they write for a given layout of the library's structs, and the
    \<open>#define\<close> lines as the preprocessor reads them (the locale \<open>header_generator\<close>, interpreted on every
    list of fields). The printed macros read back as the offsets, and the objects compiled with them use each
    offset for the member it belongs to.
  \<^item> Keylog_Handler and Keylog_Output: the Go side of the master-key probes, from the sample of the perf
    buffer to a line of the key-log file (the secret event of internal/probe/openssl, \<open>KeylogHandler\<close>,
    \<open>ExpandLabel\<close>, \<open>KeylogWriter\<close>). The log refines "the first secret offered for each pair of label and client
    random" (the strings of the deduplication stand for these pairs one to one); what the OpenSSL objects report is logged and reads back; BoringSSL's events are
    decoded with the wrong struct.
  \<^item> Perf_Reorder: the read loops of internal/probe/base/base_probe.go and the reorder buffer of
    perf_reorder.go. The ordered loop dispatches what the plain loop dispatches, and sorts the stream
    by timestamp as long as no event is later than the window and the buffer does not fill up.
  \<^item> Event_Worker, Event_Processor, Event_Delivery, Event_Recording, Event_Races and Event_Liveness:
    pkg/event_processor (processor.go, iworker.go, with what they use of event.go, iparser.go and base_event.go). One
    function per goroutine gives its next step, \<open>ep_step\<close> interleaves them, \<open>ep_trace\<close> is what is reachable; a trace
    records the events that the channels of the workers took. \<open>uuidParse\<close> recognises exactly the UUIDs of
    sockets; no run panics (Event_Delivery); what the workers write to their parsers, observed by a parser that
    records its \<open>Write\<close> calls, are the payloads in order and completely (Event_Recording); the races in which an
    accepted event is lost are described from every state in which they can begin (Event_Races); and \<open>Close\<close>
    returns with every accepted output written (Event_Liveness; the locale \<open>eventual\<close>, interpreted once for
    \<open>Serve\<close> under fair scheduling and once for all goroutines together).
  \<^item> This theory: what connects the components.

  \<^bold>\<open>Assumptions on code outside src/\<close>

  Kernel code is a parameter: \<open>bpf_skb_pull_data\<close> (with \<open>pull_delivers\<close>, its documented behaviour,
  where a theorem says that something is reported), the injected pcap filter, the layout of
  \<open>struct sock\<close> (relocated at load time). The memory layouts of the traced libraries are the
  offset tables; a theorem about reported secrets assumes the bytes at those offsets are readable. The
  key-log handler gets \<open>hkdf.Expand\<close> (\<open>hkdf_fills\<close>: it fills the output it is asked for), the answers
  of the file and the order of a map traversal (\<open>order_ok\<close>: a permutation) as arguments. The
  offset generators get the layout of the library's structs as an argument, any function at all; their
  theorems assume only that the library's version text is one line. The event processor gets the HTTP parsers
  (which rest on Go's net/http) as functions of any kind on a state of any type; \<open>DefaultParser\<close> is modelled.
  Goroutines interleave at channel operations, critical sections and atomics, and a stopped ticker delivers no
  late tick (Go 1.23 and later); that \<open>Close\<close> returns assumes that \<open>Serve\<close> is scheduled again and again and that
  time goes on.

  \<^bold>\<open>Not modelled\<close>

  The generated vmlinux headers and the vendored libbpf headers beyond the register and byte-order
  macros the probes use; kern/core_fixes.bpf.h (third-party helpers no program here calls); the
  shell scripts that fetch the libraries and run the offset generators; the Go user space beyond the
  parts named above (loading and attaching, configuration, the dispatcher and the other writers, HTTP parsing, the
  protobuf output of \<open>Display\<close>, which no logger that is not nil reaches, remote transport).
\<close>

section \<open>Connections and packets\<close>

text \<open>
  The connection events of kern/openssl.h and the packets of kern/tc.h are joined in user space by
  their addresses. \<open>event_net_id\<close> is the socket-map key that the addresses of a connection event name.
\<close>

definition event_net_id :: "connect_event_t \<Rightarrow> net_id_t" where
  "event_net_id e = flow_net_id IPPROTO_TCP \<lparr>fl_family = ce_family e, fl_laddr = ce_saddr e, fl_lport = ce_sport e,
     fl_raddr = ce_daddr e, fl_rport = ce_dport e\<rparr>"

lemma event_net_id_connection: "event_net_id (connection_event k fd sk f) = flow_net_id IPPROTO_TCP f"
  by (cases f) (simp add: event_net_id_def connection_event_def)

text \<open>
  C4: The connection tracking and the packet capture agree on what a connection is. When a connect
  call of an accepted thread is reported for a socket, and any process then sends on that socket,
  the sender is recorded under exactly the key that the reported event names, and the packets the
  event describes (in either direction, unless the peer's socket is recorded here too) are looked
  up as that sender's.
\<close>

theorem connect_event_names_packets:
  assumes "passes_filter c k1 (Some r1)" and "sock_holds l (k_kern k1) sk f" and "flow_established f"
    and "sock_holds l (k_any k2) sk f" and "PT_REGS_PARM1 r2 = sk" and "sk \<noteq> 0"
  shows "\<exists>e. os_connect_events (fst (kretprobe_connect l c k1 r1 fd sk True s)) = os_connect_events s @ [e] \<and>
    (let t' = fst (tcp_sendmsg l k2 r2 t);
         x = \<lparr>nc_pid = cur_pid k2, nc_uid = cur_uid k2, nc_cgroup_id = k_cgroup_id k2, nc_comm = k_comm k2\<rparr>
     in map_lookup (tc_network_map t') (event_net_id e) = Some x \<and>
        network_lookup t' (event_net_id e) = Some x \<and>
        (map_lookup (tc_network_map t') (net_id_swap (event_net_id e)) = None \<longrightarrow>
         network_lookup t' (net_id_swap (event_net_id e)) = Some x))"
proof (intro exI conjI)
  let ?e = "connection_event k1 fd sk f"
  let ?x = "\<lparr>nc_pid = cur_pid k2, nc_uid = cur_uid k2, nc_cgroup_id = k_cgroup_id k2, nc_comm = k_comm k2\<rparr>"
  show "os_connect_events (fst (kretprobe_connect l c k1 r1 fd sk True s)) = os_connect_events s @ [?e]"
    using kretprobe_connect_reports [OF assms(1-3)] by simp
  have look: "map_lookup (tc_network_map (fst (tcp_sendmsg l k2 r2 t))) (event_net_id ?e) = Some ?x"
    using assms(5,6) sendmsg_conn_id_holds [OF assms(4), of IPPROTO_TCP]
    by (simp add: tcp_sendmsg_def trace_sendmsg_map event_net_id_connection)
  then show "let t' = fst (tcp_sendmsg l k2 r2 t); x = ?x
     in map_lookup (tc_network_map t') (event_net_id ?e) = Some x \<and>
        network_lookup t' (event_net_id ?e) = Some x \<and>
        (map_lookup (tc_network_map t') (net_id_swap (event_net_id ?e)) = None \<longrightarrow>
         network_lookup t' (net_id_swap (event_net_id ?e)) = Some x)"
    by (simp add: network_lookup_def net_id_swap_def)
qed

theorem connect_event_names_packets_witness:
  "\<exists>e. os_connect_events (fst (kretprobe_connect vmlinux_layout rodata_default (kernel0\<lparr>k_kern := sample_kern\<rparr>)
      (X86 regs0) 7 8192 True openssl_init)) = os_connect_events openssl_init @ [e] \<and>
    (let x = \<lparr>nc_pid = 100, nc_uid = 1000, nc_cgroup_id = 7, nc_comm = replicate 16 0\<rparr>
     in network_lookup sample_sent (event_net_id e) = Some x \<and>
        network_lookup sample_sent (net_id_swap (event_net_id e)) = Some x)"
proof -
  let ?x = "\<lparr>nc_pid = 100, nc_uid = 1000, nc_cgroup_id = 7, nc_comm = replicate 16 0\<rparr>"
  let ?i = "flow_net_id IPPROTO_TCP sample_flow"
  have holds: "sock_holds vmlinux_layout (k_kern (kernel0\<lparr>k_kern := sample_kern\<rparr>)) 8192 sample_flow"
    "sock_holds vmlinux_layout (k_any sample_sender) 8192 sample_flow" using sample_kern_holds by simp_all
  have task: "cur_pid sample_sender = 100" "cur_uid sample_sender = 1000" by (simp_all add: cur_pid_def cur_uid_def)
  have m: "tc_network_map sample_sent = [(?i, ?x)]"
    using sendmsg_conn_id_holds [OF holds(2), of IPPROTO_TCP]
    by (simp add: tcp_sendmsg_def trace_sendmsg_map task tc_init_def lru_update_def map_room_def network_map_max_def)
  obtain e where e: "os_connect_events (fst (kretprobe_connect vmlinux_layout rodata_default
        (kernel0\<lparr>k_kern := sample_kern\<rparr>) (X86 regs0) 7 8192 True openssl_init)) = os_connect_events openssl_init @ [e]"
      "map_lookup (tc_network_map sample_sent) (event_net_id e) = Some ?x"
      "network_lookup sample_sent (event_net_id e) = Some ?x"
      "map_lookup (tc_network_map sample_sent) (net_id_swap (event_net_id e)) = None \<Longrightarrow>
       network_lookup sample_sent (net_id_swap (event_net_id e)) = Some ?x"
    using connect_event_names_packets [OF rodata_default_passes holds(1) sample_flow_established holds(2),
        of "X86 (regs0\<lparr>x_di := 8192\<rparr>)" "X86 regs0" 7 openssl_init tc_init]
    unfolding task Let_def by auto
  have "event_net_id e = ?i" using e(2) m by (simp add: map_lookup_def split: if_splits)
  moreover have "ni_src_port (net_id_swap ?i) \<noteq> ni_src_port ?i"
    by (simp add: net_id_swap_def flow_net_id_def sample_flow_def Let_def AF_INET_def AF_INET6_def)
  ultimately have "map_lookup (tc_network_map sample_sent) (net_id_swap (event_net_id e)) = None"
    using m by (auto simp: map_lookup_def)
  with e show ?thesis by (auto simp: Let_def)
qed

end
